(* ===== verification/Prelude.thy ===== *)
theory Prelude
  imports Main "HOL-Library.AList" "HOL-Library.Word"
begin

text \<open>
  The shared vocabulary of the development: the operations of the C++ standard library the
  sources use (\<open>std::string\<close> searches, \<open>std::getline\<close>, \<open>std::from_chars\<close>, \<open>std::stoul\<close>,
  \<open>std::format\<close>, \<open>std::unordered_map\<close>) as executable functions on \<open>string\<close> and on
  association lists, with the generic lemmas the component theories rely on.

  Index results follow the library: \<open>npos\<close> is \<open>None\<close>. An \<open>unordered_map\<close> is an
  association list with distinct keys; the order of the list stands for the unspecified
  iteration order, so a statement about every such list holds for every iteration order.
\<close>

named_theorems frame_simps
  \<open>equations saying which state components an operation leaves alone\<close>

type_synonym ('k, 'v) umap = "('k \<times> 'v) list"

section \<open>Searching in strings\<close>

fun find_first :: "('a \<Rightarrow> bool) \<Rightarrow> 'a list \<Rightarrow> nat option" where
  "find_first P [] = None"
| "find_first P (x # xs) = (if P x then Some 0 else map_option Suc (find_first P xs))"

definition find_first_from :: "('a \<Rightarrow> bool) \<Rightarrow> nat \<Rightarrow> 'a list \<Rightarrow> nat option" where
  "find_first_from P pos xs = map_option (\<lambda>i. pos + i) (find_first P (drop pos xs))"

fun find_last :: "('a \<Rightarrow> bool) \<Rightarrow> 'a list \<Rightarrow> nat option" where
  "find_last P [] = None"
| "find_last P (x # xs) =
     (case find_last P xs of Some i \<Rightarrow> Some (Suc i) | None \<Rightarrow> if P x then Some 0 else None)"

text \<open>\<open>substr(pos, n)\<close>; every call in the sources has \<open>pos\<close> at most the length.\<close>

definition substr :: "'a list \<Rightarrow> nat \<Rightarrow> nat \<Rightarrow> 'a list" where
  "substr xs pos n = take n (drop pos xs)"

definition starts_with :: "'a list \<Rightarrow> 'a list \<Rightarrow> bool" where
  "starts_with xs p \<longleftrightarrow> take (length p) xs = p"

definition ends_with :: "'a list \<Rightarrow> 'a list \<Rightarrow> bool" where
  "ends_with xs p \<longleftrightarrow> length p \<le> length xs \<and> drop (length xs - length p) xs = p"

text \<open>\<open>s.find(pat) != npos\<close>\<close>

fun contains_sub :: "'a list \<Rightarrow> 'a list \<Rightarrow> bool" where
  "contains_sub [] pat = (pat = [])"
| "contains_sub (x # xs) pat = (starts_with (x # xs) pat \<or> contains_sub xs pat)"

lemma find_first_conv:
  "find_first P xs =
     (if \<exists>x\<in>set xs. P x then Some (length (takeWhile (\<lambda>x. \<not> P x) xs)) else None)"
  by (induction xs) auto

lemma find_first_None: "find_first P xs = None \<longleftrightarrow> (\<forall>x\<in>set xs. \<not> P x)"
  by (simp add: find_first_conv)

lemma find_first_SomeD:
  assumes "find_first P xs = Some i"
  shows "i < length xs" "P (xs ! i)" "\<And>j. j < i \<Longrightarrow> \<not> P (xs ! j)"
    "take i xs = takeWhile (\<lambda>x. \<not> P x) xs" "drop i xs = dropWhile (\<lambda>x. \<not> P x) xs"
proof -
  from assms have ex: "\<exists>x\<in>set xs. P x" and i: "i = length (takeWhile (\<lambda>x. \<not> P x) xs)"
    by (auto simp: find_first_conv split: if_splits)
  show "i < length xs"
    unfolding i using ex
    by (metis le_neq_implies_less length_takeWhile_le takeWhile_eq_all_conv takeWhile_eq_take
        take_all_iff order_refl)
  then show "P (xs ! i)"
    unfolding i using nth_length_takeWhile by blast
  show "\<And>j. j < i \<Longrightarrow> \<not> P (xs ! j)"
    unfolding i by (metis nth_mem set_takeWhileD takeWhile_nth)
  show "take i xs = takeWhile (\<lambda>x. \<not> P x) xs"
    unfolding i by (simp add: takeWhile_eq_take[symmetric])
  show "drop i xs = dropWhile (\<lambda>x. \<not> P x) xs"
    unfolding i by (simp add: dropWhile_eq_drop[symmetric])
qed

lemma find_last_None: "find_last P xs = None \<longleftrightarrow> (\<forall>x\<in>set xs. \<not> P x)"
  by (induction xs) (auto split: option.splits)

lemma find_last_SomeD:
  assumes "find_last P xs = Some i"
  shows "i < length xs" "P (xs ! i)" "\<And>x. x \<in> set (drop (Suc i) xs) \<Longrightarrow> \<not> P x"
proof -
  have "i < length xs \<and> P (xs ! i) \<and> (\<forall>x\<in>set (drop (Suc i) xs). \<not> P x)"
    using assms
  proof (induction xs arbitrary: i)
    case (Cons x xs)
    then show ?case
      by (cases "find_last P xs") (auto simp: find_last_None split: if_splits)
  qed simp
  then show "i < length xs" "P (xs ! i)" "\<And>x. x \<in> set (drop (Suc i) xs) \<Longrightarrow> \<not> P x"
    by auto
qed

lemma find_first_append_sep:
  "\<lbrakk>\<And>x. x \<in> set xs \<Longrightarrow> \<not> P x; P y\<rbrakk> \<Longrightarrow> find_first P (xs @ y # ys) = Some (length xs)"
  by (induction xs) auto

lemma find_last_append_sep:
  "\<lbrakk>\<And>x. x \<in> set ys \<Longrightarrow> \<not> P x; P y\<rbrakk> \<Longrightarrow> find_last P (xs @ y # ys) = Some (length xs)"
proof (induction xs)
  case Nil
  then have "find_last P ys = None" by (auto simp: find_last_None)
  with Nil show ?case by simp
qed simp

lemma contains_sub_iff: "contains_sub xs pat \<longleftrightarrow> (\<exists>us vs. xs = us @ pat @ vs)"
proof (induction xs)
  case (Cons x xs)
  have "starts_with (x # xs) pat \<longleftrightarrow> (\<exists>vs. x # xs = pat @ vs)"
    unfolding starts_with_def by (metis append_eq_conv_conj append_take_drop_id)
  with Cons.IH show ?case
    by (auto simp: Cons_eq_append_conv)
qed simp

lemma ends_with_iff: "ends_with xs p \<longleftrightarrow> (\<exists>ys. xs = ys @ p)"
  unfolding ends_with_def by (metis append_eq_conv_conj append_take_drop_id le_add2
      length_append length_drop diff_diff_cancel add_diff_cancel_right')

lemma starts_with_iff: "starts_with xs p \<longleftrightarrow> (\<exists>ys. xs = p @ ys)"
  unfolding starts_with_def by (metis append_eq_conv_conj append_take_drop_id)

section \<open>Splitting into tokens\<close>

lemma takeWhile_all: "(\<And>x. x \<in> set xs \<Longrightarrow> P x) \<Longrightarrow> takeWhile P xs = xs"
  by (induction xs) auto

lemma dropWhile_all: "(\<And>x. x \<in> set xs \<Longrightarrow> P x) \<Longrightarrow> dropWhile P xs = []"
  by (induction xs) auto

lemma takeWhile_until: "(\<And>x. x \<in> set xs \<Longrightarrow> P x) \<Longrightarrow> \<not> P y \<Longrightarrow> takeWhile P (xs @ y # ys) = xs"
  by (induction xs) auto

lemma dropWhile_until: "(\<And>x. x \<in> set xs \<Longrightarrow> P x) \<Longrightarrow> \<not> P y \<Longrightarrow> dropWhile P (xs @ y # ys) = y # ys"
  by (induction xs) auto

text \<open>The reference tokeniser: maximal runs of characters that are not separators.\<close>

function words :: "('a \<Rightarrow> bool) \<Rightarrow> 'a list \<Rightarrow> 'a list list" where
  "words sep [] = []"
| "words sep (c # cs) =
     (if sep c then words sep cs
      else (c # takeWhile (\<lambda>x. \<not> sep x) cs) # words sep (dropWhile (\<lambda>x. \<not> sep x) cs))"
  by pat_completeness auto
termination
  by (relation "measure (\<lambda>(sep, xs). length xs)") (auto simp: less_Suc_eq_le length_dropWhile_le)

fun join :: "'a \<Rightarrow> 'a list list \<Rightarrow> 'a list" where
  "join d [] = []"
| "join d [w] = w"
| "join d (w # v # ws) = w @ d # join d (v # ws)"

text \<open>\<open>std::getline(stream, line, d)\<close> called until it fails.\<close>

function getlines :: "'a \<Rightarrow> 'a list \<Rightarrow> 'a list list" where
  "getlines d [] = []"
| "getlines d (c # cs) =
     takeWhile (\<lambda>x. x \<noteq> d) (c # cs) #
     getlines d (drop (Suc (length (takeWhile (\<lambda>x. x \<noteq> d) (c # cs)))) (c # cs))"
  by pat_completeness auto
termination
  by (relation "measure (\<lambda>(d, xs). length xs)") auto

lemma getlines_append:
  "d \<notin> set l \<Longrightarrow> getlines d (l @ d # rest) = l # getlines d rest"
proof -
  assume d: "d \<notin> set l"
  then have "takeWhile (\<lambda>x. x \<noteq> d) (l @ d # rest) = l" by (intro takeWhile_until) auto
  moreover have "getlines d (l @ d # rest) = takeWhile (\<lambda>x. x \<noteq> d) (l @ d # rest) #
      getlines d (drop (Suc (length (takeWhile (\<lambda>x. x \<noteq> d) (l @ d # rest)))) (l @ d # rest))"
    by (cases "l @ d # rest") auto
  ultimately show ?thesis by simp
qed

lemma getlines_single: "d \<notin> set l \<Longrightarrow> l \<noteq> [] \<Longrightarrow> getlines d l = [l]"
proof -
  assume "d \<notin> set l" "l \<noteq> []"
  moreover from this have "takeWhile (\<lambda>x. x \<noteq> d) l = l" by (induction l) auto
  ultimately show ?thesis by (cases l) auto
qed

lemma join_Cons: "ws \<noteq> [] \<Longrightarrow> join d (w # ws) = w @ d # join d ws"
  by (cases ws) auto

lemma getlines_join:
  "\<lbrakk>\<And>l. l \<in> set ls \<Longrightarrow> d \<notin> set l; ls \<noteq> []; last ls \<noteq> []\<rbrakk> \<Longrightarrow> getlines d (join d ls) = ls"
proof (induction ls)
  case (Cons l ls)
  show ?case
  proof (cases "ls = []")
    case True
    with Cons.prems show ?thesis by (simp add: getlines_single)
  next
    case False
    with Cons show ?thesis by (simp add: join_Cons getlines_append)
  qed
qed simp

text \<open>
  What the clients of a token splitter rely on. The three laws determine the splitter:
  it is the reference tokeniser for its separators.
\<close>

locale tokeniser =
  fixes sep :: "'a \<Rightarrow> bool"
    and tok :: "'a list \<Rightarrow> 'a list list"
  assumes tok_Nil: "tok [] = []"
    and tok_sep: "sep d \<Longrightarrow> tok (xs @ d # ys) = tok xs @ tok ys"
    and tok_word: "\<lbrakk>w \<noteq> []; \<And>c. c \<in> set w \<Longrightarrow> \<not> sep c\<rbrakk> \<Longrightarrow> tok w = [w]"
begin

lemma tok_Cons_sep: "sep d \<Longrightarrow> tok (d # ys) = tok ys"
  using tok_sep [of d "[]" ys] by (simp add: tok_Nil)

lemma tok_eq_words: "tok xs = words sep xs"
proof (induction xs rule: length_induct)
  case (1 xs)
  show ?case
  proof (cases xs)
    case Nil
    then show ?thesis by (simp add: tok_Nil)
  next
    case (Cons c cs)
    define w where "w = c # takeWhile (\<lambda>x. \<not> sep x) cs"
    define r where "r = dropWhile (\<lambda>x. \<not> sep x) cs"
    have xs: "xs = w @ r" by (simp add: Cons w_def r_def)
    show ?thesis
    proof (cases "sep c")
      case True
      with 1 Cons show ?thesis by (simp add: tok_Cons_sep)
    next
      case False
      then have w: "tok w = [w]"
        by (intro tok_word) (auto simp: w_def dest: set_takeWhileD)
      have len: "length r < length xs"
        by (simp add: Cons r_def less_Suc_eq_le length_dropWhile_le)
      have "tok xs = w # tok r"
      proof (cases r)
        case Nil
        then show ?thesis by (simp add: xs w tok_Nil)
      next
        case (Cons d ds)
        then have "sep d" unfolding r_def by (metis hd_dropWhile list.distinct(1) list.sel(1))
        then show ?thesis by (simp add: xs Cons tok_sep w tok_Cons_sep)
      qed
      moreover have "words sep xs = w # words sep r"
        using False by (simp add: Cons w_def r_def)
      ultimately show ?thesis using 1 len by simp
    qed
  qed
qed

lemma tok_join:
  "\<lbrakk>sep d; \<And>w. w \<in> set ws \<Longrightarrow> w \<noteq> [] \<and> (\<forall>c\<in>set w. \<not> sep c)\<rbrakk> \<Longrightarrow> tok (join d ws) = ws"
proof (induction ws)
  case (Cons w ws)
  then have "tok w = [w]" by (intro tok_word) auto
  with Cons show ?case by (cases "ws = []") (auto simp: join_Cons tok_sep)
qed (simp add: tok_Nil)

lemma tok_concat: "concat (tok xs) = filter (\<lambda>c. \<not> sep c) xs"
proof -
  have "concat (words s xs) = filter (\<lambda>c. \<not> s c) xs" for s
  proof (induction s xs rule: words.induct)
    case (2 s c cs)
    have "takeWhile (\<lambda>x. \<not> s x) cs = filter (\<lambda>c. \<not> s c) (takeWhile (\<lambda>x. \<not> s x) cs)"
      by (metis (mono_tags, lifting) filter_True set_takeWhileD)
    then have "filter (\<lambda>c. \<not> s c) cs =
        takeWhile (\<lambda>x. \<not> s x) cs @ filter (\<lambda>c. \<not> s c) (dropWhile (\<lambda>x. \<not> s x) cs)"
      by (metis filter_append takeWhile_dropWhile_id)
    with 2 show ?case by simp
  qed simp
  then show ?thesis by (simp add: tok_eq_words)
qed

lemma tok_wf:
  assumes "w \<in> set (tok xs)"
  shows "w \<noteq> [] \<and> (\<forall>c\<in>set w. \<not> sep c)"
proof -
  have wf: "w \<in> set (words s xs) \<Longrightarrow> w \<noteq> [] \<and> (\<forall>c\<in>set w. \<not> s c)" for s
  proof (induction s xs rule: words.induct)
    case (2 s c cs)
    show ?case
    proof (cases "s c")
      case True
      with 2(3) have "w \<in> set (words s cs)" by simp
      with 2(1) True show ?thesis by blast
    next
      case False
      with 2(3) consider "w = c # takeWhile (\<lambda>x. \<not> s x) cs"
        | "w \<in> set (words s (dropWhile (\<lambda>x. \<not> s x) cs))" by auto
      then show ?thesis
      proof cases
        case 1
        with False show ?thesis by (auto dest!: set_takeWhileD)
      next
        case 2
        with \<open>\<not> s c\<close> "2.IH"(2) show ?thesis by blast
      qed
    qed
  qed simp
  from assms have "w \<in> set (words sep xs)" by (simp only: tok_eq_words)
  then show ?thesis by (rule wf)
qed

end

lemma words_sep:
  "sep d \<Longrightarrow> words sep (xs @ d # ys) = words sep xs @ words sep ys"
proof (induction sep xs rule: words.induct)
  case (2 sep c cs)
  show ?case
  proof (cases "\<forall>x\<in>set cs. \<not> sep x")
    case True
    with 2 show ?thesis
      by (simp add: takeWhile_until dropWhile_until takeWhile_all dropWhile_all)
  next
    case False
    then have "dropWhile (\<lambda>x. \<not> sep x) (cs @ d # ys) = dropWhile (\<lambda>x. \<not> sep x) cs @ d # ys"
      "takeWhile (\<lambda>x. \<not> sep x) (cs @ d # ys) = takeWhile (\<lambda>x. \<not> sep x) cs"
      by auto
    with 2 show ?thesis by simp
  qed
qed simp

interpretation words: tokeniser sep "words sep" for sep
proof unfold_locales
  show "words sep w = [w]" if "w \<noteq> []" "\<And>c. c \<in> set w \<Longrightarrow> \<not> sep c" for w
    using that by (cases w) (auto simp: takeWhile_all dropWhile_all)
qed (simp_all add: words_sep)

section \<open>Numbers as text\<close>

definition is_digit :: "char \<Rightarrow> bool" where
  "is_digit c \<longleftrightarrow> 48 \<le> (of_char c :: nat) \<and> (of_char c :: nat) \<le> 57"

definition digit_val :: "char \<Rightarrow> nat" where
  "digit_val c = of_char c - 48"

definition dec_val :: "string \<Rightarrow> nat" where
  "dec_val ds = foldl (\<lambda>n c. 10 * n + digit_val c) 0 ds"

text \<open>\<open>std::to_string\<close> on non-negative and on all integers.\<close>

fun show_nat :: "nat \<Rightarrow> string" where
  "show_nat n = (if n < 10 then [char_of (48 + n)] else show_nat (n div 10) @ [char_of (48 + n mod 10)])"

declare show_nat.simps [simp del]

definition show_int :: "int \<Rightarrow> string" where
  "show_int i = (if i < 0 then CHR ''-'' # show_nat (nat (- i)) else show_nat (nat i))"

text \<open>
  \<open>std::from_chars(first, last, v)\<close> for \<open>int\<close>: an optional minus sign and the longest run
  of digits; \<open>v\<close> keeps its value when there is no digit or the number does not fit.
\<close>

definition from_chars_int :: "string \<Rightarrow> int \<Rightarrow> int" where
  "from_chars_int s v =
     (let neg = (s \<noteq> [] \<and> hd s = CHR ''-'');
          ds = takeWhile is_digit (if neg then tl s else s);
          m = (if neg then - int (dec_val ds) else int (dec_val ds))
      in if ds = [] then v
         else if - (2 ^ 31) \<le> m \<and> m < 2 ^ 31 then m else v)"

text \<open>\<open>std::from_chars\<close> for \<open>uint32_t\<close>: no sign is accepted.\<close>

definition from_chars_u32 :: "string \<Rightarrow> 32 word \<Rightarrow> 32 word" where
  "from_chars_u32 s v =
     (let ds = takeWhile is_digit s
      in if ds = [] then v else if dec_val ds < 2 ^ 32 then of_nat (dec_val ds) else v)"

text \<open>
  \<open>std::stoul\<close>: leading white space, an optional sign, digits; it throws
  \<open>invalid_argument\<close> without digits and \<open>out_of_range\<close> above \<open>ULONG_MAX\<close>. A minus sign
  negates the value modulo \<open>2^64\<close>, as \<open>strtoul\<close> does.
\<close>

datatype cxx_exception = InvalidArgument | OutOfRange

definition is_space :: "char \<Rightarrow> bool" where
  "is_space c \<longleftrightarrow> (of_char c :: nat) \<in> {9, 10, 11, 12, 13, 32}"

definition stoul :: "string \<Rightarrow> cxx_exception + 64 word" where
  "stoul s =
     (let s1 = dropWhile is_space s;
          neg = (s1 \<noteq> [] \<and> hd s1 = CHR ''-'');
          sgn = (neg \<or> (s1 \<noteq> [] \<and> hd s1 = CHR ''+''));
          ds = takeWhile is_digit (if sgn then tl s1 else s1)
      in if ds = [] then Inl InvalidArgument
         else if 2 ^ 64 \<le> int (dec_val ds) then Inl OutOfRange
         else Inr (if neg then - of_nat (dec_val ds) else of_nat (dec_val ds)))"

lemma digit_char [simp]:
  assumes "n < 10"
  shows "is_digit (char_of (48 + n))" "digit_val (char_of (48 + n)) = n"
  using assms by (simp_all add: is_digit_def digit_val_def of_char_of)

lemma dec_val_snoc: "dec_val (ds @ [c]) = 10 * dec_val ds + digit_val c"
  by (simp add: dec_val_def)

lemma show_nat_digits: "\<forall>c\<in>set (show_nat n). is_digit c"
proof (induction n rule: show_nat.induct)
  case (1 n)
  show ?case
  proof (cases "n < 10")
    case True
    then show ?thesis by (subst show_nat.simps) simp
  next
    case False
    with 1 show ?thesis by (subst show_nat.simps) auto
  qed
qed

lemma show_nat_not_Nil [simp]: "show_nat n \<noteq> []"
  by (subst show_nat.simps) simp

lemma dec_val_show_nat: "dec_val (show_nat n) = n"
proof (induction n rule: show_nat.induct)
  case (1 n)
  show ?case
  proof (cases "n < 10")
    case True
    then show ?thesis by (subst show_nat.simps) (simp add: dec_val_def)
  next
    case False
    with 1 show ?thesis by (subst show_nat.simps) (simp add: dec_val_snoc)
  qed
qed

lemma takeWhile_show_nat:
  "(rest = [] \<or> \<not> is_digit (hd rest)) \<Longrightarrow> takeWhile is_digit (show_nat n @ rest) = show_nat n"
  using show_nat_digits [of n] by (cases rest) (auto simp: takeWhile_append takeWhile_eq_all_conv)

lemma from_chars_show:
  assumes "int n < 2 ^ 31" and "rest = [] \<or> \<not> is_digit (hd rest)"
  shows "from_chars_int (show_nat n @ rest) v = int n"
proof -
  have "hd (show_nat n @ rest) \<noteq> CHR ''-''"
    using show_nat_digits [of n] by (cases "show_nat n") (auto simp: is_digit_def)
  with assms show ?thesis
    by (simp add: from_chars_int_def takeWhile_show_nat dec_val_show_nat)
qed

lemma from_chars_int_range:
  "- (2 ^ 31) \<le> v \<Longrightarrow> v < 2 ^ 31 \<Longrightarrow>
   - (2 ^ 31) \<le> from_chars_int s v \<and> from_chars_int s v < 2 ^ 31"
  by (auto simp: from_chars_int_def Let_def)

section \<open>Formatting\<close>

text \<open>\<open>std::format\<close> with plain \<open>{}\<close> fields, the only ones the sources use.\<close>

fun format :: "string \<Rightarrow> string list \<Rightarrow> string" where
  "format [] as = []"
| "format (c # cs) as =
     (if c = CHR ''{'' \<and> cs \<noteq> [] \<and> hd cs = CHR ''}'' \<and> as \<noteq> []
      then hd as @ format (tl cs) (tl as) else c # format cs as)"

section \<open>Hash maps\<close>

definition um_get :: "('k, 'v) umap \<Rightarrow> 'k \<Rightarrow> 'v option" where
  "um_get m k = map_of m k"

definition um_put :: "'k \<Rightarrow> 'v \<Rightarrow> ('k, 'v) umap \<Rightarrow> ('k, 'v) umap" where
  "um_put k v m = AList.update k v m"

definition um_erase :: "'k \<Rightarrow> ('k, 'v) umap \<Rightarrow> ('k, 'v) umap" where
  "um_erase k m = AList.delete k m"

definition um_keys :: "('k, 'v) umap \<Rightarrow> 'k list" where
  "um_keys m = map fst m"

definition um_wf :: "('k, 'v) umap \<Rightarrow> bool" where
  "um_wf m \<longleftrightarrow> distinct (um_keys m)"

text \<open>\<open>m[k]\<close> on a map whose values are default-constructed when the key is absent.\<close>

definition um_at :: "'v \<Rightarrow> ('k, 'v) umap \<Rightarrow> 'k \<Rightarrow> 'v" where
  "um_at dflt m k = (case um_get m k of Some v \<Rightarrow> v | None \<Rightarrow> dflt)"

locale hash_table =
  fixes get :: "'m \<Rightarrow> 'k \<Rightarrow> 'v option"
    and put :: "'k \<Rightarrow> 'v \<Rightarrow> 'm \<Rightarrow> 'm"
    and erase :: "'k \<Rightarrow> 'm \<Rightarrow> 'm"
    and keys :: "'m \<Rightarrow> 'k list"
    and wf :: "'m \<Rightarrow> bool"
  assumes get_put: "get (put k v m) k' = (if k' = k then Some v else get m k')"
    and get_erase: "get (erase k m) k' = (if k' = k then None else get m k')"
    and wf_put: "wf m \<Longrightarrow> wf (put k v m)"
    and wf_erase: "wf m \<Longrightarrow> wf (erase k m)"
    and keys_get: "k \<in> set (keys m) \<longleftrightarrow> get m k \<noteq> None"
    and wf_keys: "wf m \<Longrightarrow> distinct (keys m)"
begin

lemma keys_put: "set (keys (put k v m)) = insert k (set (keys m))"
  by (auto simp: get_put keys_get split: if_splits)

lemma keys_erase: "set (keys (erase k m)) = set (keys m) - {k}"
  by (auto simp: get_erase keys_get split: if_splits)

lemma put_all_keys:
  "set (keys (foldl (\<lambda>m k. put k (f k) m) m0 ks)) = set (keys m0) \<union> set ks"
  by (induction ks arbitrary: m0) (auto simp: keys_put)

lemma card_keys: "wf m \<Longrightarrow> card (set (keys m)) = length (keys m)"
  by (simp add: distinct_card wf_keys)

end

interpretation um: hash_table um_get um_put um_erase um_keys um_wf
proof unfold_locales
  show "um_get (um_put k v m) k' = (if k' = k then Some v else um_get m k')"
    for k k' :: 'a and v :: 'b and m
    by (simp add: um_get_def um_put_def update_conv')
  show "um_get (um_erase k m) k' = (if k' = k then None else um_get m k')"
    for k k' :: 'a and m :: "('a, 'b) umap"
    by (simp add: um_get_def um_erase_def delete_conv')
  show "um_wf m \<Longrightarrow> um_wf (um_put k v m)" for k :: 'a and v :: 'b and m
    by (simp add: um_wf_def um_put_def um_keys_def distinct_update)
  show "um_wf m \<Longrightarrow> um_wf (um_erase k m)" for k :: 'a and m :: "('a, 'b) umap"
    by (simp add: um_wf_def um_erase_def um_keys_def distinct_delete)
  show "(k \<in> set (um_keys m)) = (um_get m k \<noteq> None)" for k :: 'a and m :: "('a, 'b) umap"
    by (simp add: um_keys_def um_get_def map_of_eq_None_iff)
  show "um_wf m \<Longrightarrow> distinct (um_keys m)" for m :: "('a, 'b) umap"
    by (simp add: um_wf_def)
qed

lemmas um_simps [simp] = um.get_put um.get_erase um.keys_put um.keys_erase

lemma um_get_Nil [simp]: "um_get [] k = None"
  by (simp add: um_get_def)

lemma um_wf_Nil [simp]: "um_wf []"
  by (simp add: um_wf_def um_keys_def)

lemma um_get_in: "um_wf m \<Longrightarrow> (k, v) \<in> set m \<longleftrightarrow> um_get m k = Some v"
  by (auto simp: um_wf_def um_keys_def um_get_def)

lemma um_get_mem: "um_get m k = Some v \<Longrightarrow> (k, v) \<in> set m"
  by (auto simp: um_get_def dest: map_of_SomeD)

declare um.wf_put [intro, simp] um.wf_erase [intro, simp]

text \<open>Counting the entries of a table.\<close>

lemma um_count_put:
  "um_get m k = None \<Longrightarrow> length (filter P (um_put k v m)) = length (filter P m) + (if P (k, v) then 1 else 0)"
  by (induction m) (auto simp: um_get_def um_put_def split: if_splits)

lemma um_count_erase:
  "um_wf m \<Longrightarrow> um_get m k = Some v \<Longrightarrow>
   length (filter P m) = length (filter P (um_erase k m)) + (if P (k, v) then 1 else 0)"
proof (induction m)
  case (Cons kv m)
  show ?case
  proof (cases "fst kv = k")
    case True
    then have "um_erase k m = m"
      using Cons.prems(1) by (auto simp: um_wf_def um_keys_def um_erase_def delete_idem)
    with True Cons.prems show ?thesis by (cases kv) (auto simp: um_get_def um_erase_def)
  next
    case False
    with Cons show ?thesis by (cases kv) (auto simp: um_get_def um_erase_def um_wf_def um_keys_def)
  qed
qed simp

text \<open>A loop whose body keeps an observation of the state keeps it.\<close>

lemma fold_keeps: "(\<And>x s. g (f x s) = g s) \<Longrightarrow> g (fold f xs s) = g s"
  by (induction xs arbitrary: s) simp_all

lemma fold_inv: "\<lbrakk>\<And>x s. x \<in> set xs \<Longrightarrow> P s \<Longrightarrow> P (f x s); P s\<rbrakk> \<Longrightarrow> P (fold f xs s)"
  by (induction xs arbitrary: s) simp_all

section \<open>Contracts between the state before and after\<close>

text \<open>
  A relation that an operation keeps between the state before and the state after it. What is
  reflexive and transitive carries over to loops and repetitions.
\<close>

locale op_contract =
  fixes R :: "'s \<Rightarrow> 's \<Rightarrow> bool"
  assumes keeps_refl: "R s s"
    and keeps_trans: "R s t \<Longrightarrow> R t u \<Longrightarrow> R s u"
begin

lemma keeps_fold: "(\<And>x t. x \<in> set xs \<Longrightarrow> R t (f x t)) \<Longrightarrow> R s (fold f xs s)"
  by (rule fold_inv [where P = "R s"]) (auto intro: keeps_refl keeps_trans)

lemma keeps_then: "R s t \<Longrightarrow> (\<And>t. R t (f t)) \<Longrightarrow> R s (f t)"
  by (blast intro: keeps_trans)

lemma keeps_rtrancl: "step\<^sup>*\<^sup>* s t \<Longrightarrow> (\<And>t u. step t u \<Longrightarrow> R t u) \<Longrightarrow> R s t"
  by (induction rule: rtranclp_induct) (auto intro: keeps_refl keeps_trans)

end

end
