(* ===== verification/Kernel.thy ===== *)
theory Kernel
  imports Prelude
begin

text \<open>
  The boundary to the operating system. The kernel is not part of the sources, so it is a
  parameter: a record of functions that give the answer to each request. An answer may depend
  on how many requests were made before (\<open>ticks\<close>), so every behaviour of a kernel along one
  run is an instance. A negative answer \<open>-e\<close> of a call stands for the C convention
  "returns \<open>-1\<close> with \<open>errno = e\<close>".

  Requests that change the outside world are recorded in \<open>trace\<close>, in order. Read-only
  requests (\<open>stat\<close>, \<open>access\<close>, file contents, host name, environment) are answered from a
  snapshot \<open>osview\<close>; one helper call of the sources sees one snapshot.
\<close>

type_synonym pid = int
type_synonym fd = int
type_synonym uid = "32 word"

datatype syscall =
    Mkdir string nat
  | Symlink string string
  | Chmod string nat
  | Chown string uid uid
  | Unlink string
  | Mkfifo string nat
  | Open_rdwr string
  | Mq_open string nat
  | Mount string string "string option" "64 word" "string option"
  | Umount2_detach string
  | Fork
  | Kill pid int
  | Waitpid pid
  | Sigprocmask_block_all
  | Signalfd "int list"
  | Epoll_create
  | Epoll_add fd fd
  | Close fd
  | Socket_create nat nat int
  | Bind_unix fd string bool int
  | Bind_inet6 fd "16 word" string
  | Bind_inet4 fd "16 word" string
  | Bind_netlink fd "32 word"
  | Listen fd int
  | Setsockopt fd string int
  | Accept4 fd
  | Fcntl_getfd fd
  | Fcntl_setfd fd "32 word"
  | Fcntl_getfl fd
  | Fcntl_setfl fd "32 word"
    \<comment> \<open>requests made only by a forked child\<close>
  | Sigmask_clear
  | Setsid
  | Dup2 fd fd
  | Getpid
  | Putenv string
  | Setenv string string bool
  | Setgid uid
  | Initgroups string uid
  | Setuid uid
  | Chdir string
  | Execvp string "string list"
  | Exit int

text \<open>Answers of \<open>stat\<close> and \<open>lstat\<close>: device, file kind and size.\<close>

datatype file_kind = Regular | Directory | SymbolicLink | OtherFile

record file_stat =
  st_dev :: nat
  st_kind :: file_kind
  st_size :: int

datatype access_mode = F_OK | W_OK | X_OK

record osview =
  os_file :: "string \<Rightarrow> string option"
  os_access :: "string \<Rightarrow> access_mode \<Rightarrow> bool"
  os_stat :: "string \<Rightarrow> file_stat option"
  os_lstat :: "string \<Rightarrow> file_stat option"
  os_dir :: "string \<Rightarrow> string list option"
  os_readlink :: "string \<Rightarrow> string option"
  os_canonical :: "string \<Rightarrow> string option" \<comment> \<open>\<open>weakly_canonical\<close>\<close>
  os_fnmatch :: "string \<Rightarrow> string \<Rightarrow> bool"
  os_env :: "string \<Rightarrow> string option"
  os_hostname :: "string option"
  os_uname :: "(string \<times> string) option" \<comment> \<open>release and machine\<close>
  os_login :: "string option"
  os_uid :: uid
  os_gid :: uid

record kernel =
  k_ret :: "nat \<Rightarrow> syscall \<Rightarrow> int"
  k_view :: "nat \<Rightarrow> osview"
  k_wall :: "nat \<Rightarrow> int" \<comment> \<open>\<open>system_clock\<close>, in nanoseconds\<close>
  k_mono :: "nat \<Rightarrow> int" \<comment> \<open>\<open>steady_clock\<close>, in nanoseconds\<close>
  k_reap :: "nat \<Rightarrow> (pid \<times> nat) list"
    \<comment> \<open>what the \<open>waitpid(-1, &status, WNOHANG)\<close> calls of one loop report before the first
        answer that is not positive\<close>
  k_wstatus :: "nat \<Rightarrow> nat" \<comment> \<open>the status \<open>waitpid(pid, &status, 0)\<close> stores\<close>
  k_signals :: "nat \<Rightarrow> int list" \<comment> \<open>the signals one loop over the signalfd reads\<close>
  k_epoll :: "nat \<Rightarrow> int \<times> fd list" \<comment> \<open>\<open>epoll_wait\<close>: its answer and the ready descriptors\<close>
  k_getch :: "nat \<Rightarrow> int" \<comment> \<open>\<open>getch()\<close> of the terminal library; \<open>-1\<close> is \<open>ERR\<close>\<close>
  k_winsize :: "nat \<Rightarrow> int \<times> int" \<comment> \<open>\<open>getmaxyx\<close>: rows and columns of the screen\<close>
  k_newwin :: "nat \<Rightarrow> bool" \<comment> \<open>whether \<open>newwin\<close> has room for the window\<close>
  k_strerror :: "int \<Rightarrow> string"
  k_errno :: "nat \<Rightarrow> int" \<comment> \<open>what \<open>errno\<close> holds, where its value is stale or overwritten\<close>
  k_fds :: "nat \<Rightarrow> fd \<Rightarrow> nat option"
    \<comment> \<open>the descriptor table a forked child inherits: which open file each descriptor refers to\<close>

text \<open>The macros of \<open>sys/wait.h\<close> on a status word.\<close>

definition WTERMSIG :: "nat \<Rightarrow> nat" where
  "WTERMSIG st = st mod 128"

definition WIFEXITED :: "nat \<Rightarrow> bool" where
  "WIFEXITED st \<longleftrightarrow> WTERMSIG st = 0"

definition WEXITSTATUS :: "nat \<Rightarrow> nat" where
  "WEXITSTATUS st = st div 256 mod 256"

definition WIFSIGNALED :: "nat \<Rightarrow> bool" where
  "WIFSIGNALED st \<longleftrightarrow> 0 < WTERMSIG st \<and> WTERMSIG st < 127"

text \<open>The base of the state: how many requests were made, and the recorded ones.\<close>

record kst =
  ticks :: nat
  trace :: "syscall list"

definition sys :: "kernel \<Rightarrow> syscall \<Rightarrow> 'a kst_scheme \<Rightarrow> int \<times> 'a kst_scheme" where
  "sys K c s = (k_ret K (ticks s) c, s\<lparr>ticks := Suc (ticks s), trace := trace s @ [c]\<rparr>)"

text \<open>A call whose answer the source ignores.\<close>

definition sys_do :: "kernel \<Rightarrow> syscall \<Rightarrow> 'a kst_scheme \<Rightarrow> 'a kst_scheme" where
  "sys_do K c s = snd (sys K c s)"

text \<open>A read-only request (a clock, a wait loop, a snapshot) only counts.\<close>

definition tick :: "'a kst_scheme \<Rightarrow> 'a kst_scheme" where
  "tick s = s\<lparr>ticks := Suc (ticks s)\<rparr>"

definition view :: "kernel \<Rightarrow> 'a kst_scheme \<Rightarrow> osview" where
  "view K s = k_view K (ticks s)"

lemma sys_simps [simp]:
  "fst (sys K c s) = k_ret K (ticks s) c"
  "trace (snd (sys K c s)) = trace s @ [c]"
  "ticks (snd (sys K c s)) = Suc (ticks s)"
  "trace (sys_do K c s) = trace s @ [c]"
  "ticks (sys_do K c s) = Suc (ticks s)"
  "trace (tick s) = trace s"
  "ticks (tick s) = Suc (ticks s)"
  by (simp_all add: sys_def sys_do_def tick_def)

text \<open>The errors and signals the sources name (Linux values).\<close>

definition EBUSY :: int where "EBUSY = 16"
definition EEXIST :: int where "EEXIST = 17"
definition EINTR :: int where "EINTR = 4"
definition SIGINT :: int where "SIGINT = 2"
definition SIGKILL :: int where "SIGKILL = 9"
definition SIGUSR1 :: int where "SIGUSR1 = 10"
definition SIGTERM :: int where "SIGTERM = 15"
definition SIGCHLD :: int where "SIGCHLD = 17"

text \<open>\<open>strerror(errno)\<close> after a call that answered \<open>r\<close>.\<close>

definition strerror :: "kernel \<Rightarrow> int \<Rightarrow> string" where
  "strerror K r = k_strerror K (- r)"

text \<open>\<open>strerror(errno)\<close> where other calls came in between.\<close>

definition strerror_now :: "kernel \<Rightarrow> 'a kst_scheme \<Rightarrow> string" where
  "strerror_now K s = k_strerror K (k_errno K (ticks s))"

end
