(* ===== verification/Journal.thy ===== *)
theory Journal
  imports Kernel
begin

text \<open>
  \<open>JournalMixin\<close> (\<open>src/include/trivialInit/mixins/journal.hpp\<close>): levelled, append-only log.
  Its state is the first layer of the composed state; every other mixin logs through it.
  The mutex is not modelled: the program has one thread.
\<close>

datatype log_level = Debug | Info | Notice | Warning | Error | Crit

primrec level_num :: "log_level \<Rightarrow> nat" where
  "level_num Debug = 0"
| "level_num Info = 1"
| "level_num Notice = 2"
| "level_num Warning = 3"
| "level_num Error = 4"
| "level_num Crit = 5"

lemma level_num_inj [simp]: "level_num a = level_num b \<longleftrightarrow> a = b"
  by (cases a; cases b) simp_all

instantiation log_level :: linorder
begin

definition less_eq_log_level :: "log_level \<Rightarrow> log_level \<Rightarrow> bool" where
  "less_eq_log_level a b \<longleftrightarrow> level_num a \<le> level_num b"

definition less_log_level :: "log_level \<Rightarrow> log_level \<Rightarrow> bool" where
  "less_log_level a b \<longleftrightarrow> level_num a < level_num b"

instance
  by standard (auto simp: less_eq_log_level_def less_log_level_def)

end

record journal_entry =
  je_timestamp :: int
  je_level :: log_level
  je_source :: string
  je_message :: string

record journal_st = kst +
  journal_entries :: "journal_entry list"
  min_level :: log_level
  console :: "string list" \<comment> \<open>lines written to \<open>stderr\<close>\<close>

primrec lvl_str :: "log_level \<Rightarrow> string" where
  "lvl_str Debug = ''DBG''"
| "lvl_str Info = ''INF''"
| "lvl_str Notice = ''NTC''"
| "lvl_str Warning = ''WRN''"
| "lvl_str Error = ''ERR''"
| "lvl_str Crit = ''CRT''"

text \<open>\<open>%.*s\<close> prints up to the given length, or to a NUL character if one comes first.\<close>

definition c_str :: "string \<Rightarrow> string" where
  "c_str s = takeWhile (\<lambda>c. c \<noteq> CHR 0x00) s"

definition log :: "kernel \<Rightarrow> log_level \<Rightarrow> string \<Rightarrow> string \<Rightarrow> 'a journal_st_scheme \<Rightarrow> 'a journal_st_scheme" where
  "log K lvl src msg s =
     (if lvl < min_level s then s
      else s\<lparr>ticks := Suc (ticks s),
             journal_entries := journal_entries s @
               [\<lparr>je_timestamp = k_wall K (ticks s), je_level = lvl,
                 je_source = src, je_message = msg\<rparr>],
             console := console s @
               [''['' @ lvl_str lvl @ ''] '' @ c_str src @ '': '' @ c_str msg @ [CHR 0x0A]]\<rparr>)"

definition log_fmt :: "kernel \<Rightarrow> log_level \<Rightarrow> string \<Rightarrow> string \<Rightarrow> string list \<Rightarrow>
    'a journal_st_scheme \<Rightarrow> 'a journal_st_scheme" where
  "log_fmt K lvl src fmt args s = log K lvl src (format fmt args) s"

definition entries :: "'a journal_st_scheme \<Rightarrow> journal_entry list" where
  "entries s = journal_entries s"

lemma log_trace [simp]:
  "trace (log K l src m s) = trace s" "trace (log_fmt K l src f as s) = trace s"
  "min_level (log K l src m s) = min_level s" "min_level (log_fmt K l src f as s) = min_level s"
  by (simp_all add: log_def log_fmt_def)

text \<open>
  The contract every operation of the program keeps towards the journal: entries are only
  appended, the threshold is never changed, and nothing below it is recorded.
\<close>

definition journal_ext :: "'a journal_st_scheme \<Rightarrow> 'b journal_st_scheme \<Rightarrow> bool" where
  "journal_ext s t \<longleftrightarrow>
     min_level t = min_level s \<and>
     take (length (journal_entries s)) (journal_entries t) = journal_entries s \<and>
     list_all (\<lambda>e. min_level s \<le> je_level e) (drop (length (journal_entries s)) (journal_entries t))"

lemma journal_ext_iff:
  "journal_ext s t \<longleftrightarrow>
     min_level t = min_level s \<and>
     (\<exists>es. journal_entries t = journal_entries s @ es \<and> (\<forall>e\<in>set es. min_level s \<le> je_level e))"
  unfolding journal_ext_def list_all_iff
  by (metis append_eq_conv_conj append_take_drop_id)

lemma journal_ext_refl [simp, intro]: "journal_ext s s"
  by (simp add: journal_ext_def)

lemma journal_ext_trans [trans]: "journal_ext s t \<Longrightarrow> journal_ext t u \<Longrightarrow> journal_ext s u"
  by (auto simp: journal_ext_iff)

lemma journal_ext_cong:
  "\<lbrakk>journal_entries t' = journal_entries t; min_level t' = min_level t\<rbrakk> \<Longrightarrow>
   journal_ext s t' \<longleftrightarrow> journal_ext s t"
  by (simp add: journal_ext_def)

text \<open>An operation on the composed state that keeps the contract.\<close>

locale journalled =
  fixes oper :: "'a journal_st_scheme \<Rightarrow> 'a journal_st_scheme"
  assumes ext: "journal_ext s (oper s)"
begin

lemma run_ext: "journal_ext s ((oper ^^ n) s)"
  by (induction n) (auto intro: journal_ext_trans ext)

lemma keeps_entry: "e \<in> set (journal_entries s) \<Longrightarrow> e \<in> set (journal_entries (oper s))"
  using ext [of s] by (auto simp: journal_ext_iff)

lemma keeps_threshold:
  "\<forall>e\<in>set (journal_entries s). min_level s \<le> je_level e \<Longrightarrow>
   \<forall>e\<in>set (journal_entries (oper s)). min_level (oper s) \<le> je_level e"
  using ext [of s] by (auto simp: journal_ext_iff)

end

interpretation log: journalled "log K l src m" for K l src m
  by unfold_locales (auto simp: journal_ext_iff log_def)

interpretation log_fmt: journalled "log_fmt K l src f as" for K l src f as
  by unfold_locales (simp add: log_fmt_def log.ext)

lemmas log_ext [simp, intro] = log.ext log_fmt.ext

lemma log_ext_step:
  "journal_ext s t \<Longrightarrow> journal_ext s (log K l src m t)"
  "journal_ext s t \<Longrightarrow> journal_ext s (log_fmt K l src f as t)"
  by (blast intro: journal_ext_trans log_ext)+

lemma log_entries:
  "journal_entries (log K l src m s) =
     journal_entries s @
     (if l < min_level s then []
      else [\<lparr>je_timestamp = k_wall K (ticks s), je_level = l, je_source = src, je_message = m\<rparr>])"
  by (simp add: log_def)

end
