(* ===== verification/Unit_File.thy ===== *)
theory Unit_File
  imports Prelude
begin

text \<open>
  \<open>src/include/trivialInit/systemd/unit_file.hpp\<close>: the data of a parsed unit. A string list
  is a \<open>std::vector<std::string>\<close>, an association list a \<open>std::unordered_map\<close>.
\<close>

datatype unit_type = UT_Service | UT_Target | UT_Mount | UT_Socket | UT_Unknown

definition unit_type_from_suffix :: "string \<Rightarrow> unit_type" where
  "unit_type_from_suffix path =
     (if ends_with path ''.service'' then UT_Service
      else if ends_with path ''.target'' then UT_Target
      else if ends_with path ''.mount'' then UT_Mount
      else if ends_with path ''.socket'' then UT_Socket
      else UT_Unknown)"

record condition_entry =
  ce_type :: string
  ce_value :: string
  ce_negate :: bool
  ce_is_assert :: bool

type_synonym section_map = "(string, string) umap"

record unit_file =
  uf_name :: string
  uf_path :: string
  uf_type :: unit_type
  uf_description :: string
  uf_wants :: "string list"
  uf_requires :: "string list"
  uf_after :: "string list"
  uf_before :: "string list"
  uf_conflicts :: "string list"
  uf_part_of :: "string list"
  uf_binds_to :: "string list"
  uf_conditions :: "condition_entry list"
  uf_assertions :: "condition_entry list"
  uf_exec_start :: string
  uf_exec_stop :: string
  uf_exec_reload :: string
  uf_exec_start_pre :: "string list"
  uf_exec_start_post :: "string list"
  uf_type_str :: string
  uf_restart_policy :: string
  uf_user :: string
  uf_group :: string
  uf_working_directory :: string
  uf_runtime_directory :: string
  uf_pid_file :: string
  uf_environment :: "(string, string) umap"
  uf_dynamic_user :: bool
  uf_restart_limit_burst :: int
  uf_restart_limit_interval :: int
  uf_wanted_by :: "string list"
  uf_required_by :: "string list"
  uf_alias :: string
  uf_what :: string
  uf_where :: string
  uf_mount_type :: string
  uf_options :: string
  uf_lazy_unmount :: bool
  uf_raw_sections :: "(string, section_map) umap"

text \<open>The state of a default-constructed \<open>UnitFile\<close>.\<close>

definition unit_file_init :: unit_file where
  "unit_file_init = \<lparr>
     uf_name = [], uf_path = [], uf_type = UT_Unknown, uf_description = [],
     uf_wants = [], uf_requires = [], uf_after = [], uf_before = [], uf_conflicts = [],
     uf_part_of = [], uf_binds_to = [], uf_conditions = [], uf_assertions = [],
     uf_exec_start = [], uf_exec_stop = [], uf_exec_reload = [], uf_exec_start_pre = [],
     uf_exec_start_post = [], uf_type_str = [], uf_restart_policy = [], uf_user = [],
     uf_group = [], uf_working_directory = [], uf_runtime_directory = [], uf_pid_file = [],
     uf_environment = [], uf_dynamic_user = False, uf_restart_limit_burst = 5,
     uf_restart_limit_interval = 10, uf_wanted_by = [], uf_required_by = [], uf_alias = [],
     uf_what = [], uf_where = [], uf_mount_type = [], uf_options = [],
     uf_lazy_unmount = False, uf_raw_sections = []\<rparr>"

definition is_enabled :: "unit_file \<Rightarrow> bool" where
  "is_enabled u \<longleftrightarrow> uf_wanted_by u \<noteq> [] \<or> uf_required_by u \<noteq> []"

text \<open>\<open>name.find('@')\<close> and \<open>name.rfind('.')\<close>, shared by several members.\<close>

definition at_pos :: "string \<Rightarrow> nat option" where
  "at_pos nm = find_first (\<lambda>c. c = CHR ''@'') nm"

definition dot_pos :: "string \<Rightarrow> nat option" where
  "dot_pos nm = find_last (\<lambda>c. c = CHR ''.'') nm"

definition is_bare_template :: "unit_file \<Rightarrow> bool" where
  "is_bare_template u =
     (case (at_pos (uf_name u), dot_pos (uf_name u)) of
        (Some at, Some dot) \<Rightarrow> at + 1 = dot
      | _ \<Rightarrow> False)"

lemma at_pos_template:
  "CHR ''@'' \<notin> set p \<Longrightarrow> at_pos (p @ CHR ''@'' # r) = Some (length p)"
  unfolding at_pos_def by (rule find_first_append_sep) auto

lemma dot_pos_suffix:
  "CHR ''.'' \<notin> set t \<Longrightarrow> dot_pos (r @ CHR ''.'' # t) = Some (length r)"
  unfolding dot_pos_def by (rule find_last_append_sep) auto

lemma is_bare_template_iff:
  "is_bare_template u \<longleftrightarrow>
     (\<exists>p t. uf_name u = p @ ''@.'' @ t \<and> CHR ''@'' \<notin> set p \<and> CHR ''.'' \<notin> set t)"
proof
  assume "is_bare_template u"
  then obtain a where a: "at_pos (uf_name u) = Some a" and d: "dot_pos (uf_name u) = Some (a + 1)"
    by (auto simp: is_bare_template_def split: option.splits)
  note af = find_first_SomeD [OF a [unfolded at_pos_def]]
  note df = find_last_SomeD [OF d [unfolded dot_pos_def]]
  let ?p = "take a (uf_name u)" and ?t = "drop (a + 2) (uf_name u)"
  have "uf_name u = ?p @ uf_name u ! a # uf_name u ! (a + 1) # ?t"
    using af(1) df(1) by (simp add: Cons_nth_drop_Suc id_take_nth_drop)
  moreover have "CHR ''@'' \<notin> set ?p" using af(3) by (auto simp: in_set_conv_nth)
  moreover have "CHR ''.'' \<notin> set ?t" using df(3) by auto
  ultimately show "\<exists>p t. uf_name u = p @ ''@.'' @ t \<and> CHR ''@'' \<notin> set p \<and> CHR ''.'' \<notin> set t"
    using af(2) df(2) by (metis append_Cons append_Nil)
next
  assume "\<exists>p t. uf_name u = p @ ''@.'' @ t \<and> CHR ''@'' \<notin> set p \<and> CHR ''.'' \<notin> set t"
  then obtain p t where n: "uf_name u = p @ ''@.'' @ t" "CHR ''@'' \<notin> set p" "CHR ''.'' \<notin> set t"
    by blast
  have "at_pos (uf_name u) = Some (length p)" using n by (simp add: at_pos_template)
  moreover have "dot_pos (uf_name u) = Some (length (p @ ''@''))"
    using n dot_pos_suffix [of t "p @ ''@''"] by simp
  ultimately show "is_bare_template u" by (simp add: is_bare_template_def)
qed

end
