(* ===== verification/Socket_Unit.thy ===== *)
theory Socket_Unit
  imports Unit_File
begin

text \<open>\<open>src/include/trivialInit/systemd/socket_unit.hpp\<close>: the data of a socket unit.\<close>

datatype listen_type =
    LT_Stream | LT_Datagram | LT_SequentialPacket | LT_FIFO | LT_Special | LT_Netlink
  | LT_MessageQueue

record listen_entry =
  le_type :: listen_type
  le_address :: string
  le_fd :: int
  le_name :: string

datatype bind_ipv6_only = BI_Default | BI_Both | BI_Ipv6Only

record socket_unit =
  su_name :: string
  su_path :: string
  su_listen :: "listen_entry list"
  su_accept :: bool
  su_backlog :: int
  su_max_conn :: int
  su_max_conn_per_source :: int
  su_socket_mode :: int
  su_directory_mode :: int
  su_reuse_port :: bool
  su_free_bind :: bool
  su_transparent :: bool
  su_broadcast :: bool
  su_pass_credentials :: bool
  su_pass_security :: bool
  su_keep_alive :: bool
  su_no_delay :: bool
  su_ipv6only :: bind_ipv6_only
  su_priority :: int
  su_receive_buffer :: int
  su_send_buffer :: int
  su_iptos :: int
  su_ipttl :: int
  su_mark :: int
  su_socket_user :: string
  su_socket_group :: string
  su_service :: string
  su_description :: string
  su_wants :: "string list"
  su_requires :: "string list"
  su_after :: "string list"
  su_before :: "string list"
  su_wanted_by :: "string list"
  su_required_by :: "string list"
  su_active_connections :: int
  su_activated :: bool

text \<open>A default-constructed \<open>SocketUnit\<close>: modes are octal 0666 and 0755.\<close>

definition socket_unit_init :: socket_unit where
  "socket_unit_init = \<lparr>
     su_name = [], su_path = [], su_listen = [], su_accept = False, su_backlog = 128,
     su_max_conn = 0, su_max_conn_per_source = 0, su_socket_mode = 438, su_directory_mode = 493,
     su_reuse_port = False, su_free_bind = False, su_transparent = False, su_broadcast = False,
     su_pass_credentials = False, su_pass_security = False, su_keep_alive = False,
     su_no_delay = False, su_ipv6only = BI_Default, su_priority = 0, su_receive_buffer = 0,
     su_send_buffer = 0, su_iptos = -1, su_ipttl = -1, su_mark = -1, su_socket_user = [],
     su_socket_group = [], su_service = [], su_description = [], su_wants = [],
     su_requires = [], su_after = [], su_before = [], su_wanted_by = [], su_required_by = [],
     su_active_connections = 0, su_activated = False\<rparr>"

text \<open>The unit name up to its last dot, the whole name if it has none.\<close>

definition name_stem :: "string \<Rightarrow> string" where
  "name_stem nm = (case dot_pos nm of Some d \<Rightarrow> substr nm 0 d | None \<Rightarrow> nm)"

definition paired_service :: "socket_unit \<Rightarrow> string" where
  "paired_service u =
     (if su_service u \<noteq> [] then su_service u else name_stem (su_name u) @ ''.service'')"

lemma name_stem_suffix: "CHR ''.'' \<notin> set t \<Longrightarrow> name_stem (r @ CHR ''.'' # t) = r"
  by (simp add: name_stem_def dot_pos_suffix substr_def)

end
