(* ===== verification/Curses.thy ===== *)
theory Curses
  imports Kernel
begin

text \<open>
  The terminal library (ncurses), as far as \<open>src/include/trivialInit/mixins/tui.hpp\<close> calls it:
  the calls are values, recorded in the order they are made, and a window is identified by the
  request that created it. The rules of the library about windows and modes are a checker over
  such a record.
\<close>

section \<open>Calls\<close>

text \<open>A \<open>WINDOW*\<close>: \<^term>\<open>None\<close> is the null pointer. ncurses ignores calls on it.\<close>

type_synonym window = "nat option"

datatype attr = COLOR_PAIR nat | A_BOLD | A_REVERSE

definition COLOR_BLACK :: int where "COLOR_BLACK = 0"
definition COLOR_RED :: int where "COLOR_RED = 1"
definition COLOR_GREEN :: int where "COLOR_GREEN = 2"
definition COLOR_YELLOW :: int where "COLOR_YELLOW = 3"
definition COLOR_MAGENTA :: int where "COLOR_MAGENTA = 5"
definition COLOR_CYAN :: int where "COLOR_CYAN = 6"
definition COLOR_WHITE :: int where "COLOR_WHITE = 7"

datatype curses_call =
    Initscr
  | Cbreak
  | Noecho
  | Curs_set int
  | Keypad bool
  | Nodelay bool
  | Start_color
  | Use_default_colors
  | Init_pair nat int int
  | Newwin int int int int window \<comment> \<open>lines, columns, row, column, and the answer\<close>
  | Delwin window
  | Refresh
  | Endwin
  | Doupdate
  | Werase window
  | Wattron window "attr list"
  | Wattroff window "attr list"
  | Mvwprintw window int int string
  | Box window
  | Wnoutrefresh window

section \<open>The rules of the library\<close>

text \<open>
  The mode of the terminal and the windows that exist. A call is \<^term>\<open>None\<close> when it breaks
  a rule: initialising twice, drawing or creating windows outside visual mode, using or
  deleting a window that was deleted, leaving visual mode twice.
\<close>

datatype screen_mode = Never_started | Visual | Left

type_synonym screen = "screen_mode \<times> nat list"

fun on_window :: "window \<Rightarrow> screen \<Rightarrow> screen option" where
  "on_window None (m, ws) = (if m = Visual then Some (m, ws) else None)"
| "on_window (Some w) (m, ws) = (if m = Visual \<and> w \<in> set ws then Some (m, ws) else None)"

fun curses_step :: "curses_call \<Rightarrow> screen \<Rightarrow> screen option" where
  "curses_step Initscr (m, ws) = (if m = Never_started then Some (Visual, ws) else None)"
| "curses_step Refresh (m, ws) = (if m = Never_started then None else Some (Visual, ws))"
| "curses_step Endwin (m, ws) = (if m = Visual then Some (Left, ws) else None)"
| "curses_step (Newwin h w y x None) (m, ws) = (if m = Visual then Some (m, ws) else None)"
| "curses_step (Newwin h w y x (Some n)) (m, ws) = (if m = Visual \<and> n \<notin> set ws then Some (m, n # ws) else None)"
| "curses_step (Delwin None) (m, ws) = (if m = Visual then Some (m, ws) else None)"
| "curses_step (Delwin (Some n)) (m, ws) = (if m = Visual \<and> n \<in> set ws then Some (m, remove1 n ws) else None)"
| "curses_step (Werase w) s = on_window w s"
| "curses_step (Wattron w as) s = on_window w s"
| "curses_step (Wattroff w as) s = on_window w s"
| "curses_step (Mvwprintw w y x t) s = on_window w s"
| "curses_step (Box w) s = on_window w s"
| "curses_step (Wnoutrefresh w) s = on_window w s"
| "curses_step c (m, ws) = (if m = Visual then Some (m, ws) else None)"

fun curses_run :: "curses_call list \<Rightarrow> screen \<Rightarrow> screen option" where
  "curses_run [] s = Some s"
| "curses_run (c # cs) s = (case curses_step c s of None \<Rightarrow> None | Some t \<Rightarrow> curses_run cs t)"

lemma curses_run_append:
  "curses_run (cs @ ds) s = (case curses_run cs s of None \<Rightarrow> None | Some t \<Rightarrow> curses_run ds t)"
  by (induction cs arbitrary: s) (simp_all split: option.split)

text \<open>Calls that only draw on the given windows leave the screen as it is.\<close>

fun draws_on :: "window set \<Rightarrow> curses_call \<Rightarrow> bool" where
  "draws_on W (Werase w) \<longleftrightarrow> w \<in> W"
| "draws_on W (Wattron w as) \<longleftrightarrow> w \<in> W"
| "draws_on W (Wattroff w as) \<longleftrightarrow> w \<in> W"
| "draws_on W (Mvwprintw w y x t) \<longleftrightarrow> w \<in> W"
| "draws_on W (Box w) \<longleftrightarrow> w \<in> W"
| "draws_on W (Wnoutrefresh w) \<longleftrightarrow> w \<in> W"
| "draws_on W Doupdate \<longleftrightarrow> True"
| "draws_on W c \<longleftrightarrow> False"

lemma on_window_id: "\<forall>n. w = Some n \<longrightarrow> n \<in> set ws \<Longrightarrow> on_window w (Visual, ws) = Some (Visual, ws)"
  by (cases w) simp_all

lemma draws_step:
  assumes "draws_on W c" "\<And>n. Some n \<in> W \<Longrightarrow> n \<in> set ws"
  shows "curses_step c (Visual, ws) = Some (Visual, ws)"
proof -
  have "on_window w (Visual, ws) = Some (Visual, ws)" if "w \<in> W" for w
    using that assms(2) by (intro on_window_id) auto
  with assms(1) show ?thesis by (cases c) simp_all
qed

lemma draws_run:
  assumes "list_all (draws_on W) cs" "\<And>n. Some n \<in> W \<Longrightarrow> n \<in> set ws"
  shows "curses_run cs (Visual, ws) = Some (Visual, ws)"
  using assms(1)
proof (induction cs)
  case (Cons c cs)
  then show ?case using draws_step [of W c, OF _ assms(2)] by simp
qed simp

end
