(* ===== verification/State.thy ===== *)
theory State
  imports Journal Socket_Unit Curses
begin

text \<open>
  The state of \<open>InitSystem\<close> (\<open>src/include/trivialInit/init_system.hpp\<close>). The class composes
  nine mixins by multiple inheritance; here each mixin's members extend the record of the
  mixin before it, in the order of \<open>MixinCompose\<close>. An operation of a mixin is polymorphic in
  the fields of the layers above, and reaches the layers below as the sources do through
  \<open>self()\<close>.
\<close>

text \<open>\<open>process.hpp\<close>: service states, restart policies and tracked processes.\<close>

datatype service_state = Inactive | Starting | Running | Stopping | Stopped | Failed

datatype restart_policy =
    RP_No | RP_OnSuccess | RP_OnFailure | RP_OnAbnormal | RP_OnWatchdog | RP_OnAbort | RP_Always

text \<open>Time points are integers, in nanoseconds of the steady clock.\<close>

record tracked_process =
  tp_pid :: pid
  tp_unit_name :: string
  tp_state :: service_state
  tp_exit_code :: int
  tp_restart_policy :: restart_policy
  tp_restart_count :: int
  tp_next_restart :: int
  tp_burst_limit :: int
  tp_burst_interval_s :: int
  tp_burst_window_start :: int
  tp_burst_count :: int

record pending_restart =
  pr_unit_name :: string
  pr_when :: int
  pr_restart_count :: int
  pr_burst_count :: int
  pr_burst_window_start :: int

record restart_meta =
  rm_restart_count :: int
  rm_burst_count :: int
  rm_burst_window_start :: int

text \<open>
  \<open>exit_callbacks_\<close> holds closures; the only one the program creates is the lambda of
  \<open>accept_ready\<close>, which decrements the connection count of the socket unit it captured.
\<close>

datatype exit_callback = Dec_connections string

datatype tui_tab = Tab_Overview | Tab_Services | Tab_Journal

record filesystem_st = journal_st +
  mounted :: "string list"
  runtime_dirs_chowned :: bool

record signal_st = filesystem_st +
  signal_fd :: fd
  epoll_fd :: fd
  shutdown_requested :: bool

record process_st = signal_st +
  processes :: "(pid, tracked_process) umap"
  unit_to_pid :: "(string, pid) umap"
  exit_callbacks :: "(pid, exit_callback) umap"
  pending_restarts :: "pending_restart list"
  restart_counts :: "(string, restart_meta) umap"

record unit_scan_st = process_st +
  discovered_paths :: "string list"
  discovered_names :: "string set"

record unit_parse_st = unit_scan_st +
  units :: "(string, unit_file) umap"

record socket_st = unit_parse_st +
  socket_units :: "(string, socket_unit) umap"
  fd_to_socket :: "(fd, string) umap"

record unit_exec_st = socket_st +
  exec_order :: "string list"
  default_target :: string

record tui_st = unit_exec_st +
  main_win :: window
  status_win :: window
  log_win :: window
  header_win :: window
  tui_calls :: "curses_call list" \<comment> \<open>the calls of the terminal library so far\<close>
  tui_active :: bool
  current_tab :: tui_tab
  scroll_offset :: int
  selected_row :: int
  svc_scroll :: int

type_synonym init_system = tui_st

text \<open>
  The phase tags (\<open>src/include/trivialInit/mixins/mixin_base.hpp\<close>); \<open>execute(phase::X)\<close> of the
  mixin that overloads it is \<open>execute_X\<close>. No mixin handles \<open>Reap\<close>.
\<close>

datatype phase =
    EarlyMount | SignalSetup | UnitDiscovery | UnitParse | SocketBind | DependencyResolve
  | UnitExecute | TuiStart | Reap | Shutdown

definition init_system_new :: init_system where
  "init_system_new = \<lparr>
     ticks = 0, trace = [],
     journal_entries = [], min_level = Info, console = [],
     mounted = [], runtime_dirs_chowned = False,
     signal_fd = -1, epoll_fd = -1, shutdown_requested = False,
     processes = [], unit_to_pid = [], exit_callbacks = [], pending_restarts = [],
     restart_counts = [],
     discovered_paths = [], discovered_names = {},
     units = [],
     socket_units = [], fd_to_socket = [],
     exec_order = [], default_target = ''multi-user.target'',
     main_win = None, status_win = None, log_win = None, header_win = None, tui_calls = [],
     tui_active = False, current_tab = Tab_Overview, scroll_offset = 0, selected_row = 0,
     svc_scroll = 0\<rparr>"

text \<open>
  Logging and kernel requests touch only the two lowest layers: one equation per field of the
  layers above.
\<close>

lemma log_frame [simp, frame_simps]:
  "mounted (log K l src m s) = mounted s"
  "runtime_dirs_chowned (log K l src m s) = runtime_dirs_chowned s"
  "signal_fd (log K l src m s1) = signal_fd s1"
  "epoll_fd (log K l src m s1) = epoll_fd s1"
  "shutdown_requested (log K l src m s1) = shutdown_requested s1"
  "processes (log K l src m s2) = processes s2"
  "unit_to_pid (log K l src m s2) = unit_to_pid s2"
  "exit_callbacks (log K l src m s2) = exit_callbacks s2"
  "pending_restarts (log K l src m s2) = pending_restarts s2"
  "restart_counts (log K l src m s2) = restart_counts s2"
  "discovered_paths (log K l src m s3) = discovered_paths s3"
  "discovered_names (log K l src m s3) = discovered_names s3"
  "units (log K l src m s4) = units s4"
  "socket_units (log K l src m s5) = socket_units s5"
  "fd_to_socket (log K l src m s5) = fd_to_socket s5"
  "exec_order (log K l src m s6) = exec_order s6"
  "default_target (log K l src m s6) = default_target s6"
  "unit_exec_st.more (log K l src m s6) = unit_exec_st.more s6"
  by (simp_all add: log_def)

lemma log_fmt_frame [simp, frame_simps]:
  "mounted (log_fmt K l src f as s) = mounted s"
  "runtime_dirs_chowned (log_fmt K l src f as s) = runtime_dirs_chowned s"
  "signal_fd (log_fmt K l src f as s1) = signal_fd s1"
  "epoll_fd (log_fmt K l src f as s1) = epoll_fd s1"
  "shutdown_requested (log_fmt K l src f as s1) = shutdown_requested s1"
  "processes (log_fmt K l src f as s2) = processes s2"
  "unit_to_pid (log_fmt K l src f as s2) = unit_to_pid s2"
  "exit_callbacks (log_fmt K l src f as s2) = exit_callbacks s2"
  "pending_restarts (log_fmt K l src f as s2) = pending_restarts s2"
  "restart_counts (log_fmt K l src f as s2) = restart_counts s2"
  "discovered_paths (log_fmt K l src f as s3) = discovered_paths s3"
  "discovered_names (log_fmt K l src f as s3) = discovered_names s3"
  "units (log_fmt K l src f as s4) = units s4"
  "socket_units (log_fmt K l src f as s5) = socket_units s5"
  "fd_to_socket (log_fmt K l src f as s5) = fd_to_socket s5"
  "exec_order (log_fmt K l src f as s6) = exec_order s6"
  "default_target (log_fmt K l src f as s6) = default_target s6"
  "unit_exec_st.more (log_fmt K l src f as s6) = unit_exec_st.more s6"
  by (simp_all add: log_fmt_def)

lemma sys_frame [simp, frame_simps]:
  "journal_entries (snd (sys K c s0)) = journal_entries s0"
  "min_level (snd (sys K c s0)) = min_level s0"
  "mounted (snd (sys K c s)) = mounted s"
  "runtime_dirs_chowned (snd (sys K c s)) = runtime_dirs_chowned s"
  "signal_fd (snd (sys K c s1)) = signal_fd s1"
  "epoll_fd (snd (sys K c s1)) = epoll_fd s1"
  "shutdown_requested (snd (sys K c s1)) = shutdown_requested s1"
  "processes (snd (sys K c s2)) = processes s2"
  "unit_to_pid (snd (sys K c s2)) = unit_to_pid s2"
  "exit_callbacks (snd (sys K c s2)) = exit_callbacks s2"
  "pending_restarts (snd (sys K c s2)) = pending_restarts s2"
  "restart_counts (snd (sys K c s2)) = restart_counts s2"
  "discovered_paths (snd (sys K c s3)) = discovered_paths s3"
  "discovered_names (snd (sys K c s3)) = discovered_names s3"
  "units (snd (sys K c s4)) = units s4"
  "socket_units (snd (sys K c s5)) = socket_units s5"
  "fd_to_socket (snd (sys K c s5)) = fd_to_socket s5"
  "exec_order (snd (sys K c s6)) = exec_order s6"
  "unit_exec_st.more (snd (sys K c s6)) = unit_exec_st.more s6"
  by (simp_all add: sys_def)

lemma sys_do_frame [simp, frame_simps]:
  "journal_entries (sys_do K c s0) = journal_entries s0"
  "min_level (sys_do K c s0) = min_level s0"
  "mounted (sys_do K c s) = mounted s"
  "runtime_dirs_chowned (sys_do K c s) = runtime_dirs_chowned s"
  "signal_fd (sys_do K c s1) = signal_fd s1"
  "epoll_fd (sys_do K c s1) = epoll_fd s1"
  "shutdown_requested (sys_do K c s1) = shutdown_requested s1"
  "processes (sys_do K c s2) = processes s2"
  "unit_to_pid (sys_do K c s2) = unit_to_pid s2"
  "exit_callbacks (sys_do K c s2) = exit_callbacks s2"
  "pending_restarts (sys_do K c s2) = pending_restarts s2"
  "restart_counts (sys_do K c s2) = restart_counts s2"
  "discovered_paths (sys_do K c s3) = discovered_paths s3"
  "discovered_names (sys_do K c s3) = discovered_names s3"
  "units (sys_do K c s4) = units s4"
  "socket_units (sys_do K c s5) = socket_units s5"
  "fd_to_socket (sys_do K c s5) = fd_to_socket s5"
  "exec_order (sys_do K c s6) = exec_order s6"
  "unit_exec_st.more (sys_do K c s6) = unit_exec_st.more s6"
  by (simp_all add: sys_do_def)

lemma tick_frame [simp, frame_simps]:
  "journal_entries (tick s0) = journal_entries s0"
  "min_level (tick s0) = min_level s0"
  "mounted (tick s) = mounted s"
  "shutdown_requested (tick s1) = shutdown_requested s1"
  "signal_fd (tick s1) = signal_fd s1"
  "epoll_fd (tick s1) = epoll_fd s1"
  "processes (tick s2) = processes s2"
  "unit_to_pid (tick s2) = unit_to_pid s2"
  "exit_callbacks (tick s2) = exit_callbacks s2"
  "pending_restarts (tick s2) = pending_restarts s2"
  "restart_counts (tick s2) = restart_counts s2"
  "discovered_paths (tick s3) = discovered_paths s3"
  "discovered_names (tick s3) = discovered_names s3"
  "units (tick s4) = units s4"
  "socket_units (tick s5) = socket_units s5"
  "fd_to_socket (tick s5) = fd_to_socket s5"
  "exec_order (tick s6) = exec_order s6"
  "unit_exec_st.more (tick s6) = unit_exec_st.more s6"
  by (simp_all add: tick_def)

lemma sys_ext [simp, intro]:
  "journal_ext s (snd (sys K c s))" "journal_ext s (sys_do K c s)" "journal_ext s (tick s)"
  by (simp_all add: journal_ext_def sys_def sys_do_def tick_def)

interpretation sys_do: journalled "sys_do K c" for K c
  by unfold_locales simp

interpretation tick: journalled "tick"
  by unfold_locales simp

lemma sys_ext_step:
  "journal_ext s t \<Longrightarrow> journal_ext s (snd (sys K c t))"
  "journal_ext s t \<Longrightarrow> journal_ext s (sys_do K c t)"
  "journal_ext s t \<Longrightarrow> journal_ext s (tick t)"
  by (blast intro: journal_ext_trans sys_ext)+

lemmas ext_steps = log_ext_step sys_ext_step

end
