(* ===== verification/Process.thy ===== *)
theory Process
  imports State
begin

text \<open>
  \<open>ProcessMixin\<close> (\<open>src/include/trivialInit/mixins/process.hpp\<close>): the process table, the
  restart policy with its back-off and burst limit, and what a forked child does before it
  runs the service. The parent and the child of a \<open>fork\<close> are separate definitions.
\<close>

section \<open>States, policies, user lookup\<close>

primrec state_str :: "service_state \<Rightarrow> string" where
  "state_str Inactive = ''inactive''"
| "state_str Starting = ''starting''"
| "state_str Running = ''running''"
| "state_str Stopping = ''stopping''"
| "state_str Stopped = ''stopped''"
| "state_str Failed = ''failed''"

definition parse_restart_policy :: "string \<Rightarrow> restart_policy" where
  "parse_restart_policy s =
     (if s = ''always'' then RP_Always
      else if s = ''on-failure'' then RP_OnFailure
      else if s = ''on-success'' then RP_OnSuccess
      else if s = ''on-abnormal'' then RP_OnAbnormal
      else if s = ''on-watchdog'' then RP_OnWatchdog
      else if s = ''on-abort'' then RP_OnAbort
      else RP_No)"

definition should_restart :: "restart_policy \<Rightarrow> int \<Rightarrow> bool \<Rightarrow> bool" where
  "should_restart policy exit_code signaled =
     (let clean = (\<not> signaled \<and> exit_code = 0)
      in case policy of
           RP_No \<Rightarrow> False
         | RP_Always \<Rightarrow> True
         | RP_OnSuccess \<Rightarrow> clean
         | RP_OnFailure \<Rightarrow> \<not> clean
         | RP_OnAbnormal \<Rightarrow> signaled \<or> exit_code > 0
         | RP_OnAbort \<Rightarrow> signaled
         | RP_OnWatchdog \<Rightarrow> False)"

text \<open>The fields of a line of \<open>/etc/passwd\<close> or \<open>/etc/group\<close>, as \<open>getline(ss, field, ':')\<close> reads them.\<close>

definition db_fields :: "string \<Rightarrow> string list" where
  "db_fields line = getlines (CHR '':'') line"

definition db_lines :: "osview \<Rightarrow> string \<Rightarrow> string list" where
  "db_lines os file = (case os_file os file of None \<Rightarrow> [] | Some content \<Rightarrow> getlines (CHR 0x0A) content)"

text \<open>\<open>(uid_t)std::stoul(field)\<close>: the 64-bit result is cut to 32 bits.\<close>

definition to_uid :: "string \<Rightarrow> cxx_exception + uid" where
  "to_uid field = (case stoul field of Inl e \<Rightarrow> Inl e | Inr w \<Rightarrow> Inr (ucast w))"

text \<open>The loop over the lines: name in column 0, number in column 2 (0 if there is none).\<close>

fun lookup_lines :: "string list \<Rightarrow> string \<Rightarrow> cxx_exception + uid" where
  "lookup_lines [] name = Inr (-1)"
| "lookup_lines (l # ls) name =
     (let fs = db_fields l;
          uname = (if fs = [] then [] else hd fs)
      in case (if 2 < length fs then to_uid (fs ! 2) else Inr 0) of
           Inl e \<Rightarrow> Inl e
         | Inr uid \<Rightarrow> if uname = name then Inr uid else lookup_lines ls name)"

definition lookup_id :: "osview \<Rightarrow> string \<Rightarrow> string \<Rightarrow> cxx_exception + uid" where
  "lookup_id os file name =
     (if name = [] then Inr (-1)
      else if list_all is_digit name then to_uid name
      else lookup_lines (db_lines os file) name)"

definition lookup_uid :: "osview \<Rightarrow> string \<Rightarrow> cxx_exception + uid" where
  "lookup_uid os name = lookup_id os ''/etc/passwd'' name"

definition lookup_gid :: "osview \<Rightarrow> string \<Rightarrow> cxx_exception + uid" where
  "lookup_gid os name = lookup_id os ''/etc/group'' name"

fun lookup_home_lines :: "string list \<Rightarrow> uid \<Rightarrow> cxx_exception + string" where
  "lookup_home_lines [] uid = Inr ''/''"
| "lookup_home_lines (l # ls) uid =
     (let fs = db_fields l
      in case (if 2 < length fs then to_uid (fs ! 2) else Inr 0) of
           Inl e \<Rightarrow> Inl e
         | Inr u \<Rightarrow>
             if u = uid then Inr (if 5 < length fs then fs ! 5 else [])
             else lookup_home_lines ls uid)"

definition lookup_home :: "osview \<Rightarrow> uid \<Rightarrow> cxx_exception + string" where
  "lookup_home os uid = lookup_home_lines (db_lines os ''/etc/passwd'') uid"

section \<open>The child between fork and exec\<close>

text \<open>
  A run of child code: the requests it makes, in order, and the exception that ends it, if
  one is thrown (nothing catches it, so the child aborts).
\<close>

type_synonym child_run = "syscall list \<times> cxx_exception option"

definition ch_emit :: "syscall list \<Rightarrow> child_run \<Rightarrow> child_run" where
  "ch_emit cs r = (cs @ fst r, snd r)"

definition ch_bind :: "cxx_exception + 'a \<Rightarrow> ('a \<Rightarrow> child_run) \<Rightarrow> child_run" where
  "ch_bind v k = (case v of Inl e \<Rightarrow> ([], Some e) | Inr x \<Rightarrow> k x)"

definition ch_done :: child_run where
  "ch_done = ([], None)"

definition dynamic_user :: "unit_file \<Rightarrow> bool" where
  "dynamic_user u \<longleftrightarrow> uf_dynamic_user u \<or>
     (case um_get (uf_raw_sections u) ''Service'' of
        None \<Rightarrow> False
      | Some sec \<Rightarrow>
          (case um_get sec ''DynamicUser'' of
             None \<Rightarrow> False
           | Some v \<Rightarrow> v = ''yes'' \<or> v = ''true'' \<or> v = ''1''))"

text \<open>\<open>mkdir\<close> and \<open>chown\<close> of \<open>RuntimeDirectory=\<close>, shared with \<open>start_service\<close>.\<close>

definition runtime_dir_calls :: "osview \<Rightarrow> unit_file \<Rightarrow> child_run" where
  "runtime_dir_calls os u =
     (if uf_runtime_directory u = [] then ch_done
      else
        (let rpath = ''/run/'' @ uf_runtime_directory u
         in ch_emit [Mkdir rpath 493]
              (if uf_user u = [] then ch_done
               else ch_bind (lookup_uid os (uf_user u)) (\<lambda>uid.
                    ch_bind (if uf_group u = [] then Inr uid else lookup_gid os (uf_group u)) (\<lambda>gid.
                      if uid \<noteq> -1 then ([Chown rpath uid gid], None) else ch_done)))))"

definition env_calls :: "unit_file \<Rightarrow> syscall list" where
  "env_calls u = map (\<lambda>(k, v). Setenv k v True) (uf_environment u)"

definition drop_privileges :: "osview \<Rightarrow> unit_file \<Rightarrow> uid \<Rightarrow> uid \<Rightarrow> child_run" where
  "drop_privileges os u target_uid target_gid =
     ch_emit ((if target_gid \<noteq> -1 then [Setgid target_gid] else []) @
        [Initgroups (uf_user u) (if target_gid \<noteq> -1 then target_gid else 0),
         Setuid target_uid,
         Setenv ''USER'' (uf_user u) False, Setenv ''LOGNAME'' (uf_user u) False])
       (ch_bind (lookup_home os target_uid) (\<lambda>home.
          ([Setenv ''HOME'' home False] @
           (if uf_working_directory u \<noteq> [] then [Chdir (uf_working_directory u)]
            else if target_uid \<noteq> 0 then [Chdir home] else []) @
           env_calls u, None)))"

definition setup_child_context :: "osview \<Rightarrow> unit_file \<Rightarrow> child_run" where
  "setup_child_context os u =
     (let rd = runtime_dir_calls os u;
          as_root = ((if uf_working_directory u \<noteq> [] then [Chdir (uf_working_directory u)] else []) @
                     env_calls u, None)
      in if snd rd \<noteq> None then rd
         else ch_emit (fst rd)
           (if \<not> dynamic_user u \<and> uf_user u \<noteq> [] then
              ch_bind (lookup_uid os (uf_user u)) (\<lambda>target_uid.
                if target_uid \<noteq> -1 then
                  ch_bind (if uf_group u \<noteq> [] then lookup_gid os (uf_group u) else Inr target_uid) (\<lambda>gid.
                    drop_privileges os u target_uid (if gid = -1 then target_uid else gid))
                else as_root)
            else as_root))"

text \<open>The child's branch of \<open>spawn\<close>: \<open>_exit(127)\<close> follows only if \<open>execvp\<close> fails.\<close>

definition run_service :: "string \<Rightarrow> string list \<Rightarrow> child_run" where
  "run_service exec_path args = ([Execvp exec_path (exec_path # args), Exit 127], None)"

definition ch_seq :: "child_run \<Rightarrow> child_run \<Rightarrow> child_run" where
  "ch_seq a b = (if snd a = None then ch_emit (fst a) b else a)"

definition spawn_child :: "osview \<Rightarrow> string \<Rightarrow> string list \<Rightarrow> unit_file option \<Rightarrow> child_run" where
  "spawn_child os exec_path args unit_ctx =
     ch_emit [Sigmask_clear, Setsid]
       (ch_seq (case unit_ctx of Some u \<Rightarrow> setup_child_context os u | None \<Rightarrow> ch_done)
               (run_service exec_path args))"

section \<open>The process table\<close>

definition tracked_new :: tracked_process where
  "tracked_new = \<lparr>tp_pid = 0, tp_unit_name = [], tp_state = Inactive, tp_exit_code = 0,
     tp_restart_policy = RP_No, tp_restart_count = 0, tp_next_restart = 0, tp_burst_limit = 5,
     tp_burst_interval_s = 10, tp_burst_window_start = 0, tp_burst_count = 0\<rparr>"

text \<open>The record \<open>spawn\<close> stores for a started service.\<close>

definition spawn_track :: "restart_policy \<Rightarrow> int \<Rightarrow> int \<Rightarrow> pid \<Rightarrow> string \<Rightarrow>
    'a process_st_scheme \<Rightarrow> 'a process_st_scheme" where
  "spawn_track policy burst_limit burst_interval_s pid unit_name s =
     (let tp = tracked_new\<lparr>tp_pid := pid, tp_unit_name := unit_name, tp_state := Running,
                 tp_exit_code := -1, tp_restart_policy := policy, tp_burst_limit := burst_limit,
                 tp_burst_interval_s := burst_interval_s\<rparr>
      in s\<lparr>processes := um_put pid tp (processes s),
           unit_to_pid := um_put unit_name pid (unit_to_pid s)\<rparr>)"

text \<open>
  A child of \<open>fork\<close> (answer 0) makes the requests of its run and never comes back to the
  caller; in the model it returns 0 with those requests recorded.
\<close>

definition run_child :: "kernel \<Rightarrow> child_run \<Rightarrow> 'a kst_scheme \<Rightarrow> 'a kst_scheme" where
  "run_child K r s = fold (sys_do K) (fst r) s"

definition spawn :: "kernel \<Rightarrow> string \<Rightarrow> string \<Rightarrow> string list \<Rightarrow> restart_policy \<Rightarrow> int \<Rightarrow> int \<Rightarrow>
    unit_file option \<Rightarrow> 'a process_st_scheme \<Rightarrow> pid \<times> 'a process_st_scheme" where
  "spawn K unit_name exec_path args policy burst_limit burst_interval_s unit_ctx s =
     (let (pid, s) = sys K Fork s
      in if pid < 0 then
           (-1, log_fmt K Error ''process'' ''fork for {} failed: {}'' [unit_name, strerror K pid] s)
         else if pid = 0 then
           (0, run_child K (spawn_child (view K s) exec_path args unit_ctx) s)
         else
           (pid, log_fmt K Info ''process'' ''Started {} (PID {})'' [unit_name, show_int pid]
                   (spawn_track policy burst_limit burst_interval_s pid unit_name s)))"

definition track_process :: "pid \<Rightarrow> string \<Rightarrow> bool \<Rightarrow> 'a process_st_scheme \<Rightarrow> 'a process_st_scheme" where
  "track_process pid unit_name restart s =
     (let tp = tracked_new\<lparr>tp_pid := pid, tp_unit_name := unit_name, tp_state := Running,
                 tp_exit_code := -1, tp_restart_policy := (if restart then RP_OnFailure else RP_No)\<rparr>
      in s\<lparr>processes := um_put pid tp (processes s),
           unit_to_pid := um_put unit_name pid (unit_to_pid s)\<rparr>)"

definition on_child_exit :: "pid \<Rightarrow> exit_callback \<Rightarrow> 'a process_st_scheme \<Rightarrow> 'a process_st_scheme" where
  "on_child_exit pid cb s = s\<lparr>exit_callbacks := um_put pid cb (exit_callbacks s)\<rparr>"

definition apply_restart_count :: "pid \<Rightarrow> string \<Rightarrow> 'a process_st_scheme \<Rightarrow> 'a process_st_scheme" where
  "apply_restart_count pid unit_name s =
     (case um_get (restart_counts s) unit_name of
        None \<Rightarrow> s
      | Some m \<Rightarrow>
          (let s = (case um_get (processes s) pid of
                      None \<Rightarrow> s
                    | Some tp \<Rightarrow>
                        s\<lparr>processes := um_put pid
                            (tp\<lparr>tp_restart_count := rm_restart_count m,
                                tp_burst_count := rm_burst_count m,
                                tp_burst_window_start := rm_burst_window_start m\<rparr>) (processes s)\<rparr>)
           in s\<lparr>restart_counts := um_erase unit_name (restart_counts s)\<rparr>))"

text \<open>Calling the stored lambda: \<open>sock.active_connections--\<close>.\<close>

definition run_exit_callback :: "exit_callback \<Rightarrow> 'a socket_st_scheme \<Rightarrow> 'a socket_st_scheme" where
  "run_exit_callback cb s =
     (case cb of Dec_connections sname \<Rightarrow>
        (case um_get (socket_units s) sname of
           None \<Rightarrow> s
         | Some su \<Rightarrow>
             s\<lparr>socket_units := um_put sname
                 (su\<lparr>su_active_connections := su_active_connections su - 1\<rparr>) (socket_units s)\<rparr>))"

definition NS_PER_MS :: int where "NS_PER_MS = 1000000"
definition NS_PER_S :: int where "NS_PER_S = 1000000000"

text \<open>The burst window: reset when it has expired, then one more start is counted.\<close>

definition bump_burst :: "int \<Rightarrow> tracked_process \<Rightarrow> tracked_process" where
  "bump_burst now tp =
     (let tp = (if now - tp_burst_window_start tp > tp_burst_interval_s tp * NS_PER_S
                then tp\<lparr>tp_burst_window_start := now, tp_burst_count := 0\<rparr> else tp)
      in tp\<lparr>tp_burst_count := tp_burst_count tp + 1\<rparr>)"

text \<open>Exponential back-off from 100 ms, capped at 10 minutes; the shift count is at most 13.\<close>

definition restart_delay_ms :: "int \<Rightarrow> int" where
  "restart_delay_ms restart_count = min (100 * 2 ^ nat (min restart_count 13)) (10 * 60 * 1000)"

definition exit_code_of :: "nat \<Rightarrow> int" where
  "exit_code_of status =
     (if WIFSIGNALED status then 128 + int (WTERMSIG status) else int (WEXITSTATUS status))"

text \<open>The body of the \<open>waitpid\<close> loop, in three parts: the exit callback, the removal from the
  table, and the restart decision.\<close>

definition reap_callback :: "pid \<Rightarrow> 'a socket_st_scheme \<Rightarrow> 'a socket_st_scheme" where
  "reap_callback pid s =
     (case um_get (exit_callbacks s) pid of
        None \<Rightarrow> s
      | Some cb \<Rightarrow>
          (let s = run_exit_callback cb s
           in s\<lparr>exit_callbacks := um_erase pid (exit_callbacks s)\<rparr>))"

definition reap_untrack :: "kernel \<Rightarrow> pid \<Rightarrow> int \<Rightarrow> tracked_process \<Rightarrow> 'a socket_st_scheme \<Rightarrow> 'a socket_st_scheme" where
  "reap_untrack K pid code tp s =
     (let s = log_fmt K Info ''process'' ''{} (PID {}) exited with {}''
                [tp_unit_name tp, show_int pid, show_int code] s;
          s = s\<lparr>unit_to_pid := um_erase (tp_unit_name tp) (unit_to_pid s)\<rparr>
      in s\<lparr>processes := um_erase pid (processes s)\<rparr>)"

definition schedule_restart :: "kernel \<Rightarrow> tracked_process \<Rightarrow> 'a socket_st_scheme \<Rightarrow> 'a socket_st_scheme" where
  "schedule_restart K tp s =
     (let now = k_mono K (ticks s);
          s = tick s;
          tp = bump_burst now tp
      in if tp_burst_count tp > tp_burst_limit tp then
           log_fmt K Error ''process''
             ''{}: StartLimitBurst exhausted ({}/{}), not restarting''
             [tp_unit_name tp, show_int (tp_burst_count tp), show_int (tp_burst_limit tp)] s
         else
           (let delay = restart_delay_ms (tp_restart_count tp);
                s = log_fmt K Notice ''process''
                      ''{}: restart in {}ms (attempt {}, burst {}/{})''
                      [tp_unit_name tp, show_int delay, show_int (tp_restart_count tp + 1),
                       show_int (tp_burst_count tp), show_int (tp_burst_limit tp)] s
            in s\<lparr>pending_restarts := pending_restarts s @
                 [\<lparr>pr_unit_name = tp_unit_name tp,
                   pr_when = now + delay * NS_PER_MS,
                   pr_restart_count = tp_restart_count tp + 1,
                   pr_burst_count = tp_burst_count tp,
                   pr_burst_window_start = tp_burst_window_start tp\<rparr>]\<rparr>))"

definition reap_one :: "kernel \<Rightarrow> pid \<times> nat \<Rightarrow> 'a socket_st_scheme \<Rightarrow> 'a socket_st_scheme" where
  "reap_one K ps s =
     (let pid = fst ps;
          signaled = WIFSIGNALED (snd ps);
          code = exit_code_of (snd ps);
          s = reap_callback pid s
      in case um_get (processes s) pid of
           None \<Rightarrow>
             log_fmt K Debug ''process'' ''Reaped orphan PID {} (exit {})'' [show_int pid, show_int code] s
         | Some tp \<Rightarrow>
             (let tp = tp\<lparr>tp_state := (if code = 0 \<and> \<not> signaled then Stopped else Failed),
                          tp_exit_code := code\<rparr>;
                  s = reap_untrack K pid code tp s
              in if \<not> should_restart (tp_restart_policy tp) code signaled then s
                 else schedule_restart K tp s))"

definition reap_children :: "kernel \<Rightarrow> 'a socket_st_scheme \<Rightarrow> 'a socket_st_scheme" where
  "reap_children K s = fold (reap_one K) (k_reap K (ticks s)) (tick s)"

text \<open>The loop of \<open>drain_pending_restarts\<close> over the pending entries.\<close>

fun drain_loop :: "int \<Rightarrow> pending_restart list \<Rightarrow> (string, restart_meta) umap \<Rightarrow>
    string list \<times> pending_restart list \<times> (string, restart_meta) umap" where
  "drain_loop now [] counts = ([], [], counts)"
| "drain_loop now (pr # prs) counts =
     (if now \<ge> pr_when pr then
        (let counts = um_put (pr_unit_name pr)
               \<lparr>rm_restart_count = pr_restart_count pr, rm_burst_count = pr_burst_count pr,
                rm_burst_window_start = pr_burst_window_start pr\<rparr> counts;
             (ready, remaining, counts) = drain_loop now prs counts
         in (pr_unit_name pr # ready, remaining, counts))
      else
        (let (ready, remaining, counts) = drain_loop now prs counts
         in (ready, pr # remaining, counts)))"

definition drain_pending_restarts :: "kernel \<Rightarrow> 'a process_st_scheme \<Rightarrow> string list \<times> 'a process_st_scheme" where
  "drain_pending_restarts K s =
     (let now = k_mono K (ticks s);
          (ready, remaining, counts) = drain_loop now (pending_restarts s) (restart_counts s)
      in (ready, (tick s)\<lparr>pending_restarts := remaining, restart_counts := counts\<rparr>))"

definition signal_unit :: "kernel \<Rightarrow> string \<Rightarrow> int \<Rightarrow> 'a process_st_scheme \<Rightarrow> int \<times> 'a process_st_scheme" where
  "signal_unit K unit_name sig s =
     (case um_get (unit_to_pid s) unit_name of
        None \<Rightarrow> (-1, s)
      | Some pid \<Rightarrow> sys K (Kill pid sig) s)"

definition stop_unit :: "kernel \<Rightarrow> string \<Rightarrow> 'a process_st_scheme \<Rightarrow> int \<times> 'a process_st_scheme" where
  "stop_unit K unit_name s =
     (case um_get (unit_to_pid s) unit_name of
        None \<Rightarrow> (0, s)
      | Some pid \<Rightarrow>
          (let s = log_fmt K Info ''process'' ''Stopping {}'' [unit_name] s;
               s = (case um_get (processes s) pid of
                      None \<Rightarrow> s
                    | Some tp \<Rightarrow>
                        s\<lparr>processes := um_put pid (tp\<lparr>tp_restart_policy := RP_No\<rparr>) (processes s)\<rparr>)
           in (0, sys_do K (Kill pid SIGTERM) s)))"

definition active_count :: "'a process_st_scheme \<Rightarrow> int" where
  "active_count s = int (length (filter (\<lambda>(_, tp). tp_state tp = Running) (processes s)))"

section \<open>Starting processes keeps the table consistent\<close>

definition tracked_ok :: "pid \<Rightarrow> tracked_process \<Rightarrow> bool" where
  "tracked_ok p tp \<longleftrightarrow> tp_pid tp = p \<and> tp_state tp = Running \<and> 0 < p \<and>
     0 \<le> tp_restart_count tp \<and> 0 \<le> tp_burst_count tp"

text \<open>
  The invariant of the table: what is tracked runs, a unit's pid is a tracked process of that
  unit, and the restart bookkeeping is never negative.
\<close>

definition process_inv :: "'a process_st_scheme \<Rightarrow> bool" where
  "process_inv s \<longleftrightarrow>
     um_wf (processes s) \<and> um_wf (unit_to_pid s) \<and>
     (\<forall>p tp. um_get (processes s) p = Some tp \<longrightarrow> tracked_ok p tp) \<and>
     (\<forall>u p. um_get (unit_to_pid s) u = Some p \<longrightarrow>
        (\<exists>tp. um_get (processes s) p = Some tp \<and> tp_unit_name tp = u)) \<and>
     (\<forall>pr\<in>set (pending_restarts s). 0 \<le> pr_restart_count pr \<and> 0 \<le> pr_burst_count pr) \<and>
     (\<forall>u m. um_get (restart_counts s) u = Some m \<longrightarrow> 0 \<le> rm_restart_count m \<and> 0 \<le> rm_burst_count m)"

lemma process_invD:
  assumes "process_inv s"
  shows "um_wf (processes s)" "um_wf (unit_to_pid s)"
    "\<And>p tp. um_get (processes s) p = Some tp \<Longrightarrow> tracked_ok p tp"
    "\<And>u p. um_get (unit_to_pid s) u = Some p \<Longrightarrow> \<exists>tp. um_get (processes s) p = Some tp \<and> tp_unit_name tp = u"
    "\<And>pr. pr \<in> set (pending_restarts s) \<Longrightarrow> 0 \<le> pr_restart_count pr \<and> 0 \<le> pr_burst_count pr"
    "\<And>u m. um_get (restart_counts s) u = Some m \<Longrightarrow> 0 \<le> rm_restart_count m \<and> 0 \<le> rm_burst_count m"
  using assms unfolding process_inv_def by blast+

lemma process_inv_frame:
  "\<lbrakk>process_inv s; processes t = processes s; unit_to_pid t = unit_to_pid s;
    pending_restarts t = pending_restarts s; restart_counts t = restart_counts s\<rbrakk> \<Longrightarrow> process_inv t"
  by (simp add: process_inv_def)

text \<open>
  The interface of the two ways to enter a child into the table: \<open>spawn\<close> and
  \<open>track_process\<close>.
\<close>

locale process_table =
  fixes track :: "pid \<Rightarrow> string \<Rightarrow> 'a process_st_scheme \<Rightarrow> 'a process_st_scheme"
  assumes track_processes:
      "\<exists>tp. processes (track p u s) = um_put p tp (processes s) \<and> (0 < p \<longrightarrow> tracked_ok p tp) \<and>
            tp_unit_name tp = u \<and> tp_restart_count tp = 0 \<and> tp_burst_count tp = 0"
    and track_unit: "unit_to_pid (track p u s) = um_put u p (unit_to_pid s)"
    and track_rest: "pending_restarts (track p u s) = pending_restarts s"
      "restart_counts (track p u s) = restart_counts s"
begin

lemma track_running:
  assumes "0 < p"
  shows "\<exists>tp. um_get (processes (track p u s)) p = Some tp \<and> tracked_ok p tp \<and> tp_unit_name tp = u \<and>
           um_get (unit_to_pid (track p u s)) u = Some p"
  using track_processes [of p u s] assms by (auto simp: track_unit)

lemma track_inv:
  assumes inv: "process_inv s" and p: "0 < p" "um_get (processes s) p = None"
  shows "process_inv (track p u s)"
proof -
  obtain tp where tp: "processes (track p u s) = um_put p tp (processes s)" "tracked_ok p tp" "tp_unit_name tp = u"
    using track_processes [of p u s] p by blast
  note D = process_invD [OF inv]
  have "\<exists>tp'. um_get (processes (track p u s)) p' = Some tp' \<and> tp_unit_name tp' = u'"
    if "um_get (unit_to_pid (track p u s)) u' = Some p'" for u' p'
  proof (cases "u' = u")
    case True
    with that tp show ?thesis by (simp add: track_unit)
  next
    case False
    with that D(4) [of u' p'] p(2) show ?thesis by (auto simp: tp track_unit)
  qed
  then show ?thesis
    using D tp p by (auto simp: process_inv_def track_unit track_rest split: if_splits)
qed

end

interpretation track_process: process_table "\<lambda>p u. track_process p u restart" for restart
proof unfold_locales
  show "\<exists>tp. processes (track_process p u restart s) = um_put p tp (processes s) \<and> (0 < p \<longrightarrow> tracked_ok p tp) \<and>
      tp_unit_name tp = u \<and> tp_restart_count tp = 0 \<and> tp_burst_count tp = 0"
    for p u and s :: "'a process_st_scheme"
    unfolding track_process_def Let_def
    by (intro exI conjI) (auto simp: tracked_ok_def tracked_new_def)
qed (simp_all add: track_process_def Let_def)

interpretation spawn_track: process_table "spawn_track policy limit interval" for policy limit interval
proof unfold_locales
  show "\<exists>tp. processes (spawn_track policy limit interval p u s) = um_put p tp (processes s) \<and>
      (0 < p \<longrightarrow> tracked_ok p tp) \<and> tp_unit_name tp = u \<and> tp_restart_count tp = 0 \<and> tp_burst_count tp = 0"
    for p u and s :: "'a process_st_scheme"
    unfolding spawn_track_def Let_def
    by (intro exI conjI) (auto simp: tracked_ok_def tracked_new_def)
qed (simp_all add: spawn_track_def Let_def)

lemma run_child_trace [simp]: "trace (run_child K r s) = trace s @ fst r"
proof -
  have "trace (fold (sys_do K) cs s) = trace s @ cs" for cs
    by (induction cs arbitrary: s) simp_all
  then show ?thesis by (simp add: run_child_def)
qed

lemma run_child_frame [simp]:
  "processes (run_child K r s) = processes s"
  "unit_to_pid (run_child K r s) = unit_to_pid s"
  "exit_callbacks (run_child K r s) = exit_callbacks s"
  "pending_restarts (run_child K r s) = pending_restarts s"
  "restart_counts (run_child K r s) = restart_counts s"
  "shutdown_requested (run_child K r s) = shutdown_requested s"
  by (simp_all add: run_child_def fold_keeps)

lemma run_child_frame_units [simp]:
  "units (run_child K r s) = units s"
  by (simp add: run_child_def fold_keeps)

lemma run_child_frame_sockets [simp]:
  "socket_units (run_child K r s) = socket_units s"
  "fd_to_socket (run_child K r s) = fd_to_socket s"
  by (simp_all add: run_child_def fold_keeps)

lemma spawn_result:
  "snd (spawn K u path args pol bl bi ctx s) =
     (let pid = k_ret K (ticks s) Fork; t = snd (sys K Fork s)
      in if pid < 0 then log_fmt K Error ''process'' ''fork for {} failed: {}'' [u, strerror K pid] t
         else if pid = 0 then run_child K (spawn_child (view K t) path args ctx) t
         else log_fmt K Info ''process'' ''Started {} (PID {})'' [u, show_int pid] (spawn_track pol bl bi pid u t))"
  "fst (spawn K u path args pol bl bi ctx s) = max (-1) (k_ret K (ticks s) Fork)"
  by (auto simp: spawn_def split_def Let_def)

lemma spawn_inv:
  assumes "process_inv s" and "um_get (processes s) (k_ret K (ticks s) Fork) = None"
  shows "process_inv (snd (spawn K u path args pol bl bi ctx s))"
proof -
  let ?t = "snd (sys K Fork s)" and ?pid = "k_ret K (ticks s) Fork"
  have t: "process_inv ?t" by (rule process_inv_frame [OF assms(1)]) simp_all
  show ?thesis
  proof (cases "?pid \<le> 0")
    case True
    have "process_inv (log_fmt K l src f as ?t)" "process_inv (run_child K r ?t)" for l src f as r
      by (rule process_inv_frame [OF t]; simp)+
    with True show ?thesis by (simp add: spawn_result Let_def)
  next
    case False
    with assms(2) have "process_inv (spawn_track pol bl bi ?pid u ?t)"
      by (intro spawn_track.track_inv [OF t]) simp_all
    then have "process_inv (log_fmt K l src f as (spawn_track pol bl bi ?pid u ?t))" for l src f as
      by (rule process_inv_frame) simp_all
    with False show ?thesis by (simp add: spawn_result Let_def)
  qed
qed

section \<open>Reaping\<close>

lemma run_exit_callback_frame [simp]:
  "processes (run_exit_callback cb s) = processes s"
  "unit_to_pid (run_exit_callback cb s) = unit_to_pid s"
  "pending_restarts (run_exit_callback cb s) = pending_restarts s"
  "restart_counts (run_exit_callback cb s) = restart_counts s"
  "exit_callbacks (run_exit_callback cb s) = exit_callbacks s"
  "trace (run_exit_callback cb s) = trace s"
  "ticks (run_exit_callback cb s) = ticks s"
  "shutdown_requested (run_exit_callback cb s) = shutdown_requested s"
  "units (run_exit_callback cb s) = units s"
  by (simp_all add: run_exit_callback_def split: exit_callback.split option.split)

text \<open>What one crash does to the bookkeeping: \<open>None\<close> when no restart is scheduled.\<close>

definition restart_entry :: "int \<Rightarrow> int \<Rightarrow> bool \<Rightarrow> tracked_process \<Rightarrow> pending_restart option" where
  "restart_entry now code signaled tp =
     (let b = bump_burst now tp
      in if should_restart (tp_restart_policy tp) code signaled \<and> tp_burst_count b \<le> tp_burst_limit tp
         then Some \<lparr>pr_unit_name = tp_unit_name tp,
                    pr_when = now + restart_delay_ms (tp_restart_count tp) * NS_PER_MS,
                    pr_restart_count = tp_restart_count tp + 1,
                    pr_burst_count = tp_burst_count b,
                    pr_burst_window_start = tp_burst_window_start b\<rparr>
         else None)"

lemma bump_burst_frame [simp]:
  "tp_unit_name (bump_burst now tp) = tp_unit_name tp"
  "tp_restart_count (bump_burst now tp) = tp_restart_count tp"
  "tp_burst_limit (bump_burst now tp) = tp_burst_limit tp"
  "tp_burst_interval_s (bump_burst now tp) = tp_burst_interval_s tp"
  "tp_restart_policy (bump_burst now tp) = tp_restart_policy tp"
  by (simp_all add: bump_burst_def Let_def)

lemma bump_burst_meta:
  "tp_burst_count (bump_burst now (tp\<lparr>tp_state := a, tp_exit_code := b\<rparr>)) = tp_burst_count (bump_burst now tp)"
  "tp_burst_window_start (bump_burst now (tp\<lparr>tp_state := a, tp_exit_code := b\<rparr>)) =
     tp_burst_window_start (bump_burst now tp)"
  by (simp_all add: bump_burst_def Let_def)

lemma reap_callback_frame [simp]:
  "processes (reap_callback pid s) = processes s"
  "unit_to_pid (reap_callback pid s) = unit_to_pid s"
  "pending_restarts (reap_callback pid s) = pending_restarts s"
  "restart_counts (reap_callback pid s) = restart_counts s"
  "trace (reap_callback pid s) = trace s"
  "units (reap_callback pid s) = units s"
  "shutdown_requested (reap_callback pid s) = shutdown_requested s"
  by (simp_all add: reap_callback_def Let_def split: option.split)

lemma reap_untrack_frame [simp]:
  "processes (reap_untrack K pid code tp s) = um_erase pid (processes s)"
  "unit_to_pid (reap_untrack K pid code tp s) = um_erase (tp_unit_name tp) (unit_to_pid s)"
  "pending_restarts (reap_untrack K pid code tp s) = pending_restarts s"
  "restart_counts (reap_untrack K pid code tp s) = restart_counts s"
  "trace (reap_untrack K pid code tp s) = trace s"
  by (simp_all add: reap_untrack_def Let_def)

lemma schedule_restart_frame [simp]:
  "processes (schedule_restart K tp s) = processes s"
  "unit_to_pid (schedule_restart K tp s) = unit_to_pid s"
  "restart_counts (schedule_restart K tp s) = restart_counts s"
  "trace (schedule_restart K tp s) = trace s"
  by (simp_all add: schedule_restart_def Let_def)

text \<open>The clock reading a reaped child's restart is computed from.\<close>

definition reap_now :: "kernel \<Rightarrow> pid \<Rightarrow> int \<Rightarrow> tracked_process \<Rightarrow> 'a socket_st_scheme \<Rightarrow> int" where
  "reap_now K pid code tp s = k_mono K (ticks (reap_untrack K pid code tp (reap_callback pid s)))"

lemma reap_one_untracked:
  assumes "um_get (processes s) pid = None"
  shows "processes (reap_one K (pid, st) s) = processes s"
    "unit_to_pid (reap_one K (pid, st) s) = unit_to_pid s"
    "pending_restarts (reap_one K (pid, st) s) = pending_restarts s"
    "restart_counts (reap_one K (pid, st) s) = restart_counts s"
  using assms by (simp_all add: reap_one_def Let_def)

lemma reap_one_tracked:
  assumes "um_get (processes s) pid = Some tp"
  shows "processes (reap_one K (pid, st) s) = um_erase pid (processes s)"
    and "unit_to_pid (reap_one K (pid, st) s) = um_erase (tp_unit_name tp) (unit_to_pid s)"
    and "restart_counts (reap_one K (pid, st) s) = restart_counts s"
    and "pending_restarts (reap_one K (pid, st) s) = pending_restarts s @
           (case restart_entry (reap_now K pid (exit_code_of st) tp s) (exit_code_of st) (WIFSIGNALED st) tp of
              None \<Rightarrow> [] | Some e \<Rightarrow> [e])"
proof -
  have n: "ticks (reap_untrack K pid code (tp\<lparr>tp_state := a, tp_exit_code := b\<rparr>) t) =
      ticks (reap_untrack K pid code tp t)" for code a b and t :: "'a socket_st_scheme"
    by (simp add: reap_untrack_def)
  show "pending_restarts (reap_one K (pid, st) s) = pending_restarts s @
      (case restart_entry (reap_now K pid (exit_code_of st) tp s) (exit_code_of st) (WIFSIGNALED st) tp of
         None \<Rightarrow> [] | Some e \<Rightarrow> [e])"
    using assms
    by (simp add: reap_one_def Let_def schedule_restart_def restart_entry_def bump_burst_meta reap_now_def n)
qed (use assms in \<open>simp_all add: reap_one_def Let_def\<close>)

end
