(* ===== verification/Specifiers.thy ===== *)
theory Specifiers
  imports Unit_File Kernel
begin

text \<open>
  \<open>src/src/systemd/specifiers.cpp\<close>: unit name unescaping, the specifier context of a unit
  name, and the expansion of \<open>%x\<close> specifiers. The four lazily filled strings of
  \<open>SpecifierContext\<close> are mutable, so a resolver returns the context it leaves behind.
\<close>

definition read_first_line :: "osview \<Rightarrow> string \<Rightarrow> string" where
  "read_first_line os path =
     (case os_file os path of
        None \<Rightarrow> []
      | Some content \<Rightarrow>
          (case getlines (CHR 0x0A) content of
             [] \<Rightarrow> []
           | line # _ \<Rightarrow>
               (case find_last (\<lambda>c. c \<notin> set [CHR 0x20, CHR 0x0A, CHR 0x0D, CHR 0x09]) line of
                  None \<Rightarrow> []
                | Some e \<Rightarrow> take (e + 1) line)))"

definition isxdigit :: "char \<Rightarrow> bool" where
  "isxdigit c \<longleftrightarrow> is_digit c \<or> (65 \<le> (of_char c :: nat) \<and> (of_char c :: nat) \<le> 70) \<or>
     (97 \<le> (of_char c :: nat) \<and> (of_char c :: nat) \<le> 102)"

definition hex_val :: "char \<Rightarrow> nat" where
  "hex_val c = (if is_digit c then of_char c - 48
                else if (of_char c :: nat) \<le> 70 then of_char c - 55 else of_char c - 87)"

fun unit_name_unescape :: "string \<Rightarrow> string" where
  "unit_name_unescape [] = []"
| "unit_name_unescape (c # cs) =
     (case cs of
        x # h # l # rest \<Rightarrow>
          if c = CHR 0x5C \<and> x = CHR ''x'' \<and> isxdigit h \<and> isxdigit l
          then char_of (16 * hex_val h + hex_val l) # unit_name_unescape rest
          else c # unit_name_unescape cs
      | _ \<Rightarrow> c # unit_name_unescape cs)"

record spec_ctx =
  sc_unit_name :: string
  sc_unit_path :: string
  sc_unit_type :: string
  sc_prefix :: string
  sc_instance :: string
  sc_boot_id :: string
  sc_machine_id :: string
  sc_hostname :: string
  sc_architecture :: string

definition SpecifierContext :: "string \<Rightarrow> string \<Rightarrow> spec_ctx" where
  "SpecifierContext nm path =
     (let dot = dot_pos nm;
          at = at_pos nm;
          ty = (case dot of Some d \<Rightarrow> drop (d + 1) nm | None \<Rightarrow> []);
          (pre, inst) =
            (case (at, dot) of
               (Some a, Some d) \<Rightarrow>
                 if a < d then (substr nm 0 a, substr nm (a + 1) (d - a - 1))
                 else (substr nm 0 d, [])
             | (None, Some d) \<Rightarrow> (substr nm 0 d, [])
             | (_, None) \<Rightarrow> (nm, []))
      in \<lparr>sc_unit_name = nm, sc_unit_path = path, sc_unit_type = ty, sc_prefix = pre,
          sc_instance = inst, sc_boot_id = [], sc_machine_id = [], sc_hostname = [],
          sc_architecture = []\<rparr>)"

definition boot_id :: "osview \<Rightarrow> spec_ctx \<Rightarrow> string \<times> spec_ctx" where
  "boot_id os c =
     (let c = (if sc_boot_id c = []
               then c\<lparr>sc_boot_id := read_first_line os ''/proc/sys/kernel/random/boot_id''\<rparr> else c)
      in (sc_boot_id c, c))"

definition machine_id :: "osview \<Rightarrow> spec_ctx \<Rightarrow> string \<times> spec_ctx" where
  "machine_id os c =
     (let c = (if sc_machine_id c = []
               then c\<lparr>sc_machine_id := read_first_line os ''/etc/machine-id''\<rparr> else c)
      in (sc_machine_id c, c))"

definition short_hostname :: "osview \<Rightarrow> string" where
  "short_hostname os =
     (case os_hostname os of
        None \<Rightarrow> []
      | Some h \<Rightarrow> (case find_first (\<lambda>c. c = CHR ''.'') h of Some d \<Rightarrow> substr h 0 d | None \<Rightarrow> h))"

definition hostname :: "osview \<Rightarrow> spec_ctx \<Rightarrow> string \<times> spec_ctx" where
  "hostname os c =
     (let c = (if sc_hostname c = [] then c\<lparr>sc_hostname := short_hostname os\<rparr> else c)
      in (sc_hostname c, c))"

definition architecture :: "osview \<Rightarrow> spec_ctx \<Rightarrow> string \<times> spec_ctx" where
  "architecture os c =
     (let c = (if sc_architecture c = []
               then (case os_uname os of Some (_, machine) \<Rightarrow> c\<lparr>sc_architecture := machine\<rparr> | None \<Rightarrow> c)
               else c)
      in (sc_architecture c, c))"

text \<open>The component of the prefix after its last dash, for \<open>%j\<close> and \<open>%J\<close>.\<close>

definition last_component :: "string \<Rightarrow> string" where
  "last_component p =
     (case find_last (\<lambda>c. c = CHR ''-'') p of None \<Rightarrow> p | Some pos \<Rightarrow> drop (pos + 1) p)"

text \<open>A resolver that only reads the context.\<close>

definition pure_res :: "string \<Rightarrow> spec_ctx \<Rightarrow> string \<times> spec_ctx" where
  "pure_res v c = (v, c)"

definition resolvers :: "osview \<Rightarrow> char \<Rightarrow> (spec_ctx \<Rightarrow> string \<times> spec_ctx) option" where
  "resolvers os ch =
     (if ch = CHR ''%'' then Some (pure_res ''%'')
      else if ch = CHR ''n'' then Some (\<lambda>c. pure_res (sc_unit_name c) c)
      else if ch = CHR ''N'' then Some (\<lambda>c. pure_res (unit_name_unescape (sc_unit_name c)) c)
      else if ch = CHR ''p'' then Some (\<lambda>c. pure_res (sc_prefix c) c)
      else if ch = CHR ''P'' then Some (\<lambda>c. pure_res (unit_name_unescape (sc_prefix c)) c)
      else if ch = CHR ''i'' then Some (\<lambda>c. pure_res (sc_instance c) c)
      else if ch = CHR ''I'' then Some (\<lambda>c. pure_res (unit_name_unescape (sc_instance c)) c)
      else if ch = CHR ''f'' then
        Some (\<lambda>c. pure_res (if sc_instance c = [] then [] else ''/'' @ unit_name_unescape (sc_instance c)) c)
      else if ch = CHR ''j'' then Some (\<lambda>c. pure_res (last_component (sc_prefix c)) c)
      else if ch = CHR ''J'' then
        Some (\<lambda>c. pure_res (unit_name_unescape (last_component (sc_prefix c))) c)
      else if ch = CHR ''t'' then Some (pure_res ''/run'')
      else if ch = CHR ''S'' then Some (pure_res ''/var/lib'')
      else if ch = CHR ''C'' then Some (pure_res ''/var/cache'')
      else if ch = CHR ''L'' then Some (pure_res ''/var/log'')
      else if ch = CHR ''E'' then Some (pure_res ''/etc'')
      else if ch = CHR ''b'' then Some (boot_id os)
      else if ch = CHR ''m'' then Some (machine_id os)
      else if ch = CHR ''H'' then Some (hostname os)
      else if ch = CHR ''a'' then Some (architecture os)
      else if ch = CHR ''v'' then
        Some (pure_res (case os_uname os of Some (release, _) \<Rightarrow> release | None \<Rightarrow> []))
      else if ch = CHR ''o'' \<or> ch = CHR ''w'' \<or> ch = CHR ''W'' then Some (pure_res [])
      else if ch = CHR ''u'' then
        Some (pure_res (case os_login os of Some l \<Rightarrow> l | None \<Rightarrow> []))
      else if ch = CHR ''U'' then Some (pure_res (show_nat (unat (os_uid os))))
      else if ch = CHR ''g'' then Some (pure_res (show_nat (unat (os_gid os))))
      else if ch = CHR ''h'' then
        Some (pure_res (case os_env os ''HOME'' of Some h \<Rightarrow> h | None \<Rightarrow> []))
      else if ch = CHR ''s'' then
        Some (pure_res (case os_env os ''SHELL'' of Some h \<Rightarrow> h | None \<Rightarrow> ''/bin/sh''))
      else None)"

fun resolve_ctx :: "osview \<Rightarrow> string \<Rightarrow> spec_ctx \<Rightarrow> string \<times> spec_ctx" where
  "resolve_ctx os [] ctx = ([], ctx)"
| "resolve_ctx os [c] ctx = ([c], ctx)"
| "resolve_ctx os (c # d # cs) ctx =
     (if c = CHR ''%'' then
        (case resolvers os d of
           Some f \<Rightarrow>
             (let (r, ctx1) = f ctx; (rest, ctx2) = resolve_ctx os cs ctx1 in (r @ rest, ctx2))
         | None \<Rightarrow>
             (let (rest, ctx1) = resolve_ctx os cs ctx in (c # d # rest, ctx1)))
      else (let (rest, ctx1) = resolve_ctx os (d # cs) ctx in (c # rest, ctx1)))"

text \<open>The result alone, for callers that drop the context.\<close>

definition resolve :: "osview \<Rightarrow> string \<Rightarrow> spec_ctx \<Rightarrow> string" where
  "resolve os input ctx = fst (resolve_ctx os input ctx)"

section \<open>Unescaping inverts escaping\<close>

text \<open>
  systemd's escaping of one character, and of a whole string where \<open>P\<close> says which
  characters are escaped. The sources only have the inverse.
\<close>

definition hex_digit :: "nat \<Rightarrow> char" where
  "hex_digit n = char_of (if n < 10 then 48 + n else 87 + n)"

definition esc_char :: "(char \<Rightarrow> bool) \<Rightarrow> char \<Rightarrow> string" where
  "esc_char P c =
     (if P c then [CHR 0x5C, CHR ''x'', hex_digit (of_char c div 16), hex_digit (of_char c mod 16)]
      else [c])"

definition unit_name_escape :: "(char \<Rightarrow> bool) \<Rightarrow> string \<Rightarrow> string" where
  "unit_name_escape P s = concat (map (esc_char P) s)"

lemma hex_digit [simp]:
  assumes "n < 16"
  shows "isxdigit (hex_digit n)" "hex_val (hex_digit n) = n"
  using assms
  by (auto simp: hex_digit_def isxdigit_def hex_val_def is_digit_def of_char_of)

lemma unescape_plain:
  "c \<noteq> CHR 0x5C \<Longrightarrow> unit_name_unescape (c # s) = c # unit_name_unescape s"
  by (auto split: list.splits)

lemma unescape_esc_char:
  assumes "P (CHR 0x5C)"
  shows "unit_name_unescape (esc_char P c @ s) = c # unit_name_unescape s"
proof (cases "P c")
  case True
  have "of_char c div 16 < (16::nat)"
    using nat_of_char_less_256 [of c] by (simp add: less_mult_imp_div_less)
  with True show ?thesis
    by (simp add: esc_char_def)
next
  case False
  with assms have "c \<noteq> CHR 0x5C" by auto
  then have "unit_name_unescape (c # s) = c # unit_name_unescape s" by (rule unescape_plain)
  with False show ?thesis by (simp only: esc_char_def if_False append_Cons append_Nil)
qed

text \<open>
  C31: unescaping inverts every escaping that escapes at least the backslash, whatever other
  characters it chooses to escape.
\<close>
theorem unescape_escape:
  "P (CHR 0x5C) \<Longrightarrow> unit_name_unescape (unit_name_escape P s) = s"
proof (induction s)
  case (Cons c s)
  then show ?case
    by (simp only: unit_name_escape_def list.map concat.simps unescape_esc_char)
qed (simp add: unit_name_escape_def)

theorem unescape_escape_witness:
  "unit_name_escape (\<lambda>c. c \<in> set [CHR 0x5C, CHR ''-'']) ''by-id'' = ''by'' @ [CHR 0x5C] @ ''x2did'' \<and>
   unit_name_unescape (unit_name_escape (\<lambda>c. c \<in> set [CHR 0x5C, CHR ''-'']) ''by-id'') = ''by-id''"
proof
  show "unit_name_escape (\<lambda>c. c \<in> set [CHR 0x5C, CHR ''-'']) ''by-id'' = ''by'' @ [CHR 0x5C] @ ''x2did''"
    by code_simp
  show "unit_name_unescape (unit_name_escape (\<lambda>c. c \<in> set [CHR 0x5C, CHR ''-'']) ''by-id'') = ''by-id''"
    by (rule unescape_escape) simp
qed

section \<open>The parts of a unit name\<close>

text \<open>
  The context of an instance name \<open>prefix@instance.type\<close> recovers the three parts; the
  instance may itself contain \<open>@\<close> and dots, the prefix no \<open>@\<close> and the type no dot.
\<close>
theorem specifier_context_instance:
  assumes "CHR ''@'' \<notin> set p" and "CHR ''.'' \<notin> set t"
  shows "sc_prefix (SpecifierContext (p @ ''@'' @ i @ ''.'' @ t) path) = p \<and>
         sc_instance (SpecifierContext (p @ ''@'' @ i @ ''.'' @ t) path) = i \<and>
         sc_unit_type (SpecifierContext (p @ ''@'' @ i @ ''.'' @ t) path) = t"
proof -
  let ?n = "p @ ''@'' @ i @ ''.'' @ t"
  have a: "at_pos ?n = Some (length p)"
    using at_pos_template [OF assms(1), of "i @ ''.'' @ t"] by simp
  have d: "dot_pos ?n = Some (length p + 1 + length i)"
    using dot_pos_suffix [OF assms(2), of "p @ ''@'' @ i"] by simp
  show ?thesis
    unfolding SpecifierContext_def a d by (simp add: Let_def substr_def)
qed

theorem specifier_context_instance_witness:
  "sc_prefix (SpecifierContext (''getty'' @ ''@'' @ ''tty1'' @ ''.'' @ ''service'') []) = ''getty'' \<and>
   sc_instance (SpecifierContext (''getty'' @ ''@'' @ ''tty1'' @ ''.'' @ ''service'') []) = ''tty1'' \<and>
   sc_unit_type (SpecifierContext (''getty'' @ ''@'' @ ''tty1'' @ ''.'' @ ''service'') []) = ''service''"
  by (rule specifier_context_instance) simp_all

lemma specifier_context_plain:
  assumes "CHR ''@'' \<notin> set p" and "CHR ''.'' \<notin> set t" and "CHR ''@'' \<notin> set t"
  shows "sc_prefix (SpecifierContext (p @ ''.'' @ t) path) = p"
    and "sc_instance (SpecifierContext (p @ ''.'' @ t) path) = []"
proof -
  have a: "at_pos (p @ ''.'' @ t) = None"
    using assms unfolding at_pos_def by (auto simp: find_first_None)
  have d: "dot_pos (p @ ''.'' @ t) = Some (length p)"
    using dot_pos_suffix [OF assms(2), of p] by simp
  show "sc_prefix (SpecifierContext (p @ ''.'' @ t) path) = p"
    "sc_instance (SpecifierContext (p @ ''.'' @ t) path) = []"
    unfolding SpecifierContext_def a d by (simp_all add: Let_def substr_def)
qed

section \<open>Expansion refines a token-wise specification\<close>

datatype spec_token = Lit char | Spec char

fun spec_tokens :: "string \<Rightarrow> spec_token list" where
  "spec_tokens [] = []"
| "spec_tokens [c] = [Lit c]"
| "spec_tokens (c # d # cs) =
     (if c = CHR ''%'' then Spec d # spec_tokens cs else Lit c # spec_tokens (d # cs))"

fun print_token :: "spec_token \<Rightarrow> string" where
  "print_token (Lit c) = [c]"
| "print_token (Spec d) = [CHR ''%'', d]"

text \<open>The value of a specifier computed from scratch, with no cached string.\<close>

definition uncached :: "spec_ctx \<Rightarrow> spec_ctx" where
  "uncached c = c\<lparr>sc_boot_id := [], sc_machine_id := [], sc_hostname := [], sc_architecture := []\<rparr>"

definition spec_value :: "osview \<Rightarrow> spec_ctx \<Rightarrow> char \<Rightarrow> string option" where
  "spec_value os c d = map_option (\<lambda>f. fst (f (uncached c))) (resolvers os d)"

fun expand_token :: "osview \<Rightarrow> spec_ctx \<Rightarrow> spec_token \<Rightarrow> string" where
  "expand_token os c (Lit x) = [x]"
| "expand_token os c (Spec d) =
     (case spec_value os c d of Some v \<Rightarrow> v | None \<Rightarrow> [CHR ''%'', d])"

definition cache_ok :: "osview \<Rightarrow> spec_ctx \<Rightarrow> bool" where
  "cache_ok os c \<longleftrightarrow>
     (sc_boot_id c = [] \<or> sc_boot_id c = fst (boot_id os (uncached c))) \<and>
     (sc_machine_id c = [] \<or> sc_machine_id c = fst (machine_id os (uncached c))) \<and>
     (sc_hostname c = [] \<or> sc_hostname c = fst (hostname os (uncached c))) \<and>
     (sc_architecture c = [] \<or> sc_architecture c = fst (architecture os (uncached c)))"

lemmas cache_defs = boot_id_def machine_id_def hostname_def architecture_def uncached_def Let_def

text \<open>What a resolver does to a coherent context: same value as uncached, cache kept coherent.\<close>

definition coherent_res :: "osview \<Rightarrow> (spec_ctx \<Rightarrow> string \<times> spec_ctx) \<Rightarrow> bool" where
  "coherent_res os f \<longleftrightarrow> (\<forall>c. cache_ok os c \<longrightarrow>
     fst (f c) = fst (f (uncached c)) \<and> cache_ok os (snd (f c)) \<and> uncached (snd (f c)) = uncached c)"

lemma coherent_pure:
  "(\<And>c. v (uncached c) = v c) \<Longrightarrow> coherent_res os (\<lambda>c. pure_res (v c) c)"
  by (simp add: coherent_res_def pure_res_def)

lemma coherent_const: "coherent_res os (pure_res v)"
  by (simp add: coherent_res_def pure_res_def)

lemma coherent_cached:
  "coherent_res os (boot_id os)" "coherent_res os (machine_id os)"
  "coherent_res os (hostname os)" "coherent_res os (architecture os)"
  by (auto simp: coherent_res_def cache_ok_def cache_defs split: option.splits)

lemma coherent_resolvers: "resolvers os d = Some f \<Longrightarrow> coherent_res os f"
  unfolding resolvers_def
  by (auto split: if_splits intro!: coherent_pure coherent_const coherent_cached simp: uncached_def)

lemma expand_token_cong:
  "uncached c = uncached c' \<Longrightarrow> expand_token os c = expand_token os c'"
proof
  show "uncached c = uncached c' \<Longrightarrow> expand_token os c x = expand_token os c' x" for x
    by (cases x) (simp_all add: spec_value_def)
qed

lemma resolve_ctx_tokens:
  "cache_ok os c \<Longrightarrow>
   fst (resolve_ctx os s c) = concat (map (expand_token os c) (spec_tokens s)) \<and>
   cache_ok os (snd (resolve_ctx os s c)) \<and> uncached (snd (resolve_ctx os s c)) = uncached c"
proof (induction s arbitrary: c rule: spec_tokens.induct)
  case (3 x d cs)
  show ?case
  proof (cases "x = CHR ''%''")
    case False
    with 3 show ?thesis by (simp add: split_def Let_def)
  next
    case True
    show ?thesis
    proof (cases "resolvers os d")
      case None
      with True 3 show ?thesis by (simp add: split_def Let_def spec_value_def)
    next
      case (Some f)
      from coherent_resolvers [OF this] 3(3)
      have f: "fst (f c) = fst (f (uncached c))" "cache_ok os (snd (f c))"
        "uncached (snd (f c)) = uncached c" by (auto simp: coherent_res_def)
      with True Some 3(1) [of "snd (f c)"] show ?thesis
        by (simp add: split_def Let_def spec_value_def expand_token_cong [OF f(3)])
    qed
  qed
qed simp_all

text \<open>
  C30: expanding a string is replacing each of its tokens independently: literal characters
  stay, a known specifier becomes its value computed from scratch, an unknown one is copied.
  The lazily cached strings of the context never change a result, and the tokens spell the
  input.
\<close>
theorem resolve_tokenwise:
  assumes "cache_ok os c"
  shows "resolve os s c = concat (map (expand_token os c) (spec_tokens s)) \<and>
         concat (map print_token (spec_tokens s)) = s"
proof
  show "resolve os s c = concat (map (expand_token os c) (spec_tokens s))"
    using resolve_ctx_tokens [OF assms] by (simp add: resolve_def)
  show "concat (map print_token (spec_tokens s)) = s"
    by (induction s rule: spec_tokens.induct) auto
qed

lemma cache_ok_new [simp]: "cache_ok os (SpecifierContext nm path)"
  by (simp add: cache_ok_def SpecifierContext_def Let_def split: prod.splits)

text \<open>Instances of \<open>getty@tty1.service\<close>, as the repository's tests use them.\<close>

definition no_os :: osview where
  "no_os = \<lparr>os_file = (\<lambda>_. None), os_access = (\<lambda>_ _. False), os_stat = (\<lambda>_. None),
     os_lstat = (\<lambda>_. None), os_dir = (\<lambda>_. None), os_readlink = (\<lambda>_. None),
     os_canonical = (\<lambda>_. None), os_fnmatch = (\<lambda>_ _. False),
     os_env = (\<lambda>_. None), os_hostname = None, os_uname = None, os_login = None,
     os_uid = 0, os_gid = 0\<rparr>"

theorem resolve_tokenwise_witness:
  "cache_ok no_os (SpecifierContext ''getty@tty1.service'' []) \<and>
   resolve no_os ''-i %i%%'' (SpecifierContext ''getty@tty1.service'' []) = ''-i tty1%''"
proof
  show c: "cache_ok no_os (SpecifierContext ''getty@tty1.service'' [])" by simp
  have "concat (map (expand_token no_os (SpecifierContext ''getty@tty1.service'' []))
          (spec_tokens ''-i %i%%'')) = ''-i tty1%''"
    by code_simp
  then show "resolve no_os ''-i %i%%'' (SpecifierContext ''getty@tty1.service'' []) = ''-i tty1%''"
    using resolve_tokenwise [OF c, of "''-i %i%%''"] by simp
qed

lemma spec_tokens_plain: "CHR ''%'' \<notin> set s \<Longrightarrow> spec_tokens s = map Lit s"
  by (induction s rule: spec_tokens.induct) auto

lemma resolve_plain:
  assumes "CHR ''%'' \<notin> set s"
  shows "resolve os s (SpecifierContext nm path) = s"
proof -
  have "concat (map (expand_token os c \<circ> Lit) s) = s" for c
    by (induction s) auto
  with resolve_ctx_tokens [OF cache_ok_new, of os s nm path] assms show ?thesis
    by (simp add: resolve_def spec_tokens_plain)
qed

end
