(* ===== verification/Unit_Parse.thy ===== *)
theory Unit_Parse
  imports Specifiers State
begin

text \<open>
  \<open>UnitParseMixin\<close> (\<open>src/include/trivialInit/mixins/unit_parse.hpp\<close>): the INI reader, the
  splitters of directive values and the translation of sections into \<open>UnitFile\<close> fields.
  Loops over a position in a string are recursion over the remaining suffix.
\<close>

section \<open>Helpers of namespace detail\<close>

definition is_ws :: "char \<Rightarrow> bool" where
  "is_ws c \<longleftrightarrow> c = CHR 0x20 \<or> c = CHR 0x09 \<or> c = CHR 0x0D \<or> c = CHR 0x0A"

abbreviation RS :: char where
  "RS \<equiv> CHR 0x1F"

abbreviation NL :: char where
  "NL \<equiv> CHR 0x0A"

definition trim :: "string \<Rightarrow> string" where
  "trim sv =
     (case find_first (\<lambda>c. \<not> is_ws c) sv of
        None \<Rightarrow> []
      | Some s \<Rightarrow>
          (case find_last (\<lambda>c. \<not> is_ws c) sv of
             None \<Rightarrow> []
           | Some e \<Rightarrow> substr sv s (e - s + 1)))"

text \<open>The splitting loop, for a set of separators.\<close>

function split_loop :: "(char \<Rightarrow> bool) \<Rightarrow> string \<Rightarrow> string list" where
  "split_loop sep sv =
     (case find_first (\<lambda>c. \<not> sep c) sv of
        None \<Rightarrow> []
      | Some s \<Rightarrow>
          (let e = (case find_first sep (drop s sv) of None \<Rightarrow> length sv | Some k \<Rightarrow> s + k)
           in substr sv s (e - s) # split_loop sep (drop e sv)))"
  by pat_completeness auto
termination
proof (relation "measure (\<lambda>(sep, sv). length sv)")
  fix sep :: "char \<Rightarrow> bool" and sv :: string and s e :: nat
  assume s: "find_first (\<lambda>c. \<not> sep c) sv = Some s"
    and e: "e = (case find_first sep (drop s sv) of None \<Rightarrow> length sv | Some k \<Rightarrow> s + k)"
  note f = find_first_SomeD [OF s]
  have "0 < e"
  proof (cases "find_first sep (drop s sv)")
    case (Some k)
    with find_first_SomeD(2) [OF Some] f(1,2) have "k \<noteq> 0" by (auto intro: ccontr)
    with Some e show ?thesis by simp
  qed (use e f(1) in auto)
  with f(1) show "((sep, drop e sv), sep, sv) \<in> measure (\<lambda>(sep, sv). length sv)" by simp
qed simp

declare split_loop.simps [simp del]

definition is_list_sep :: "char \<Rightarrow> bool" where
  "is_list_sep c \<longleftrightarrow> c = CHR 0x20 \<or> c = CHR 0x09 \<or> c = RS"

definition split_list :: "string \<Rightarrow> string list" where
  "split_list sv = split_loop is_list_sep sv"

record ini_st =
  ini_sections :: "(string, section_map) umap"
  ini_current :: string
  ini_accumulated :: string

text \<open>The lambda \<open>process_line\<close>.\<close>

definition process_line :: "string \<Rightarrow> ini_st \<Rightarrow> ini_st" where
  "process_line raw st =
     (let t = trim raw
      in if t = [] \<or> hd t = CHR ''#'' \<or> hd t = CHR '';'' then st
         else if hd t = CHR ''['' \<and> last t = CHR '']''
         then st\<lparr>ini_current := substr t 1 (length t - 2)\<rparr>
         else
           (case find_first (\<lambda>c. c = CHR ''='') t of
              None \<Rightarrow> st
            | Some eq \<Rightarrow>
                (let key = trim (substr t 0 eq);
                     val = trim (drop (eq + 1) t);
                     sec = um_at [] (ini_sections st) (ini_current st);
                     existing = um_at [] sec key;
                     new = (if existing = [] then val else existing @ [RS] @ val)
                 in st\<lparr>ini_sections := um_put (ini_current st) (um_put key new sec) (ini_sections st)\<rparr>)))"

text \<open>The body of the \<open>getline\<close> loop.\<close>

definition ini_step :: "string \<Rightarrow> ini_st \<Rightarrow> ini_st" where
  "ini_step line st =
     (if line \<noteq> [] \<and> last line = CHR 0x5C
      then st\<lparr>ini_accumulated := ini_accumulated st @ butlast line\<rparr>
      else if ini_accumulated st \<noteq> []
      then (process_line (ini_accumulated st @ line) st)\<lparr>ini_accumulated := []\<rparr>
      else process_line line st)"

definition ini_new :: ini_st where
  "ini_new = \<lparr>ini_sections = [], ini_current = [], ini_accumulated = []\<rparr>"

definition ini_finish :: "ini_st \<Rightarrow> ini_st" where
  "ini_finish st = (if ini_accumulated st \<noteq> [] then process_line (ini_accumulated st) st else st)"

definition parse_ini :: "osview \<Rightarrow> string \<Rightarrow> (string, section_map) umap" where
  "parse_ini os path =
     (case os_file os path of
        None \<Rightarrow> []
      | Some content \<Rightarrow>
          ini_sections (ini_finish (fold ini_step (getlines NL content) ini_new)))"

function split_rs_loop :: "string \<Rightarrow> string list" where
  "split_rs_loop s =
     (case find_first (\<lambda>c. c = RS) s of
        None \<Rightarrow> (if s = [] then [] else [s])
      | Some n \<Rightarrow>
          (let rest = split_rs_loop (drop (n + 1) s)
           in if take n s = [] then rest else take n s # rest))"
  by pat_completeness auto
termination
  by (relation "measure length") (auto dest: find_first_SomeD(1))

declare split_rs_loop.simps [simp del]

definition split_rs :: "string \<Rightarrow> string list" where
  "split_rs s = (if s = [] then [] else split_rs_loop s)"

definition is_blank :: "char \<Rightarrow> bool" where
  "is_blank c \<longleftrightarrow> c = CHR 0x20 \<or> c = CHR 0x09"

text \<open>The inner loop over a quoted value: the value and what follows the closing quote.\<close>

fun quoted_value :: "string \<Rightarrow> string \<times> string" where
  "quoted_value [] = ([], [])"
| "quoted_value [c] = (if c = CHR 0x22 then ([], []) else ([c], []))"
| "quoted_value (c # d # cs) =
     (if c = CHR 0x22 then ([], d # cs)
      else if c = CHR 0x5C then (let (v, r) = quoted_value cs in (d # v, r))
      else (let (v, r) = quoted_value (d # cs) in (c # v, r)))"

lemma quoted_value_length: "length (snd (quoted_value s)) \<le> length s"
  by (induction s rule: quoted_value.induct) (auto simp: split_def Let_def)

function parse_environment :: "string \<Rightarrow> (string, string) umap \<Rightarrow> (string, string) umap" where
  "parse_environment raw out =
     (let r1 = dropWhile is_blank raw
      in case find_first (\<lambda>c. c = CHR ''='') r1 of
           None \<Rightarrow> out
         | Some eq \<Rightarrow>
             (let key = take eq r1;
                  r2 = drop (eq + 1) r1;
                  vr = (if r2 \<noteq> [] \<and> hd r2 = CHR 0x22 then quoted_value (tl r2)
                        else (takeWhile (\<lambda>c. \<not> is_blank c) r2, dropWhile (\<lambda>c. \<not> is_blank c) r2));
                  out1 = (if key \<noteq> [] then um_put key (fst vr) out else out)
              in parse_environment (snd vr) out1))"
  by pat_completeness auto
termination
proof (relation "measure (\<lambda>(raw, out). length raw)", simp, goal_cases)
  case (1 raw out r1 eq key r2 vr out1)
  have "length (snd vr) \<le> length r2"
    using quoted_value_length [of "tl r2"] length_dropWhile_le [of "\<lambda>c. \<not> is_blank c" r2] 1
    by (auto intro: le_trans)
  moreover have "length r2 < length r1"
    using find_first_SomeD(1) [OF 1(2)] 1 by simp
  moreover have "length r1 \<le> length raw" using 1 length_dropWhile_le by simp
  ultimately show ?case by simp
qed

declare parse_environment.simps [simp del]

text \<open>
  \<open>ConditionEntry ce;\<close> leaves \<open>ce.negate\<close> indeterminate, and it is only assigned when the
  value starts with \<open>!\<close>. The value it happens to have is the parameter \<open>junk\<close>.
\<close>

definition parse_condition :: "bool \<Rightarrow> string \<Rightarrow> string \<Rightarrow> bool \<Rightarrow> condition_entry" where
  "parse_condition junk key val is_assert =
     (let v1 = (if val \<noteq> [] \<and> hd val = CHR ''|'' then tl val else val);
          neg = (v1 \<noteq> [] \<and> hd v1 = CHR 0x21);
          v2 = (if neg then tl v1 else v1)
      in \<lparr>ce_type = key, ce_value = v2, ce_negate = (if neg then True else junk),
          ce_is_assert = is_assert\<rparr>)"

definition condition_keys :: "string list" where
  "condition_keys = [
     ''ConditionPathExists'', ''ConditionPathExistsGlob'', ''ConditionPathIsDirectory'',
     ''ConditionPathIsSymbolicLink'', ''ConditionPathIsMountPoint'', ''ConditionPathIsReadWrite'',
     ''ConditionPathIsEncrypted'', ''ConditionDirectoryNotEmpty'', ''ConditionFileNotEmpty'',
     ''ConditionFileIsExecutable'', ''ConditionUser'', ''ConditionGroup'', ''ConditionHost'',
     ''ConditionKernelCommandLine'', ''ConditionKernelVersion'', ''ConditionEnvironment'',
     ''ConditionSecurity'', ''ConditionCapability'', ''ConditionACPower'', ''ConditionNeedsUpdate'',
     ''ConditionFirstBoot'', ''ConditionCPUs'', ''ConditionMemory'', ''ConditionArchitecture'',
     ''ConditionFirmware'', ''ConditionVirtualization'', ''ConditionOSRelease'',
     ''ConditionMemoryPressure'', ''ConditionCPUPressure'', ''ConditionIOPressure'']"

definition is_condition_key :: "string \<Rightarrow> bool" where
  "is_condition_key k \<longleftrightarrow> k \<in> set condition_keys"

definition is_assert_key :: "string \<Rightarrow> bool" where
  "is_assert_key k \<longleftrightarrow> starts_with k ''Assert''"

section \<open>Sections into unit fields\<close>

text \<open>\<open>if (sec.contains(k)) ... sec[k] ...\<close>\<close>

definition with_key :: "section_map \<Rightarrow> string \<Rightarrow> (string \<Rightarrow> 'a \<Rightarrow> 'a) \<Rightarrow> 'a \<Rightarrow> 'a" where
  "with_key sec k f u = (case um_get sec k of Some v \<Rightarrow> f v u | None \<Rightarrow> u)"

text \<open>The indeterminate \<open>negate\<close> of the n-th entry of a unit is \<open>junk n\<close>.\<close>

definition add_condition :: "(nat \<Rightarrow> bool) \<Rightarrow> string \<Rightarrow> string \<Rightarrow> unit_file \<Rightarrow> unit_file" where
  "add_condition junk key v u =
     u\<lparr>uf_conditions := uf_conditions u @
         [parse_condition (junk (length (uf_conditions u) + length (uf_assertions u))) key v False]\<rparr>"

definition add_assertion :: "(nat \<Rightarrow> bool) \<Rightarrow> string \<Rightarrow> string \<Rightarrow> unit_file \<Rightarrow> unit_file" where
  "add_assertion junk key v u =
     u\<lparr>uf_assertions := uf_assertions u @
         [parse_condition (junk (length (uf_conditions u) + length (uf_assertions u))) key v True]\<rparr>"

definition scan_condition :: "(nat \<Rightarrow> bool) \<Rightarrow> string \<times> string \<Rightarrow> unit_file \<Rightarrow> unit_file" where
  "scan_condition junk kv u =
     (if is_condition_key (fst kv) then fold (add_condition junk (fst kv)) (split_rs (snd kv)) u
      else if is_assert_key (fst kv) then fold (add_assertion junk (fst kv)) (split_rs (snd kv)) u
      else u)"

definition apply_unit_section :: "(nat \<Rightarrow> bool) \<Rightarrow> section_map \<Rightarrow> unit_file \<Rightarrow> unit_file" where
  "apply_unit_section junk sec u =
     (let u = with_key sec ''Description'' (\<lambda>v u. u\<lparr>uf_description := v\<rparr>) u;
          u = with_key sec ''Wants'' (\<lambda>v u. u\<lparr>uf_wants := split_list v\<rparr>) u;
          u = with_key sec ''Requires'' (\<lambda>v u. u\<lparr>uf_requires := split_list v\<rparr>) u;
          u = with_key sec ''After'' (\<lambda>v u. u\<lparr>uf_after := split_list v\<rparr>) u;
          u = with_key sec ''Before'' (\<lambda>v u. u\<lparr>uf_before := split_list v\<rparr>) u;
          u = with_key sec ''Conflicts'' (\<lambda>v u. u\<lparr>uf_conflicts := split_list v\<rparr>) u;
          u = with_key sec ''PartOf'' (\<lambda>v u. u\<lparr>uf_part_of := split_list v\<rparr>) u;
          u = with_key sec ''BindsTo'' (\<lambda>v u. u\<lparr>uf_binds_to := split_list v\<rparr>) u
      in fold (scan_condition junk) sec u)"

text \<open>A field set to a value with its specifiers expanded; the context is shared.\<close>

definition with_resolved :: "osview \<Rightarrow> section_map \<Rightarrow> string \<Rightarrow> (string \<Rightarrow> unit_file \<Rightarrow> unit_file) \<Rightarrow>
    spec_ctx \<times> unit_file \<Rightarrow> spec_ctx \<times> unit_file" where
  "with_resolved os sec k f =
     with_key sec k (\<lambda>v (ctx, u). let (r, ctx1) = resolve_ctx os v ctx in (ctx1, f r u))"

definition is_yes :: "string \<Rightarrow> bool" where
  "is_yes v \<longleftrightarrow> v = ''yes'' \<or> v = ''true'' \<or> v = ''1''"

definition apply_service_section :: "osview \<Rightarrow> spec_ctx \<Rightarrow> section_map \<Rightarrow> unit_file \<Rightarrow> unit_file" where
  "apply_service_section os ctx sec u =
     (let u = with_key sec ''ExecStart'' (\<lambda>v u. u\<lparr>uf_exec_start := v\<rparr>) u;
          u = with_key sec ''ExecStop'' (\<lambda>v u. u\<lparr>uf_exec_stop := v\<rparr>) u;
          u = with_key sec ''ExecReload'' (\<lambda>v u. u\<lparr>uf_exec_reload := v\<rparr>) u;
          u = with_key sec ''ExecStartPre'' (\<lambda>v u. u\<lparr>uf_exec_start_pre := split_rs v\<rparr>) u;
          u = with_key sec ''ExecStartPost'' (\<lambda>v u. u\<lparr>uf_exec_start_post := split_rs v\<rparr>) u;
          u = with_key sec ''Type'' (\<lambda>v u. u\<lparr>uf_type_str := v\<rparr>) u;
          u = with_key sec ''Restart'' (\<lambda>v u. u\<lparr>uf_restart_policy := v\<rparr>) u;
          u = with_key sec ''User'' (\<lambda>v u. u\<lparr>uf_user := v\<rparr>) u;
          u = with_key sec ''Group'' (\<lambda>v u. u\<lparr>uf_group := v\<rparr>) u;
          cu = with_resolved os sec ''WorkingDirectory'' (\<lambda>r u. u\<lparr>uf_working_directory := r\<rparr>) (ctx, u);
          cu = with_resolved os sec ''RuntimeDirectory'' (\<lambda>r u. u\<lparr>uf_runtime_directory := r\<rparr>) cu;
          cu = with_resolved os sec ''PIDFile'' (\<lambda>r u. u\<lparr>uf_pid_file := r\<rparr>) cu;
          u = snd cu;
          u = with_key sec ''StartLimitBurst'' (\<lambda>v u. u\<lparr>uf_restart_limit_burst := from_chars_int v 5\<rparr>) u;
          u = with_key sec ''StartLimitIntervalSec''
                (\<lambda>v u. u\<lparr>uf_restart_limit_interval := from_chars_int v 10\<rparr>) u;
          u = with_key sec ''Environment''
                (\<lambda>v u. u\<lparr>uf_environment := parse_environment v (uf_environment u)\<rparr>) u
      in with_key sec ''DynamicUser'' (\<lambda>v u. u\<lparr>uf_dynamic_user := is_yes v\<rparr>) u)"

definition apply_install_section :: "section_map \<Rightarrow> unit_file \<Rightarrow> unit_file" where
  "apply_install_section sec u =
     (let u = with_key sec ''WantedBy'' (\<lambda>v u. u\<lparr>uf_wanted_by := split_list v\<rparr>) u;
          u = with_key sec ''RequiredBy'' (\<lambda>v u. u\<lparr>uf_required_by := split_list v\<rparr>) u
      in with_key sec ''Alias'' (\<lambda>v u. u\<lparr>uf_alias := v\<rparr>) u)"

definition apply_mount_section :: "section_map \<Rightarrow> unit_file \<Rightarrow> unit_file" where
  "apply_mount_section sec u =
     (let u = with_key sec ''What'' (\<lambda>v u. u\<lparr>uf_what := v\<rparr>) u;
          u = with_key sec ''Where'' (\<lambda>v u. u\<lparr>uf_where := v\<rparr>) u;
          u = with_key sec ''Type'' (\<lambda>v u. u\<lparr>uf_mount_type := v\<rparr>) u
      in with_key sec ''Options'' (\<lambda>v u. u\<lparr>uf_options := v\<rparr>) u)"

definition with_section :: "(string, section_map) umap \<Rightarrow> string \<Rightarrow>
    (section_map \<Rightarrow> unit_file \<Rightarrow> unit_file) \<Rightarrow> unit_file \<Rightarrow> unit_file" where
  "with_section secs k f u = (case um_get secs k of Some sec \<Rightarrow> f sec u | None \<Rightarrow> u)"

text \<open>\<open>path.rfind('/')\<close> and what follows it.\<close>

definition path_basename :: "string \<Rightarrow> string" where
  "path_basename path =
     (case find_last (\<lambda>c. c = CHR ''/'') path of Some sl \<Rightarrow> drop (sl + 1) path | None \<Rightarrow> path)"

definition parse_unit :: "osview \<Rightarrow> (nat \<Rightarrow> bool) \<Rightarrow> string \<Rightarrow> unit_file" where
  "parse_unit os junk path =
     (let secs = parse_ini os path;
          nm = path_basename path;
          u = unit_file_init\<lparr>uf_path := path, uf_name := nm,
                uf_type := unit_type_from_suffix nm, uf_raw_sections := secs\<rparr>;
          ctx = SpecifierContext nm path;
          u = with_section secs ''Unit'' (apply_unit_section junk) u;
          u = with_section secs ''Service'' (apply_service_section os ctx) u;
          u = with_section secs ''Install'' apply_install_section u
      in with_section secs ''Mount'' apply_mount_section u)"

text \<open>One iteration of the phase, and the phase.\<close>

definition parse_path :: "kernel \<Rightarrow> (string \<Rightarrow> nat \<Rightarrow> bool) \<Rightarrow> string \<Rightarrow>
    'a unit_parse_st_scheme \<Rightarrow> 'a unit_parse_st_scheme" where
  "parse_path K junk path s =
     (let u = parse_unit (view K s) (junk path) path;
          s = log_fmt K Debug ''parser'' ''Parsed: {} ({})'' [uf_name u, uf_description u] (tick s)
      in s\<lparr>units := um_put (uf_name u) u (units s)\<rparr>)"

definition execute_UnitParse :: "kernel \<Rightarrow> (string \<Rightarrow> nat \<Rightarrow> bool) \<Rightarrow>
    'a unit_parse_st_scheme \<Rightarrow> int \<times> 'a unit_parse_st_scheme" where
  "execute_UnitParse K junk s =
     (let s = log K Info ''parser'' ''Parsing unit files'' s;
          s = fold (parse_path K junk) (discovered_paths s) s
      in (0, log_fmt K Info ''parser'' ''Parsed {} units'' [show_nat (length (units s))] s))"

definition find_unit :: "string \<Rightarrow> 'a unit_parse_st_scheme \<Rightarrow> unit_file option" where
  "find_unit nm s = um_get (units s) nm"

section \<open>Trimming\<close>

lemma trim_decomp:
  "\<exists>a b. sv = a @ trim sv @ b \<and> (\<forall>c\<in>set a \<union> set b. is_ws c) \<and>
     (trim sv \<noteq> [] \<longrightarrow> \<not> is_ws (hd (trim sv)) \<and> \<not> is_ws (last (trim sv)))"
proof (cases "find_first (\<lambda>c. \<not> is_ws c) sv")
  case None
  then have "\<forall>c\<in>set sv. is_ws c" by (simp add: find_first_None)
  with None show ?thesis by (intro exI [of _ sv] exI [of _ "[]"]) (simp add: trim_def)
next
  case (Some s)
  note f = find_first_SomeD [OF Some]
  have "find_last (\<lambda>c. \<not> is_ws c) sv \<noteq> None"
    using f(1,2) by (auto simp: find_last_None)
  then obtain e where e: "find_last (\<lambda>c. \<not> is_ws c) sv = Some e" by blast
  note l = find_last_SomeD [OF e]
  have "s \<le> e" using f(3) [of e] l(2) by force
  have t: "trim sv = take (e - s + 1) (drop s sv)" by (simp add: trim_def Some e substr_def)
  have len: "length (trim sv) = e - s + 1" using t l(1) \<open>s \<le> e\<close> by simp
  have "sv = take s sv @ trim sv @ drop (Suc e) sv"
  proof -
    have "drop (Suc e) sv = drop (e - s + 1) (drop s sv)" using \<open>s \<le> e\<close> by simp
    then show ?thesis by (metis append_take_drop_id t)
  qed
  moreover have "\<forall>c\<in>set (take s sv) \<union> set (drop (Suc e) sv). is_ws c"
    using f(3) l(3) by (auto simp: in_set_conv_nth)
  moreover have "hd (trim sv) = sv ! s" "last (trim sv) = sv ! e"
    using len t \<open>s \<le> e\<close> l(1) by (auto simp: hd_conv_nth last_conv_nth)
  ultimately show ?thesis using f(2) l(2) by metis
qed

lemma trim_unique:
  assumes "\<forall>c\<in>set a \<union> set b. is_ws c" and "m \<noteq> []" "\<not> is_ws (hd m)" "\<not> is_ws (last m)"
  shows "trim (a @ m @ b) = m"
proof -
  obtain h t where m: "m = h # t" using assms(2) by (cases m) auto
  have "find_first (\<lambda>c. \<not> is_ws c) (a @ h # t @ b) = Some (length a)"
    using assms m by (intro find_first_append_sep) auto
  then have s: "find_first (\<lambda>c. \<not> is_ws c) (a @ m @ b) = Some (length a)" by (simp add: m)
  have "find_last (\<lambda>c. \<not> is_ws c) ((a @ butlast m) @ last m # b) = Some (length (a @ butlast m))"
    using assms by (intro find_last_append_sep) auto
  then have e: "find_last (\<lambda>c. \<not> is_ws c) (a @ m @ b) = Some (length a + (length m - 1))"
  proof -
    have "a @ m @ b = (a @ butlast m) @ last m # b" using assms(2) by simp
    with \<open>find_last _ ((a @ butlast m) @ _) = _\<close> show ?thesis by (simp only:) simp
  qed
  show ?thesis using assms(2) by (simp add: trim_def s e substr_def)
qed

lemma trim_id: "s \<noteq> [] \<Longrightarrow> \<not> is_ws (hd s) \<Longrightarrow> \<not> is_ws (last s) \<Longrightarrow> trim s = s"
  using trim_unique [of "[]" "[]" s] by simp

lemma trim_Nil [simp]: "trim [] = []"
  by (simp add: trim_def)

text \<open>
  Trimming removes exactly the surrounding white space: the input is the result between
  two runs of white space, and the result neither starts nor ends with any. In particular
  trimming twice is trimming once.
\<close>
theorem trim_spec:
  "(\<exists>a b. sv = a @ trim sv @ b \<and> list_all is_ws a \<and> list_all is_ws b) \<and>
   (trim sv = [] \<or> (\<not> is_ws (hd (trim sv)) \<and> \<not> is_ws (last (trim sv)))) \<and>
   trim (trim sv) = trim sv"
proof -
  obtain a b where d: "sv = a @ trim sv @ b" "\<forall>c\<in>set a \<union> set b. is_ws c"
    "trim sv \<noteq> [] \<longrightarrow> \<not> is_ws (hd (trim sv)) \<and> \<not> is_ws (last (trim sv))"
    using trim_decomp [of sv] by blast
  moreover have "trim (trim sv) = trim sv"
    using d(3) trim_id [of "trim sv"] by (cases "trim sv = []") auto
  ultimately show ?thesis unfolding list_all_iff by blast
qed

section \<open>The splitters are tokenisers\<close>

lemma words_skip: "\<forall>c\<in>set xs. sep c \<Longrightarrow> words sep (xs @ r) = words sep r"
  by (induction xs) auto

lemma split_loop_words: "split_loop sep sv = words sep sv"
proof (induction sep sv rule: split_loop.induct)
  case (1 sep sv)
  show ?case
  proof (cases "find_first (\<lambda>c. \<not> sep c) sv")
    case None
    then have "\<forall>c\<in>set sv. sep c" by (simp add: find_first_None)
    then have "words sep sv = []" by (induction sv) auto
    with None show ?thesis by (subst split_loop.simps) simp
  next
    case (Some s)
    note f = find_first_SomeD [OF Some]
    define r where "r = drop s sv"
    have r: "r = sv ! s # drop (Suc s) sv" "\<not> sep (hd r)"
      using f(1,2) by (simp_all add: r_def Cons_nth_drop_Suc hd_drop_conv_nth)
    have skip: "words sep sv = words sep r"
    proof -
      have "\<forall>c\<in>set (take s sv). sep c" using f(3) by (auto simp: in_set_conv_nth)
      then have "words sep (take s sv @ r) = words sep r" by (rule words_skip)
      then show ?thesis by (simp add: r_def)
    qed
    define e where "e = (case find_first sep r of None \<Rightarrow> length sv | Some k \<Rightarrow> s + k)"
    have tok: "substr sv s (e - s) = takeWhile (\<lambda>c. \<not> sep c) r"
      and rest: "drop e sv = dropWhile (\<lambda>c. \<not> sep c) r"
    proof -
      have "substr sv s (e - s) = takeWhile (\<lambda>c. \<not> sep c) r \<and> drop e sv = dropWhile (\<lambda>c. \<not> sep c) r"
      proof (cases "find_first sep r")
        case None
        then have n: "\<forall>c\<in>set r. \<not> sep c" by (simp add: find_first_None)
        have "substr sv s (e - s) = r" "drop e sv = []"
          using None by (simp_all add: e_def substr_def r_def)
        with n show ?thesis by (simp add: takeWhile_all dropWhile_all)
      next
        case (Some k)
        then have "e = s + k" by (simp add: e_def)
        with find_first_SomeD(4,5) [OF Some] show ?thesis
          by (simp add: substr_def r_def add.commute)
      qed
      then show "substr sv s (e - s) = takeWhile (\<lambda>c. \<not> sep c) r"
        "drop e sv = dropWhile (\<lambda>c. \<not> sep c) r" by auto
    qed
    have "split_loop sep sv = substr sv s (e - s) # split_loop sep (drop e sv)"
      by (subst split_loop.simps) (simp add: Some Let_def e_def r_def)
    also have "split_loop sep (drop e sv) = words sep (drop e sv)"
      using 1 [OF Some] by (simp add: e_def r_def)
    finally show ?thesis using r by (simp add: skip tok rest)
  qed
qed

lemma split_rs_words: "split_rs s = words (\<lambda>c. c = RS) s"
proof -
  have "split_rs_loop s = words (\<lambda>c. c = RS) s"
  proof (induction s rule: split_rs_loop.induct)
    case (1 s)
    show ?case
    proof (cases "find_first (\<lambda>c. c = RS) s")
      case None
      then have "\<forall>c\<in>set s. c \<noteq> RS" by (simp add: find_first_None)
      then have "words (\<lambda>c. c = RS) s = (if s = [] then [] else [s])"
        using words.tok_word [of s "\<lambda>c. c = RS"] by auto
      with None show ?thesis by (subst split_rs_loop.simps) simp
    next
      case (Some n)
      note f = find_first_SomeD [OF Some]
      have s: "s = take n s @ RS # drop (n + 1) s"
        using id_take_nth_drop [OF f(1)] f(2) by simp
      have "\<forall>c\<in>set (take n s). c \<noteq> RS" using f(3) by (auto simp: in_set_conv_nth)
      then have w: "words (\<lambda>c. c = RS) (take n s) = (if take n s = [] then [] else [take n s])"
        using words.tok_word [of "take n s" "\<lambda>c. c = RS"] by auto
      have "words (\<lambda>c. c = RS) s =
          words (\<lambda>c. c = RS) (take n s) @ words (\<lambda>c. c = RS) (drop (n + 1) s)"
        by (subst s, subst words_sep) simp_all
      with 1 [OF Some] w Some show ?thesis by (subst split_rs_loop.simps) (simp add: Let_def)
    qed
  qed
  then show ?thesis by (simp add: split_rs_def)
qed

interpretation split_list: tokeniser is_list_sep split_list
  by unfold_locales
    (simp_all add: split_list_def split_loop_words words.tok_sep words.tok_word)

interpretation split_rs: tokeniser "\<lambda>c. c = RS" split_rs
  by unfold_locales (simp_all add: split_rs_words words.tok_sep words.tok_word)

text \<open>
  A list directive written with one separator between its items is read back as those
  items, and every item read from any value is non-empty and free of separators.
\<close>
theorem split_list_join:
  assumes "is_list_sep d" and "\<forall>w\<in>set ws. w \<noteq> [] \<and> (\<forall>c\<in>set w. \<not> is_list_sep c)"
  shows "split_list (join d ws) = ws \<and>
         (\<forall>s. \<forall>w\<in>set (split_list s). w \<noteq> [] \<and> (\<forall>c\<in>set w. \<not> is_list_sep c))"
  using split_list.tok_join [OF assms(1)] split_list.tok_wf assms(2) by blast

theorem split_list_join_witness:
  "split_list (join (CHR 0x20) [''network.target'', ''syslog.target'']) = [''network.target'', ''syslog.target'']"
  using split_list_join [of "CHR 0x20" "[''network.target'', ''syslog.target'']"]
  by (simp add: is_list_sep_def)

section \<open>What a unit file assigns\<close>

text \<open>
  The reference reading of a file: physical lines joined at a trailing backslash, each
  logical line classified on its own, and the sequence of assignments they make.
\<close>

fun logical_lines :: "string \<Rightarrow> string list \<Rightarrow> string list" where
  "logical_lines acc [] = (if acc = [] then [] else [acc])"
| "logical_lines acc (l # ls) =
     (if l \<noteq> [] \<and> last l = CHR 0x5C then logical_lines (acc @ butlast l) ls
      else (acc @ l) # logical_lines [] ls)"

datatype ini_line = Ignored | Header string | Assign string string

definition classify_line :: "string \<Rightarrow> ini_line" where
  "classify_line raw =
     (let t = trim raw
      in if t = [] \<or> hd t = CHR ''#'' \<or> hd t = CHR '';'' then Ignored
         else if hd t = CHR ''['' \<and> last t = CHR '']'' then Header (tl (butlast t))
         else if CHR ''='' \<notin> set t then Ignored
         else Assign (trim (takeWhile (\<lambda>c. c \<noteq> CHR ''='') t))
                     (trim (tl (dropWhile (\<lambda>c. c \<noteq> CHR ''='') t))))"

fun assignments :: "string \<Rightarrow> string list \<Rightarrow> (string \<times> string \<times> string) list" where
  "assignments cur [] = []"
| "assignments cur (l # ls) =
     (case classify_line l of
        Ignored \<Rightarrow> assignments cur ls
      | Header h \<Rightarrow> assignments h ls
      | Assign k v \<Rightarrow> (cur, k, v) # assignments cur ls)"

text \<open>The values assigned to one key of one section, in file order.\<close>

definition values_of :: "string \<Rightarrow> string \<Rightarrow> (string \<times> string \<times> string) list \<Rightarrow> string list" where
  "values_of S k as = map (\<lambda>(_, _, v). v) (filter (\<lambda>(s, k', _). s = S \<and> k' = k) as)"

definition glue :: "string \<Rightarrow> string \<Rightarrow> string" where
  "glue existing val = (if existing = [] then val else existing @ [RS] @ val)"

definition ini_value :: "(string, section_map) umap \<Rightarrow> string \<Rightarrow> string \<Rightarrow> string" where
  "ini_value secs S k = um_at [] (um_at [] secs S) k"

definition file_assignments :: "string \<Rightarrow> (string \<times> string \<times> string) list" where
  "file_assignments content = assignments [] (logical_lines [] (getlines NL content))"

lemma tl_butlast_substr: "substr t (Suc 0) (length t - 2) = tl (butlast t)"
  by (simp add: substr_def butlast_conv_take tl_take drop_Suc numeral_2_eq_2)

lemma process_line_classify:
  "process_line raw st =
     (case classify_line raw of
        Ignored \<Rightarrow> st
      | Header h \<Rightarrow> st\<lparr>ini_current := h\<rparr>
      | Assign k v \<Rightarrow>
          st\<lparr>ini_sections := um_put (ini_current st)
             (um_put k (glue (ini_value (ini_sections st) (ini_current st) k) v)
                (um_at [] (ini_sections st) (ini_current st))) (ini_sections st)\<rparr>)"
proof (cases "find_first (\<lambda>c. c = CHR ''='') (trim raw)")
  case None
  then have "CHR ''='' \<notin> set (trim raw)" by (auto simp: find_first_None)
  with None show ?thesis
    by (simp add: process_line_def classify_line_def Let_def tl_butlast_substr)
next
  case (Some eq)
  note f = find_first_SomeD [OF Some]
  have "CHR ''='' \<in> set (trim raw)" using f(1,2) by (metis nth_mem)
  moreover have "drop (Suc eq) (trim raw) = tl (dropWhile (\<lambda>c. c \<noteq> CHR ''='') (trim raw))"
    using f(5) by (metis drop_Suc tl_drop)
  ultimately show ?thesis using Some f(4)
    by (simp add: process_line_def classify_line_def Let_def tl_butlast_substr glue_def
        ini_value_def tl_butlast_substr [unfolded substr_def] substr_def)
qed

lemma process_line_acc: "process_line l (st\<lparr>ini_accumulated := a\<rparr>) = (process_line l st)\<lparr>ini_accumulated := a\<rparr>"
  by (simp add: process_line_classify split: ini_line.split)

lemma fold_process_acc:
  "fold process_line ls (st\<lparr>ini_accumulated := a\<rparr>) = (fold process_line ls st)\<lparr>ini_accumulated := a\<rparr>"
  by (induction ls arbitrary: st) (simp_all add: process_line_acc)

lemma ini_loop_logical:
  "ini_sections (ini_finish (fold ini_step ls st)) =
     ini_sections (fold process_line (logical_lines (ini_accumulated st) ls) st)"
proof (induction ls arbitrary: st)
  case (Cons l ls)
  have acc: "ini_accumulated (process_line x st) = ini_accumulated st" for x
    by (simp add: process_line_classify split: ini_line.split)
  show ?case
  proof (cases "l \<noteq> [] \<and> last l = CHR 0x5C")
    case True
    then have "ini_step l st = st\<lparr>ini_accumulated := ini_accumulated st @ butlast l\<rparr>"
      by (simp add: ini_step_def)
    with True show ?thesis by (simp add: Cons fold_process_acc)
  next
    case False
    then have "ini_step l st = (process_line (ini_accumulated st @ l) st)\<lparr>ini_accumulated := []\<rparr>"
      using acc by (cases "ini_accumulated st = []") (auto simp: ini_step_def intro: ini_st.equality)
    with False show ?thesis by (auto simp: Cons fold_process_acc)
  qed
qed (simp add: ini_finish_def)

lemma fold_process_value:
  "ini_value (ini_sections (fold process_line ls st)) S k =
     foldl glue (ini_value (ini_sections st) S k) (values_of S k (assignments (ini_current st) ls))"
proof (induction ls arbitrary: st)
  case (Cons l ls)
  show ?case
  proof (cases "classify_line l")
    case (Assign k' v)
    let ?st = "process_line l st"
    have "ini_value (ini_sections ?st) S k =
        (if S = ini_current st \<and> k = k' then glue (ini_value (ini_sections st) S k) v
         else ini_value (ini_sections st) S k)"
      by (simp add: process_line_classify Assign ini_value_def um_at_def)
    moreover have "ini_current ?st = ini_current st" by (simp add: process_line_classify Assign)
    ultimately show ?thesis using Assign by (simp add: Cons values_of_def)
  qed (simp_all add: Cons process_line_classify [of l st])
qed (simp add: values_of_def)

lemma glue_tokens:
  "split_list (foldl glue e vs) = split_list e @ concat (map split_list vs) \<and>
   split_rs (foldl glue e vs) = split_rs e @ concat (map split_rs vs)"
proof (induction vs arbitrary: e)
  case (Cons v vs)
  have "split_list (glue e v) = split_list e @ split_list v"
    using split_list.tok_sep [of RS e v] by (auto simp: glue_def split_list.tok_Nil is_list_sep_def)
  moreover have "split_rs (glue e v) = split_rs e @ split_rs v"
    using split_rs.tok_sep [of RS e v] by (auto simp: glue_def split_rs.tok_Nil)
  ultimately show ?case using Cons by simp
qed simp

lemma parse_ini_value:
  assumes "os_file os path = Some content"
  shows "ini_value (parse_ini os path) S k = foldl glue [] (values_of S k (file_assignments content))"
  using assms fold_process_value [of _ ini_new]
  by (simp add: parse_ini_def ini_loop_logical file_assignments_def ini_new_def ini_value_def um_at_def)


definition demo_unit :: string where
  "demo_unit = concat (map (\<lambda>l. l @ [NL]) [''[Unit]'', ''# order'', ''After=a.target'', ''After = b.target'',
     ''After=c.target'' @ [CHR 0x5C], '' d.target''])"


section \<open>Printing and reading back\<close>

definition render_section :: "string \<times> (string \<times> string) list \<Rightarrow> string list" where
  "render_section sk = (''['' @ fst sk @ '']'') # map (\<lambda>(k, v). k @ ''='' @ v) (snd sk)"

definition render_ini :: "(string \<times> (string \<times> string) list) list \<Rightarrow> string" where
  "render_ini secs = concat (map (\<lambda>l. l @ [NL]) (concat (map render_section secs)))"

definition plain_key :: "string \<Rightarrow> bool" where
  "plain_key k \<longleftrightarrow> k \<noteq> [] \<and> \<not> is_ws (hd k) \<and> \<not> is_ws (last k) \<and>
     CHR ''='' \<notin> set k \<and> NL \<notin> set k \<and> hd k \<notin> {CHR ''#'', CHR '';'', CHR ''[''}"

definition plain_value :: "string \<Rightarrow> bool" where
  "plain_value v \<longleftrightarrow> (v \<noteq> [] \<longrightarrow> \<not> is_ws (hd v) \<and> \<not> is_ws (last v) \<and> last v \<noteq> CHR 0x5C) \<and> NL \<notin> set v"

definition plain_sections :: "(string \<times> (string \<times> string) list) list \<Rightarrow> bool" where
  "plain_sections secs \<longleftrightarrow>
     distinct (map fst secs) \<and>
     list_all (\<lambda>(S, kvs). NL \<notin> set S \<and> distinct (map fst kvs) \<and>
       list_all (\<lambda>(k, v). plain_key k \<and> plain_value v) kvs) secs"

lemma classify_assign:
  assumes "plain_key k" "plain_value v"
  shows "classify_line (k @ ''='' @ v) = Assign k v"
proof -
  have "trim (k @ ''='' @ v) = k @ ''='' @ v"
    using assms by (intro trim_id) (auto simp: plain_key_def plain_value_def is_ws_def hd_append)
  moreover have "takeWhile (\<lambda>c. c \<noteq> CHR ''='') (k @ ''='' @ v) = k"
    "dropWhile (\<lambda>c. c \<noteq> CHR ''='') (k @ ''='' @ v) = CHR ''='' # v"
    using assms by (auto simp: plain_key_def intro!: takeWhile_until dropWhile_until)
  moreover have "trim k = k" "trim v = v"
    using assms by (auto simp: plain_key_def plain_value_def intro: trim_id) (metis trim_Nil trim_id)
  moreover have "hd (k @ ''='' @ v) = hd k" using assms by (simp add: plain_key_def)
  ultimately show ?thesis using assms by (simp add: classify_line_def Let_def plain_key_def)
qed

lemma classify_header: "classify_line (''['' @ S @ '']'') = Header S"
proof -
  have "trim (''['' @ S @ '']'') = ''['' @ S @ '']''"
    by (intro trim_id) (auto simp: is_ws_def)
  then show ?thesis by (simp add: classify_line_def Let_def)
qed

lemma getlines_render:
  "\<forall>l\<in>set ls. NL \<notin> set l \<Longrightarrow> getlines NL (concat (map (\<lambda>l. l @ [NL]) ls)) = ls"
  by (induction ls) (simp_all add: getlines_append)

lemma logical_lines_plain:
  "\<forall>l\<in>set ls. l \<noteq> [] \<longrightarrow> last l \<noteq> CHR 0x5C \<Longrightarrow> logical_lines [] ls = ls"
  by (induction ls) auto

lemma assignments_render_section:
  assumes "list_all (\<lambda>(k, v). plain_key k \<and> plain_value v) kvs"
  shows "assignments cur (render_section (S, kvs) @ ls) =
     map (Pair S) kvs @ assignments S ls"
proof -
  have "assignments S (map (\<lambda>(k, v). k @ ''='' @ v) kvs @ ls) =
     map (Pair S) kvs @ assignments S ls"
    using assms
  proof (induction kvs)
    case (Cons kv kvs)
    then show ?case using classify_assign [of "fst kv" "snd kv"] by (auto simp: split_def)
  qed simp
  then show ?thesis using classify_header [of S] by (simp add: render_section_def)
qed

lemma assignments_render:
  "plain_sections secs \<Longrightarrow>
   assignments cur (concat (map render_section secs)) =
     concat (map (\<lambda>(S, kvs). map (Pair S) kvs) secs)"
proof (induction secs arbitrary: cur)
  case (Cons sk secs)
  then show ?case
    by (cases sk) (simp add: plain_sections_def assignments_render_section)
qed simp

lemma file_assignments_render:
  assumes "plain_sections secs"
  shows "file_assignments (render_ini secs) =
     concat (map (\<lambda>(S, kvs). map (Pair S) kvs) secs)"
proof -
  let ?ls = "concat (map render_section secs)"
  have "\<forall>l\<in>set ?ls. NL \<notin> set l \<and> (l \<noteq> [] \<longrightarrow> last l \<noteq> CHR 0x5C)"
  proof
    fix l assume "l \<in> set ?ls"
    then obtain S kvs where S: "(S, kvs) \<in> set secs" and l: "l \<in> set (render_section (S, kvs))"
      by auto
    from S assms have ok: "NL \<notin> set S" "\<forall>(k, v)\<in>set kvs. plain_key k \<and> plain_value v"
      by (auto simp: plain_sections_def list_all_iff)
    from l consider "l = ''['' @ S @ '']''" | k v where "(k, v) \<in> set kvs" "l = k @ ''='' @ v"
      by (auto simp: render_section_def)
    then show "NL \<notin> set l \<and> (l \<noteq> [] \<longrightarrow> last l \<noteq> CHR 0x5C)"
    proof cases
      case 1
      with ok show ?thesis by simp
    next
      case 2
      with ok have "plain_key k" "plain_value v" by auto
      with 2 show ?thesis by (cases "v = []") (auto simp: plain_key_def plain_value_def)
    qed
  qed
  then show ?thesis
    using assms by (simp add: file_assignments_def render_ini_def getlines_render
        logical_lines_plain assignments_render)
qed

lemma values_of_append: "values_of S k (xs @ ys) = values_of S k xs @ values_of S k ys"
  by (simp add: values_of_def)

lemma values_of_section:
  "distinct (map fst kvs) \<Longrightarrow>
   values_of S k (map (Pair S') kvs) =
     (if S = S' then (case map_of kvs k of Some v \<Rightarrow> [v] | None \<Rightarrow> []) else [])"
proof (induction kvs)
  case (Cons kv kvs)
  obtain a b where kv: "kv = (a, b)" by (cases kv)
  with Cons.prems have "k = a \<Longrightarrow> map_of kvs k = None" by (simp add: map_of_eq_None_iff)
  with Cons show ?case by (cases "k = a") (auto simp: kv values_of_def split: if_splits)
qed (simp add: values_of_def)

lemma values_of_sections:
  assumes "plain_sections secs"
  shows "values_of S k (concat (map (\<lambda>(S, kvs). map (Pair S) kvs) secs)) =
    (case map_of secs S of
       Some kvs \<Rightarrow> (case map_of kvs k of Some v \<Rightarrow> [v] | None \<Rightarrow> [])
     | None \<Rightarrow> [])"
  using assms
proof (induction secs)
  case (Cons sk secs)
  obtain S' kvs where sk: "sk = (S', kvs)" by (cases sk)
  with Cons.prems have "plain_sections secs" and "map_of secs S' = None" "distinct (map fst kvs)"
    by (auto simp: plain_sections_def map_of_eq_None_iff)
  with Cons.IH show ?case
    by (auto simp: sk values_of_append values_of_section)
qed (simp add: values_of_def)

text \<open>
  C22: round trip of the INI reader. Printing sections with distinct names, distinct plain keys
  and plain values and parsing the file gives every key its value, and gives nothing to a key
  that was not printed.
\<close>
theorem parse_ini_render:
  assumes "plain_sections secs" and "os_file os path = Some (render_ini secs)"
  shows "ini_value (parse_ini os path) S k =
    (case map_of secs S of
       Some kvs \<Rightarrow> (case map_of kvs k of Some v \<Rightarrow> v | None \<Rightarrow> [])
     | None \<Rightarrow> [])"
  using assms
  by (simp add: parse_ini_value file_assignments_render values_of_sections glue_def split: option.split)

theorem parse_ini_render_witness:
  "ini_value (parse_ini (no_os\<lparr>os_file := (\<lambda>_. Some (render_ini
     [(''Unit'', [(''Description'', ''Home'')]), (''Mount'', [(''What'', ''/dev/sda2''), (''Options'', ''a=b'')])]))\<rparr>)
     ''home.mount'') ''Mount'' ''Options'' = ''a=b''"
proof -
  have "plain_sections
     [(''Unit'', [(''Description'', ''Home'')]), (''Mount'', [(''What'', ''/dev/sda2''), (''Options'', ''a=b'')])]"
    by (simp add: plain_sections_def plain_key_def plain_value_def is_ws_def)
  from parse_ini_render [OF this, where os = "no_os\<lparr>os_file := (\<lambda>_. Some (render_ini
     [(''Unit'', [(''Description'', ''Home'')]), (''Mount'', [(''What'', ''/dev/sda2''), (''Options'', ''a=b'')])]))\<rparr>"
     and S = "''Mount''" and k = "''Options''"]
  show ?thesis by simp
qed

section \<open>Environment assignments\<close>

text \<open>How an assignment with an arbitrary value is written: quoted, with quotes and backslashes escaped.\<close>

fun quote_value :: "string \<Rightarrow> string" where
  "quote_value [] = [CHR 0x22]"
| "quote_value (c # cs) =
     (if c = CHR 0x22 \<or> c = CHR 0x5C then CHR 0x5C # c # quote_value cs else c # quote_value cs)"

definition env_item :: "string \<times> string \<Rightarrow> string" where
  "env_item kv = fst kv @ ''='' @ [CHR 0x22] @ quote_value (snd kv)"

definition env_key :: "string \<Rightarrow> bool" where
  "env_key k \<longleftrightarrow> k \<noteq> [] \<and> \<not> is_blank (hd k) \<and> CHR ''='' \<notin> set k"

lemma quote_value_not_Nil [simp]: "quote_value v \<noteq> []"
  by (cases v) auto

lemma quoted_value_quote: "quoted_value (quote_value v @ r) = (v, r)"
proof (induction v)
  case Nil
  then show ?case by (cases r) auto
next
  case (Cons c v)
  obtain x xs where "quote_value v @ r = x # xs" by (cases "quote_value v @ r") auto
  with Cons show ?case by auto
qed

lemma parse_environment_item:
  assumes "env_key k"
  shows "parse_environment (k @ ''='' @ [CHR 0x22] @ quote_value v @ r) out = parse_environment r (um_put k v out)"
proof -
  have "dropWhile is_blank (k @ CHR ''='' # x) = k @ CHR ''='' # x" for x
    using assms by (cases k) (auto simp: env_key_def)
  moreover have "find_first (\<lambda>c. c = CHR ''='') (k @ CHR ''='' # x) = Some (length k)" for x
    using assms by (intro find_first_append_sep) (auto simp: env_key_def)
  ultimately show ?thesis
    using assms quoted_value_quote [of v r]
    by (subst parse_environment.simps) (simp add: Let_def env_key_def)
qed

lemma parse_environment_blank: "is_blank b \<Longrightarrow> parse_environment (b # r) out = parse_environment r out"
  by (subst (1 2) parse_environment.simps) simp

lemma parse_environment_Nil: "parse_environment [] out = out"
  by (subst parse_environment.simps) simp

lemma parse_environment_unquoted:
  assumes "env_key k" and "\<forall>c\<in>set r. \<not> is_blank c" and "r \<noteq> []" "hd r \<noteq> CHR 0x22"
  shows "parse_environment (k @ CHR ''='' # r) out = um_put k r out"
proof -
  have "dropWhile is_blank (k @ CHR ''='' # r) = k @ CHR ''='' # r"
    using assms(1) by (cases k) (auto simp: env_key_def)
  moreover have "find_first (\<lambda>c. c = CHR ''='') (k @ CHR ''='' # r) = Some (length k)"
    using assms(1) by (intro find_first_append_sep) (auto simp: env_key_def)
  ultimately show ?thesis
    using assms by (subst parse_environment.simps)
      (simp add: Let_def env_key_def parse_environment_Nil takeWhile_all dropWhile_all)
qed

text \<open>
  C33: round trip of \<open>Environment=\<close>. Quoted assignments separated by a space, with any
  characters in the values, are all read back: later assignments of a key win, and the other
  variables of the map are kept.
\<close>
theorem parse_environment_items:
  assumes "list_all (\<lambda>kv. env_key (fst kv)) kvs"
  shows "parse_environment (join (CHR 0x20) (map env_item kvs)) out = foldl (\<lambda>m (k, v). um_put k v m) out kvs"
  using assms
proof (induction kvs arbitrary: out)
  case Nil
  then show ?case by (simp add: parse_environment_Nil)
next
  case (Cons kv kvs)
  have k: "env_key (fst kv)" using Cons.prems by simp
  show ?case
  proof (cases "kvs = []")
    case True
    then show ?thesis
      using parse_environment_item [OF k, of "snd kv" "[]" out]
      by (simp add: env_item_def parse_environment_Nil split_def)
  next
    case False
    then show ?thesis
      using Cons parse_environment_item [OF k, of "snd kv" "CHR 0x20 # join (CHR 0x20) (map env_item kvs)" out]
      by (simp add: join_Cons env_item_def [of kv] parse_environment_blank is_blank_def split_def)
  qed
qed

theorem parse_environment_items_witness:
  "parse_environment (join (CHR 0x20) (map env_item [(''A'', ''x y''), (''B'', [CHR 0x22])])) [] =
     [(''A'', ''x y''), (''B'', [CHR 0x22])]"
proof -
  have "list_all (\<lambda>kv. env_key (fst kv)) [(''A'', ''x y''), (''B'', [CHR 0x22])]"
    by (simp add: env_key_def is_blank_def)
  from parse_environment_items [OF this, of "[]"] show ?thesis by (simp add: um_put_def)
qed

text \<open>
  Two \<open>Environment=\<close> lines do not give two variables. The reader joins the values of a
  repeated key with the character 0x1F, which \<open>parse_environment\<close> does not treat as a
  separator: the second assignment becomes part of the first variable's value.
\<close>
theorem environment_lines_merge:
  assumes "env_key k1" and "\<forall>c\<in>set (v1 @ k2 @ v2). \<not> is_blank c" and "v1 \<noteq> []" and "hd v1 \<noteq> CHR 0x22"
  shows "parse_environment (glue (k1 @ ''='' @ v1) (k2 @ ''='' @ v2)) [] =
           [(k1, v1 @ [RS] @ k2 @ ''='' @ v2)]"
proof -
  have g: "glue (k1 @ ''='' @ v1) (k2 @ ''='' @ v2) = k1 @ CHR ''='' # (v1 @ [RS] @ k2 @ ''='' @ v2)"
    by (simp add: glue_def)
  have "parse_environment (k1 @ CHR ''='' # (v1 @ [RS] @ k2 @ ''='' @ v2)) [] =
      um_put k1 (v1 @ [RS] @ k2 @ ''='' @ v2) []"
    using assms by (intro parse_environment_unquoted) (auto simp: is_blank_def)
  then show ?thesis unfolding g by (simp add: um_put_def)
qed

theorem environment_lines_merge_witness:
  "parse_environment (glue ''FOO=1'' ''BAR=2'') [] = [(''FOO'', ''1'' @ [RS] @ ''BAR=2'')]"
proof -
  have "env_key ''FOO''" "\<forall>c\<in>set (''1'' @ ''BAR'' @ ''2''). \<not> is_blank c"
    by (simp_all add: env_key_def is_blank_def)
  from environment_lines_merge [OF this] show ?thesis by simp
qed

section \<open>The parse phase\<close>

definition unit_ident :: "unit_file \<Rightarrow> string \<times> string \<times> unit_type \<times> (string, section_map) umap" where
  "unit_ident u = (uf_name u, uf_path u, uf_type u, uf_raw_sections u)"

lemma unit_ident_update [simp]:
  "unit_ident (uf_description_update f1 u) = unit_ident u"
  "unit_ident (uf_wants_update f2 u) = unit_ident u"
  "unit_ident (uf_requires_update f3 u) = unit_ident u"
  "unit_ident (uf_after_update f4 u) = unit_ident u"
  "unit_ident (uf_before_update f5 u) = unit_ident u"
  "unit_ident (uf_conflicts_update f6 u) = unit_ident u"
  "unit_ident (uf_part_of_update f7 u) = unit_ident u"
  "unit_ident (uf_binds_to_update f8 u) = unit_ident u"
  "unit_ident (uf_conditions_update f9 u) = unit_ident u"
  "unit_ident (uf_assertions_update f10 u) = unit_ident u"
  "unit_ident (uf_exec_start_update f11 u) = unit_ident u"
  "unit_ident (uf_exec_stop_update f12 u) = unit_ident u"
  "unit_ident (uf_exec_reload_update f13 u) = unit_ident u"
  "unit_ident (uf_exec_start_pre_update f14 u) = unit_ident u"
  "unit_ident (uf_exec_start_post_update f15 u) = unit_ident u"
  "unit_ident (uf_type_str_update f16 u) = unit_ident u"
  "unit_ident (uf_restart_policy_update f17 u) = unit_ident u"
  "unit_ident (uf_user_update f18 u) = unit_ident u"
  "unit_ident (uf_group_update f19 u) = unit_ident u"
  "unit_ident (uf_working_directory_update f20 u) = unit_ident u"
  "unit_ident (uf_runtime_directory_update f21 u) = unit_ident u"
  "unit_ident (uf_pid_file_update f22 u) = unit_ident u"
  "unit_ident (uf_environment_update f23 u) = unit_ident u"
  "unit_ident (uf_dynamic_user_update f24 u) = unit_ident u"
  "unit_ident (uf_restart_limit_burst_update f25 u) = unit_ident u"
  "unit_ident (uf_restart_limit_interval_update f26 u) = unit_ident u"
  "unit_ident (uf_wanted_by_update f27 u) = unit_ident u"
  "unit_ident (uf_required_by_update f28 u) = unit_ident u"
  "unit_ident (uf_alias_update f29 u) = unit_ident u"
  "unit_ident (uf_what_update f30 u) = unit_ident u"
  "unit_ident (uf_where_update f31 u) = unit_ident u"
  "unit_ident (uf_mount_type_update f32 u) = unit_ident u"
  "unit_ident (uf_options_update f33 u) = unit_ident u"
  "unit_ident (uf_lazy_unmount_update f34 u) = unit_ident u"
  by (simp_all add: unit_ident_def)

lemma with_key_ident:
  "(\<And>v u. unit_ident (f v u) = unit_ident u) \<Longrightarrow> unit_ident (with_key sec k f u) = unit_ident u"
  by (simp add: with_key_def split: option.split)

lemma with_resolved_ident:
  "(\<And>v u. unit_ident (f v u) = unit_ident u) \<Longrightarrow>
   unit_ident (snd (with_resolved os sec k f cu)) = unit_ident (snd cu)"
  by (simp add: with_resolved_def with_key_def split_def Let_def split: option.split)

lemma fold_ident:
  "(\<And>x u. unit_ident (f x u) = unit_ident u) \<Longrightarrow> unit_ident (fold f xs u) = unit_ident u"
  by (induction xs arbitrary: u) auto

lemma scan_condition_ident: "unit_ident (scan_condition junk kv u) = unit_ident u"
proof -
  have "unit_ident (add_condition junk k v u) = unit_ident u"
    "unit_ident (add_assertion junk k v u) = unit_ident u" for k v u
    by (simp_all add: add_condition_def add_assertion_def unit_ident_def)
  then show ?thesis by (simp add: scan_condition_def fold_ident)
qed

lemma sections_ident:
  "unit_ident (apply_unit_section junk sec u) = unit_ident u"
  "unit_ident (apply_service_section os ctx sec u) = unit_ident u"
  "unit_ident (apply_install_section sec u) = unit_ident u"
  "unit_ident (apply_mount_section sec u) = unit_ident u"
  by (simp_all add: apply_unit_section_def apply_service_section_def apply_install_section_def
      apply_mount_section_def Let_def with_key_ident with_resolved_ident
      fold_ident [OF scan_condition_ident])

lemma parse_unit_ident:
  "unit_ident (parse_unit os junk path) =
     (path_basename path, path, unit_type_from_suffix (path_basename path), parse_ini os path)"
proof -
  have w: "unit_ident (with_section secs k f u) = unit_ident u"
    if "\<And>sec u. unit_ident (f sec u) = unit_ident u" for secs k f u
    using that by (simp add: with_section_def split: option.split)
  show ?thesis
    by (simp add: parse_unit_def Let_def w sections_ident) (simp add: unit_ident_def)
qed

lemma parse_unit_fields [simp]:
  "uf_name (parse_unit os junk path) = path_basename path"
  "uf_path (parse_unit os junk path) = path"
  "uf_type (parse_unit os junk path) = unit_type_from_suffix (path_basename path)"
  using parse_unit_ident [of os junk path] by (simp_all add: unit_ident_def)

text \<open>What the unit table promises its readers (\<open>UnitExecMixin\<close>, \<open>SocketMixin\<close>).\<close>

definition units_ok :: "'a unit_parse_st_scheme \<Rightarrow> bool" where
  "units_ok s \<longleftrightarrow> um_wf (units s) \<and>
     list_all (\<lambda>(n, u). uf_name u = n \<and> uf_type u = unit_type_from_suffix n \<and>
                        path_basename (uf_path u) = n) (units s)"

lemma units_okD:
  assumes "units_ok s" "find_unit n s = Some u"
  shows "uf_name u = n" "uf_type u = unit_type_from_suffix n" "path_basename (uf_path u) = n"
  using assms um_get_mem [of "units s" n u]
  by (auto simp: units_ok_def find_unit_def list_all_iff)

lemma list_all_um_put:
  assumes "um_wf m" "list_all P m" "P (k, v)"
  shows "list_all P (um_put k v m)"
proof -
  have "P (k', v')" if "(k', v') \<in> set (um_put k v m)" for k' v'
  proof -
    from that assms(1) have "um_get (um_put k v m) k' = Some v'"
      by (simp only: um_get_in [OF um.wf_put [OF assms(1)]])
    then have "k' = k \<and> v' = v \<or> um_get m k' = Some v'" by (auto split: if_splits)
    with assms show ?thesis by (auto simp: list_all_iff dest: um_get_mem)
  qed
  then show ?thesis by (auto simp: list_all_iff)
qed

lemma parse_path_units:
  "\<exists>os. units (parse_path K junk path s) =
     um_put (path_basename path) (parse_unit os (junk path) path) (units s)"
  by (rule exI [of _ "view K s"]) (simp add: parse_path_def Let_def)

lemma parse_path_frame [simp]:
  "discovered_paths (parse_path K junk path s) = discovered_paths s"
  "discovered_names (parse_path K junk path s) = discovered_names s"
  "trace (parse_path K junk path s) = trace s"
  by (simp_all add: parse_path_def Let_def)

lemma parse_path_ok: "units_ok s \<Longrightarrow> units_ok (parse_path K junk path s)"
  using parse_path_units [of K junk path s] by (auto simp: units_ok_def intro!: list_all_um_put)

lemma parse_path_ext: "journal_ext s (parse_path K junk path s)"
proof -
  have "journal_ext s (log_fmt K Debug ''parser'' f as (tick s))" for f as
    by (intro ext_steps) simp
  then show ?thesis by (simp add: parse_path_def Let_def journal_ext_def)
qed

interpretation parse_path: journalled "parse_path K junk path" for K junk path
  by unfold_locales (rule parse_path_ext)

lemma parse_paths:
  assumes "units_ok s"
  shows "units_ok (fold (parse_path K junk) ps s) \<and>
     set (um_keys (units (fold (parse_path K junk) ps s))) = set (um_keys (units s)) \<union> path_basename ` set ps"
  using assms
proof (induction ps arbitrary: s)
  case (Cons p ps)
  obtain os where "units (parse_path K junk p s) = um_put (path_basename p) (parse_unit os (junk p) p) (units s)"
    using parse_path_units by blast
  with Cons parse_path_ok [OF Cons.prems] show ?case by auto
qed simp

text \<open>
  C21: the parse phase succeeds and builds a table with one unit per base name of the
  discovered paths: each unit is stored under its own name, its type is the one its suffix
  says, and its path ends in its name.
\<close>
theorem execute_UnitParse_units:
  assumes "units_ok s"
  shows "fst (execute_UnitParse K junk s) = 0 \<and>
     units_ok (snd (execute_UnitParse K junk s)) \<and>
     set (um_keys (units (snd (execute_UnitParse K junk s)))) =
       set (um_keys (units s)) \<union> path_basename ` set (discovered_paths s)"
proof -
  have "units_ok (log K Info ''parser'' ''Parsing unit files'' s)"
    using assms by (simp add: units_ok_def)
  note p = parse_paths [OF this, of K junk "discovered_paths s"]
  then show ?thesis by (simp add: execute_UnitParse_def Let_def units_ok_def)
qed

theorem execute_UnitParse_units_witness:
  "units_ok (init_system_new\<lparr>discovered_paths := [''/etc/systemd/system/a.service'', ''/lib/systemd/system/b.target'']\<rparr>) \<and>
   (\<forall>K junk. set (um_keys (units (snd (execute_UnitParse K junk
      (init_system_new\<lparr>discovered_paths := [''/etc/systemd/system/a.service'', ''/lib/systemd/system/b.target'']\<rparr>)))))
    = {''a.service'', ''b.target''})"
proof -
  let ?s = "init_system_new\<lparr>discovered_paths := [''/etc/systemd/system/a.service'', ''/lib/systemd/system/b.target'']\<rparr>"
  have ok: "units_ok ?s" by (simp add: units_ok_def init_system_new_def)
  have "path_basename ''/etc/systemd/system/a.service'' = ''a.service''"
    "path_basename ''/lib/systemd/system/b.target'' = ''b.target''"
    by (simp_all add: path_basename_def)
  with ok execute_UnitParse_units [OF ok] show ?thesis
    by (simp add: init_system_new_def um_keys_def)
qed

end
