(* ===== verification/Restart.thy ===== *)
theory Restart
  imports Process Unit_Parse "HOL-Library.Multiset"
begin

text \<open>
  Supervision of services (\<open>src/include/trivialInit/mixins/process.hpp\<close>): the invariant of
  the process table over every sequence of operations, what reaping, draining and stopping
  do, the back-off and the start limit, and the order in which a child drops privileges.
\<close>

section \<open>The table invariant over all operations\<close>

lemma restart_entry_counts:
  "\<lbrakk>restart_entry now code signaled tp = Some e; 0 \<le> tp_restart_count tp; 0 \<le> tp_burst_count tp\<rbrakk> \<Longrightarrow>
   0 \<le> pr_restart_count e \<and> 0 \<le> pr_burst_count e"
  by (auto simp: restart_entry_def bump_burst_def Let_def split: if_splits)

lemma reap_one_inv:
  assumes inv: "process_inv s"
  shows "process_inv (reap_one K (pid, st) s)"
proof (cases "um_get (processes s) pid")
  case None
  then show ?thesis by (intro process_inv_frame [OF inv]) (simp_all add: reap_one_untracked)
next
  case (Some tp)
  note D = process_invD [OF inv]
  let ?t = "reap_one K (pid, st) s"
  note R = reap_one_tracked [OF Some, of K st]
  have pend: "0 \<le> pr_restart_count pr \<and> 0 \<le> pr_burst_count pr" if "pr \<in> set (pending_restarts ?t)" for pr
    using that D(3) [OF Some] D(5) restart_entry_counts
    by (fastforce simp: R tracked_ok_def split: option.splits)
  have "\<exists>tp'. um_get (processes ?t) p = Some tp' \<and> tp_unit_name tp' = u"
    if "um_get (unit_to_pid ?t) u = Some p" for u p
    using that D(4) [of u p] Some by (auto simp: R split: if_splits)
  then show ?thesis
    using D(1-3,6) pend unfolding process_inv_def
    by (auto simp: R split: if_splits)
qed

lemma reap_children_inv: "process_inv s \<Longrightarrow> process_inv (reap_children K s)"
  unfolding reap_children_def
  by (rule fold_inv) (auto simp: reap_one_inv intro: process_inv_frame)

lemma drain_loop_spec:
  "fst (drain_loop now prs c) = map pr_unit_name (filter (\<lambda>pr. pr_when pr \<le> now) prs)"
  "fst (snd (drain_loop now prs c)) = filter (\<lambda>pr. \<not> pr_when pr \<le> now) prs"
  "snd (snd (drain_loop now prs c)) =
     fold (\<lambda>pr. um_put (pr_unit_name pr)
             \<lparr>rm_restart_count = pr_restart_count pr, rm_burst_count = pr_burst_count pr,
              rm_burst_window_start = pr_burst_window_start pr\<rparr>)
       (filter (\<lambda>pr. pr_when pr \<le> now) prs) c"
  by (induction now prs c rule: drain_loop.induct) (auto simp: Let_def split_def)

lemma drain_result:
  "fst (drain_pending_restarts K s) =
     map pr_unit_name (filter (\<lambda>pr. pr_when pr \<le> k_mono K (ticks s)) (pending_restarts s))"
  "pending_restarts (snd (drain_pending_restarts K s)) =
     filter (\<lambda>pr. \<not> pr_when pr \<le> k_mono K (ticks s)) (pending_restarts s)"
  "restart_counts (snd (drain_pending_restarts K s)) =
     snd (snd (drain_loop (k_mono K (ticks s)) (pending_restarts s) (restart_counts s)))"
  "processes (snd (drain_pending_restarts K s)) = processes s"
  "unit_to_pid (snd (drain_pending_restarts K s)) = unit_to_pid s"
  "trace (snd (drain_pending_restarts K s)) = trace s"
  by (simp_all add: drain_pending_restarts_def Let_def split_def drain_loop_spec)

lemma drain_loop_counts:
  assumes "\<And>pr. pr \<in> set prs \<Longrightarrow> 0 \<le> pr_restart_count pr \<and> 0 \<le> pr_burst_count pr"
    and "\<And>u m. um_get c u = Some m \<Longrightarrow> 0 \<le> rm_restart_count m \<and> 0 \<le> rm_burst_count m"
    and "um_get (snd (snd (drain_loop now prs c))) u = Some m"
  shows "0 \<le> rm_restart_count m \<and> 0 \<le> rm_burst_count m"
  using assms
proof (induction now prs c arbitrary: u m rule: drain_loop.induct)
  case (1 now counts)
  then show ?case by simp
next
  case (2 now pr prs counts)
  show ?case
  proof (cases "pr_when pr \<le> now")
    case True
    show ?thesis
      by (rule 2(1) [OF True refl])
         (use 2(3-5) True in \<open>auto simp: Let_def split_def split: if_splits\<close>)
  next
    case False
    show ?thesis
      by (rule 2(2) [OF False])
         (use 2(3-5) False in \<open>auto simp: Let_def split_def\<close>)
  qed
qed

lemma drain_inv:
  assumes "process_inv s"
  shows "process_inv (snd (drain_pending_restarts K s))"
proof -
  note D = process_invD [OF assms]
  have "0 \<le> rm_restart_count m \<and> 0 \<le> rm_burst_count m"
    if "um_get (restart_counts (snd (drain_pending_restarts K s))) u = Some m" for u m
    by (rule drain_loop_counts [OF D(5,6) that [unfolded drain_result(3)]])
  then show ?thesis
    using assms unfolding process_inv_def by (simp add: drain_result)
qed

lemma processes_update_inv:
  assumes inv: "process_inv s" and p: "um_get (processes s) p = Some tp"
    and tp': "tracked_ok p tp'" "tp_unit_name tp' = tp_unit_name tp"
  shows "process_inv (s\<lparr>processes := um_put p tp' (processes s)\<rparr>)"
  using process_invD [OF inv] p tp'
  by (auto simp: process_inv_def split: if_splits) fastforce+

lemma apply_restart_count_inv:
  assumes inv: "process_inv s"
  shows "process_inv (apply_restart_count p u s)"
proof (cases "um_get (restart_counts s) u")
  case None
  with inv show ?thesis by (simp add: apply_restart_count_def)
next
  case (Some m)
  note D = process_invD [OF inv]
  have e: "process_inv (t\<lparr>restart_counts := um_erase u (restart_counts t)\<rparr>)" if "process_inv t"
    for t :: "'a process_st_scheme"
    using process_invD [OF that] by (auto simp: process_inv_def split: if_splits)
  show ?thesis
  proof (cases "um_get (processes s) p")
    case None
    with Some e [OF inv] show ?thesis by (simp add: apply_restart_count_def Let_def)
  next
    case (Some tp)
    have "tracked_ok p (tp\<lparr>tp_restart_count := rm_restart_count m, tp_burst_count := rm_burst_count m,
        tp_burst_window_start := rm_burst_window_start m\<rparr>)"
      using D(3) [OF Some] D(6) [OF \<open>um_get (restart_counts s) u = Some m\<close>] by (auto simp: tracked_ok_def)
    from e [OF processes_update_inv [OF inv Some this]] show ?thesis
      using Some \<open>um_get (restart_counts s) u = Some m\<close> by (simp add: apply_restart_count_def Let_def)
  qed
qed

lemma stop_unit_tracked:
  assumes "um_get (unit_to_pid s) u = Some p" and "um_get (processes s) p = Some tp"
  shows "snd (stop_unit K u s) =
     sys_do K (Kill p SIGTERM) ((log_fmt K Info ''process'' ''Stopping {}'' [u] s)
       \<lparr>processes := um_put p (tp\<lparr>tp_restart_policy := RP_No\<rparr>) (processes s)\<rparr>)"
  using assms by (simp add: stop_unit_def Let_def)

lemma stop_unit_inv:
  assumes inv: "process_inv s"
  shows "process_inv (snd (stop_unit K u s))"
proof (cases "um_get (unit_to_pid s) u")
  case None
  with inv show ?thesis by (simp add: stop_unit_def)
next
  case (Some p)
  then obtain tp where tp: "um_get (processes s) p = Some tp" using process_invD(4) [OF inv] by blast
  let ?l = "log_fmt K Info ''process'' ''Stopping {}'' [u] s"
  have l: "process_inv ?l" by (rule process_inv_frame [OF inv]) simp_all
  have "process_inv (?l\<lparr>processes := um_put p (tp\<lparr>tp_restart_policy := RP_No\<rparr>) (processes ?l)\<rparr>)"
    by (rule processes_update_inv [OF l]) (use tp process_invD(3) [OF inv tp] in \<open>auto simp: tracked_ok_def\<close>)
  then show ?thesis
    by (subst stop_unit_tracked [OF Some tp]) (erule process_inv_frame; simp)
qed

text \<open>Every way the program changes the table, in any order and any number of times.\<close>

inductive proc_step :: "kernel \<Rightarrow> 'a socket_st_scheme \<Rightarrow> 'a socket_st_scheme \<Rightarrow> bool" for K where
  ps_spawn: "um_get (processes s) (k_ret K (ticks s) Fork) = None \<Longrightarrow>
    proc_step K s (snd (spawn K u path args pol bl bi ctx s))"
| ps_track: "\<lbrakk>0 < p; um_get (processes s) p = None\<rbrakk> \<Longrightarrow> proc_step K s (track_process p u restart s)"
| ps_reap: "proc_step K s (reap_children K s)"
| ps_drain: "proc_step K s (snd (drain_pending_restarts K s))"
| ps_apply: "proc_step K s (apply_restart_count p u s)"
| ps_stop: "proc_step K s (snd (stop_unit K u s))"
| ps_signal: "proc_step K s (snd (signal_unit K u sig s))"

lemma proc_step_inv:
  assumes "proc_step K s t" and "process_inv s"
  shows "process_inv t"
  using assms
proof cases
  case ps_signal
  with assms(2) show ?thesis
    by (auto simp: signal_unit_def intro: process_inv_frame split: option.split)
qed (auto intro: spawn_inv track_process.track_inv reap_children_inv drain_inv
       apply_restart_count_inv stop_unit_inv)


definition demo_kernel :: kernel where
  "demo_kernel = \<lparr>k_ret = (\<lambda>n c. case c of Fork \<Rightarrow> 100 + int n | _ \<Rightarrow> 0), k_view = (\<lambda>_. no_os),
     k_wall = int, k_mono = (\<lambda>n. int n * NS_PER_S), k_reap = (\<lambda>n. if n = 2 then [(100, 9)] else []),
     k_wstatus = (\<lambda>_. 0), k_signals = (\<lambda>_. []), k_epoll = (\<lambda>_. (0, [])), k_getch = (\<lambda>_. -1), k_winsize = (\<lambda>_. (24, 80)), k_newwin = (\<lambda>_. True), k_strerror = (\<lambda>_. ''error''),
     k_errno = (\<lambda>_. 0), k_fds = (\<lambda>_ fd. if 0 \<le> fd \<and> fd < 8 then Some (nat fd) else None)\<rparr>"

definition demo_spawned :: init_system where
  "demo_spawned = snd (spawn demo_kernel ''a.service'' ''/bin/a'' [] RP_OnFailure 5 10 None init_system_new)"


text \<open>C7: reaping one child. An orphan changes nothing in the table. A tracked child is removed from
  both maps, and exactly one restart is queued if and only if its policy asks for one for this
  exit (a signal counts as a failure with code 128 plus the signal) and the start limit is not
  exhausted; the entry carries the unit, the attempt number, the burst window and the moment
  now plus the back-off.\<close>

theorem reap_one_effect:
  "case um_get (processes s) pid of
     None \<Rightarrow> processes (reap_one K (pid, st) s) = processes s \<and>
       unit_to_pid (reap_one K (pid, st) s) = unit_to_pid s \<and>
       pending_restarts (reap_one K (pid, st) s) = pending_restarts s
   | Some tp \<Rightarrow>
       (let now = reap_now K pid (exit_code_of st) tp s;
            fresh = tp_burst_interval_s tp * NS_PER_S < now - tp_burst_window_start tp;
            burst = (if fresh then 1 else tp_burst_count tp + 1);
            wanted = should_restart (tp_restart_policy tp) (exit_code_of st) (WIFSIGNALED st)
        in processes (reap_one K (pid, st) s) = um_erase pid (processes s) \<and>
           unit_to_pid (reap_one K (pid, st) s) = um_erase (tp_unit_name tp) (unit_to_pid s) \<and>
           pending_restarts (reap_one K (pid, st) s) = pending_restarts s @
             (if wanted \<and> burst \<le> tp_burst_limit tp
              then [\<lparr>pr_unit_name = tp_unit_name tp,
                     pr_when = now + restart_delay_ms (tp_restart_count tp) * NS_PER_MS,
                     pr_restart_count = tp_restart_count tp + 1, pr_burst_count = burst,
                     pr_burst_window_start = (if fresh then now else tp_burst_window_start tp)\<rparr>]
              else []))"
  by (simp add: reap_one_untracked reap_one_tracked restart_entry_def bump_burst_def Let_def split: option.split)

text \<open>Draining the restart queue. The entries whose time has come are returned in queue order, the
  others stay in order; nothing is lost or duplicated, and the counters handed to the next
  incarnation of a unit are those of its last due entry.\<close>

theorem drain_partition:
  "let now = k_mono K (ticks s); due = filter (\<lambda>pr. pr_when pr \<le> now) (pending_restarts s)
   in fst (drain_pending_restarts K s) = map pr_unit_name due \<and>
      pending_restarts (snd (drain_pending_restarts K s)) =
        filter (\<lambda>pr. now < pr_when pr) (pending_restarts s) \<and>
      mset due + mset (pending_restarts (snd (drain_pending_restarts K s))) = mset (pending_restarts s) \<and>
      (\<forall>u. um_get (restart_counts (snd (drain_pending_restarts K s))) u =
         (case find (\<lambda>pr. pr_unit_name pr = u) (rev due) of
            None \<Rightarrow> um_get (restart_counts s) u
          | Some pr \<Rightarrow> Some \<lparr>rm_restart_count = pr_restart_count pr, rm_burst_count = pr_burst_count pr,
                            rm_burst_window_start = pr_burst_window_start pr\<rparr>))"
proof -
  let ?meta = "\<lambda>pr :: pending_restart. \<lparr>rm_restart_count = pr_restart_count pr, rm_burst_count = pr_burst_count pr,
                     rm_burst_window_start = pr_burst_window_start pr\<rparr>"
  have "um_get (fold (\<lambda>pr. um_put (pr_unit_name pr) (?meta pr)) prs c) u =
      (case find (\<lambda>pr. pr_unit_name pr = u) (rev prs) of None \<Rightarrow> um_get c u | Some pr \<Rightarrow> Some (?meta pr))"
    for prs c u
    by (induction prs rule: rev_induct) auto
  then show ?thesis
    by (simp add: Let_def drain_result drain_loop_spec flip: not_le)
qed

text \<open>C10: stopping a unit. If the unit has a process, that process (and no other) is sent
  \<open>SIGTERM\<close>, every other table entry is untouched, and whatever status the process then exits
  with, reaping it removes it and queues no restart, so the unit stays down. A unit without
  a process is left alone.\<close>

theorem stop_unit_stays_down:
  assumes inv: "process_inv s"
  shows "case um_get (unit_to_pid s) u of
     None \<Rightarrow> stop_unit K u s = (0, s)
   | Some p \<Rightarrow>
       (let t = snd (stop_unit K u s); r = reap_one K' (p, st) t
        in trace t = trace s @ [Kill p SIGTERM] \<and>
           (\<exists>tp. um_get (processes s) p = Some tp \<and> tp_unit_name tp = u \<and>
                 um_get (processes t) p = Some (tp\<lparr>tp_restart_policy := RP_No\<rparr>)) \<and>
           (\<forall>q. q \<noteq> p \<longrightarrow> um_get (processes t) q = um_get (processes s) q) \<and>
           um_get (processes r) p = None \<and> um_get (unit_to_pid r) u = None \<and>
           pending_restarts r = pending_restarts s)"
proof (cases "um_get (unit_to_pid s) u")
  case None
  then show ?thesis by (simp add: stop_unit_def)
next
  case (Some p)
  then obtain tp where tp: "um_get (processes s) p = Some tp" "tp_unit_name tp = u"
    using process_invD(4) [OF inv] by blast
  let ?t = "snd (stop_unit K u s)"
  have t: "trace ?t = trace s @ [Kill p SIGTERM]" "pending_restarts ?t = pending_restarts s"
    "processes ?t = um_put p (tp\<lparr>tp_restart_policy := RP_No\<rparr>) (processes s)"
    by (simp_all add: stop_unit_tracked [OF Some tp(1)])
  then have p: "um_get (processes ?t) p = Some (tp\<lparr>tp_restart_policy := RP_No\<rparr>)" by simp
  have no: "restart_entry now code sg (tp\<lparr>tp_restart_policy := RP_No\<rparr>) = None" for now code sg
    by (simp add: restart_entry_def should_restart_def)
  show ?thesis
    using Some tp t p reap_one_tracked [OF p, of K' st] by (simp add: no Let_def)
qed

theorem stop_unit_stays_down_witness:
  "process_inv demo_spawned \<and> um_get (unit_to_pid demo_spawned) ''a.service'' = Some 100 \<and>
   trace (snd (stop_unit demo_kernel ''a.service'' demo_spawned)) = trace demo_spawned @ [Kill 100 SIGTERM]"
proof -
  have inv: "process_inv demo_spawned"
    unfolding demo_spawned_def by (rule spawn_inv) (simp_all add: process_inv_def init_system_new_def)
  have p: "um_get (unit_to_pid demo_spawned) ''a.service'' = Some 100" by code_simp
  from stop_unit_stays_down [OF inv, where u = "''a.service''" and K = demo_kernel and K' = demo_kernel and st = 0] inv p show ?thesis
    by (simp add: Let_def)
qed

section \<open>Back-off and start limit\<close>

text \<open>C24: the restart delay doubles with every attempt from 100 ms up to ten minutes: capping the shift
  at 13 gives the same value as unbounded doubling, so the delay never decreases and the
  32-bit shift cannot overflow.\<close>

theorem restart_delay_backoff:
  assumes "0 \<le> n"
  shows "restart_delay_ms n = min (100 * 2 ^ nat n) 600000 \<and>
    100 \<le> restart_delay_ms n \<and> restart_delay_ms n \<le> 600000 \<and>
    restart_delay_ms n \<le> restart_delay_ms (n + 1) \<and>
    (2 :: int) ^ nat (min n 13) < 2 ^ 31"
proof -
  have eq: "restart_delay_ms m = min (100 * 2 ^ nat m) 600000" if "0 \<le> m" for m
  proof (cases "m \<le> 13")
    case False
    then have "(2 :: int) ^ 13 \<le> 2 ^ nat m" by (intro power_increasing) simp_all
    with False show ?thesis by (simp add: restart_delay_ms_def min_def)
  qed (simp add: restart_delay_ms_def)
  have "(1 :: int) \<le> 2 ^ nat n" by simp
  moreover have "(2 :: int) ^ nat (n + 1) = 2 * 2 ^ nat n" using assms by (simp add: nat_add_distrib)
  moreover have "(2 :: int) ^ nat (min n 13) \<le> 2 ^ 13" by (intro power_increasing) simp_all
  ultimately show ?thesis using assms eq [of n] eq [of "n + 1"] by (simp add: min_def)
qed

theorem restart_delay_backoff_witness:
  "(0 :: int) \<le> 3 \<and> restart_delay_ms 3 = 800 \<and> restart_delay_ms 20 = 600000"
  using restart_delay_backoff [of 3] restart_delay_backoff [of 20] by (simp add: min_def)

text \<open>
  The life of a service that keeps crashing: \<open>ts\<close> are the clock readings of its exits. Each
  granted restart hands its counters to the next incarnation; the first refusal ends the loop.
\<close>

definition next_life :: "pending_restart \<Rightarrow> tracked_process \<Rightarrow> tracked_process" where
  "next_life e tp = tp\<lparr>tp_restart_count := pr_restart_count e, tp_burst_count := pr_burst_count e,
                       tp_burst_window_start := pr_burst_window_start e\<rparr>"

fun crash_loop :: "int \<Rightarrow> bool \<Rightarrow> tracked_process \<Rightarrow> int list \<Rightarrow> int list" where
  "crash_loop code signaled tp [] = []"
| "crash_loop code signaled tp (t # ts) =
     (case restart_entry t code signaled tp of
        None \<Rightarrow> []
      | Some e \<Rightarrow> t # crash_loop code signaled (next_life e tp) ts)"

lemma next_life_simps:
  assumes "restart_entry t c g tp = Some e"
  shows "tp_burst_limit (next_life e tp) = tp_burst_limit tp"
    "tp_burst_interval_s (next_life e tp) = tp_burst_interval_s tp"
    "tp_burst_count (next_life e tp) \<le> tp_burst_limit tp"
    "tp_burst_count (next_life e tp) =
       (if tp_burst_interval_s tp * NS_PER_S < t - tp_burst_window_start tp then 1 else tp_burst_count tp + 1)"
    "tp_burst_window_start (next_life e tp) =
       (if tp_burst_interval_s tp * NS_PER_S < t - tp_burst_window_start tp then t else tp_burst_window_start tp)"
  using assms by (auto simp: restart_entry_def next_life_def bump_burst_def Let_def split: if_splits)

lemma crash_loop_subset: "set (crash_loop c g tp ts) \<subseteq> set ts"
proof (induction c g tp ts rule: crash_loop.induct)
  case (2 c g tp t ts)
  then show ?case by (cases "restart_entry t c g tp") auto
qed simp

lemma crash_loop_window:
  assumes "b \<le> tp_burst_window_start tp + tp_burst_interval_s tp * NS_PER_S" "tp_burst_count tp \<le> tp_burst_limit tp"
  shows "int (length (filter (\<lambda>t. t \<le> b) (crash_loop c g tp ts))) \<le> tp_burst_limit tp - tp_burst_count tp
         \<or> \<not> sorted ts"
  using assms
proof (induction c g tp ts rule: crash_loop.induct)
  case (2 c g tp t ts)
  show ?case
  proof (cases "restart_entry t c g tp")
    case None
    with 2(3) show ?thesis by simp
  next
    case (Some e)
    note N = next_life_simps [OF Some]
    have late: "filter (\<lambda>t. t \<le> b) (crash_loop c g tp' ts) = []" if "b < t" "sorted (t # ts)" for tp'
      using that crash_loop_subset [of c g tp' ts] by (fastforce simp: filter_empty_conv)
    show ?thesis
    proof (cases "b < t")
      case True
      with late 2(3) Some show ?thesis by auto
    next
      case False
      with 2(2) N have "tp_burst_window_start (next_life e tp) = tp_burst_window_start tp"
        "tp_burst_count (next_life e tp) = tp_burst_count tp + 1" by auto
      with 2(1) [OF Some] 2(2) N False Some show ?thesis by auto
    qed
  qed
qed simp

lemma crash_loop_two_windows:
  assumes "\<forall>t\<in>set ts. a \<le> t" "sorted ts" "b \<le> a + tp_burst_interval_s tp * NS_PER_S"
    and "0 \<le> tp_burst_count tp" "tp_burst_count tp \<le> tp_burst_limit tp"
  shows "int (length (filter (\<lambda>t. t \<le> b) (crash_loop c g tp ts))) \<le> 2 * tp_burst_limit tp - tp_burst_count tp"
  using assms
proof (induction c g tp ts rule: crash_loop.induct)
  case (2 c g tp t ts)
  show ?case
  proof (cases "restart_entry t c g tp")
    case None
    with 2(5,6) show ?thesis by simp
  next
    case (Some e)
    note N = next_life_simps [OF Some]
    show ?thesis
    proof (cases "tp_burst_interval_s tp * NS_PER_S < t - tp_burst_window_start tp")
      case True
      with crash_loop_window [of b "next_life e tp" c g ts] 2(2-6) N Some show ?thesis
        by (auto split: if_splits)
    next
      case False
      with 2(1) [OF Some] 2(2-6) N Some show ?thesis by auto
    qed
  qed
qed simp


definition demo_crashing :: tracked_process where
  "demo_crashing = tracked_new\<lparr>tp_restart_policy := RP_Always, tp_burst_limit := 2\<rparr>"


text \<open>C23: one turn of the restart cycle. When a reaped process earns a restart \<open>e\<close>, a later drain at
  or after its time returns the unit; spawning the unit under a new pid and handing over the
  counters gives a running process with the attempt number one higher and the burst window of
  \<open>e\<close>, and the hand-over record is consumed. So consecutive crashes follow \<open>crash_loop\<close>.\<close>

theorem restart_cycle:
  assumes p: "um_get (processes s) p = Some tp"
    and e: "restart_entry (reap_now K p (exit_code_of st) tp s) (exit_code_of st) (WIFSIGNALED st) tp = Some e"
    and due: "pr_when e \<le> k_mono K1 (ticks (reap_one K (p, st) s))"
    and d: "d = drain_pending_restarts K1 (reap_one K (p, st) s)"
    and q: "spawn K2 (tp_unit_name tp) path args (tp_restart_policy tp) (tp_burst_limit tp)
              (tp_burst_interval_s tp) ctx (snd d) = (q, t)" "0 < q"
  shows "tp_unit_name tp \<in> set (fst d) \<and>
    um_get (processes (apply_restart_count q (tp_unit_name tp) t)) q =
      Some (next_life e (tracked_new\<lparr>tp_pid := q, tp_unit_name := tp_unit_name tp, tp_state := Running,
        tp_exit_code := -1, tp_restart_policy := tp_restart_policy tp, tp_burst_limit := tp_burst_limit tp,
        tp_burst_interval_s := tp_burst_interval_s tp\<rparr>)) \<and>
    pr_restart_count e = tp_restart_count tp + 1 \<and>
    um_get (restart_counts (apply_restart_count q (tp_unit_name tp) t)) (tp_unit_name tp) = None"
proof -
  let ?u = "tp_unit_name tp" and ?r = "reap_one K (p, st) s"
  have eu: "pr_unit_name e = ?u" "pr_restart_count e = tp_restart_count tp + 1"
    using e by (auto simp: restart_entry_def Let_def split: if_splits)
  have pend: "pending_restarts ?r = pending_restarts s @ [e]"
    using reap_one_tracked(4) [OF p] e by simp
  have ready: "?u \<in> set (fst d)"
    using due eu by (auto simp: d drain_result pend)
  have cnt: "um_get (restart_counts (snd d)) ?u = Some \<lparr>rm_restart_count = pr_restart_count e,
      rm_burst_count = pr_burst_count e, rm_burst_window_start = pr_burst_window_start e\<rparr>"
    using due eu by (simp add: d drain_result drain_loop_spec pend)
  have q': "k_ret K2 (ticks (snd d)) Fork = q"
    using q spawn_result(2) [of K2 ?u path args "tp_restart_policy tp" "tp_burst_limit tp" "tp_burst_interval_s tp" ctx "snd d"]
    by (simp add: max_def split: if_splits)
  have t: "t = log_fmt K2 Info ''process'' ''Started {} (PID {})'' [?u, show_int q]
      (spawn_track (tp_restart_policy tp) (tp_burst_limit tp) (tp_burst_interval_s tp) q ?u (snd (sys K2 Fork (snd d))))"
    using q spawn_result(1) [of K2 ?u path args "tp_restart_policy tp" "tp_burst_limit tp" "tp_burst_interval_s tp" ctx "snd d"] q'
    by (simp add: Let_def)
  have "um_get (restart_counts t) ?u = um_get (restart_counts (snd d)) ?u"
    by (simp add: t spawn_track.track_rest)
  then show ?thesis
    using cnt ready eu by (simp add: apply_restart_count_def Let_def next_life_def) (simp add: t spawn_track_def Let_def)
qed

definition demo_crash_kernel :: kernel where
  "demo_crash_kernel = demo_kernel\<lparr>k_mono := (\<lambda>n. int n * 10 * NS_PER_S)\<rparr>"

theorem restart_cycle_witness:
  "let r = reap_one demo_crash_kernel (100, 9) demo_spawned;
       d = drain_pending_restarts demo_crash_kernel r;
       t = snd (spawn demo_crash_kernel ''a.service'' ''/bin/a'' [] RP_OnFailure 5 10 None (snd d))
   in fst d = [''a.service''] \<and>
      map_option tp_restart_count (um_get (processes (apply_restart_count 106 ''a.service'' t)) 106) = Some 1"
proof -
  let ?K = demo_crash_kernel
  let ?tp = "the (um_get (processes demo_spawned) 100)"
  let ?r = "reap_one ?K (100, 9) demo_spawned"
  let ?d = "drain_pending_restarts ?K ?r"
  let ?e = "the (restart_entry (reap_now ?K 100 137 ?tp demo_spawned) 137 True ?tp)"
  have tp: "um_get (processes demo_spawned) 100 = Some ?tp" "tp_unit_name ?tp = ''a.service''"
    "tp_restart_policy ?tp = RP_OnFailure" "tp_burst_limit ?tp = 5" "tp_burst_interval_s ?tp = 10"
    "tp_restart_count ?tp = 0"
    by code_simp+
  have e: "restart_entry (reap_now ?K 100 (exit_code_of 9) ?tp demo_spawned) (exit_code_of 9) (WIFSIGNALED 9) ?tp = Some ?e"
    "pr_when ?e \<le> k_mono ?K (ticks ?r)"
    by code_simp+
  have f: "fst ?d = [''a.service'']" by code_simp
  have q: "spawn ?K (tp_unit_name ?tp) ''/bin/a'' [] (tp_restart_policy ?tp) (tp_burst_limit ?tp)
      (tp_burst_interval_s ?tp) None (snd ?d) =
    (106, snd (spawn ?K ''a.service'' ''/bin/a'' [] RP_OnFailure 5 10 None (snd ?d)))"
    unfolding tp(2-5) by (rule prod_eqI) (simp_all, code_simp)
  from restart_cycle [OF tp(1) e(1) e(2) refl q] tp(2-6) f show ?thesis
    by (simp add: Let_def next_life_def)
qed

section \<open>Credentials\<close>

fun changes_credentials :: "syscall \<Rightarrow> bool" where
  "changes_credentials (Setgid _) = True"
| "changes_credentials (Setuid _) = True"
| "changes_credentials (Initgroups _ _) = True"
| "changes_credentials _ = False"

lemmas child_defs = spawn_child_def ch_seq_def ch_emit_def ch_bind_def ch_done_def run_service_def
  setup_child_context_def Let_def

lemma env_calls_plain [simp]: "c \<in> set (env_calls u) \<Longrightarrow> \<not> changes_credentials c"
  by (auto simp: env_calls_def)

lemma runtime_dir_calls_plain:
  "c \<in> set (fst (runtime_dir_calls os u)) \<Longrightarrow> \<not> changes_credentials c"
  by (auto simp: runtime_dir_calls_def child_defs split: if_splits sum.splits)

lemma drop_privileges_shape:
  assumes "snd (drop_privileges os u uid g) = None" "g \<noteq> -1"
  shows "\<exists>post. fst (drop_privileges os u uid g) = [Setgid g, Initgroups (uf_user u) g, Setuid uid] @ post \<and>
      (\<forall>c\<in>set post. \<not> changes_credentials c)"
  using assms by (auto simp: drop_privileges_def child_defs split: sum.splits)


definition demo_passwd :: osview where
  "demo_passwd = no_os\<lparr>os_file := (\<lambda>p. if p = ''/etc/passwd''
     then Some (''root:x:0:0:root:/root:/bin/sh'' @ [CHR 0x0A] @ ''web:x:33:33::/srv:/bin/sh'' @ [CHR 0x0A]) else None)\<rparr>"

definition demo_web :: unit_file where
  "demo_web = unit_file_init\<lparr>uf_user := ''web'', uf_runtime_directory := ''web''\<rparr>"


text \<open>C40: a numeric \<open>User=\<close> or \<open>Group=\<close> of up to 64 bits is accepted and cut to 32 bits: every multiple of
  \<open>2^32\<close> becomes root, while anything larger aborts with \<open>out_of_range\<close>.\<close>

theorem numeric_user_truncated:
  "lookup_uid os (show_nat n) = (if int n < 2 ^ 64 then Inr (of_nat n) else Inl OutOfRange) \<and>
   lookup_gid os (show_nat n) = lookup_uid os (show_nat n) \<and>
   lookup_uid os ''4294967296'' = Inr 0"
proof -
  have sp: "\<not> is_space c" "c \<noteq> CHR ''-''" "c \<noteq> CHR ''+''" if "is_digit c" for c
    using that by (auto simp: is_digit_def is_space_def)
  have d: "is_digit (hd (show_nat n))" for n
    using show_nat_digits [of n] by (simp add: list.set_sel)
  have "stoul (show_nat n) = (if int n < 2 ^ 64 then Inr (of_nat n) else Inl OutOfRange)" for n
  proof -
    have dw: "dropWhile is_space (show_nat n) = show_nat n"
      using sp(1) [OF d [of n]] by (cases "show_nat n") simp_all
    have tw: "takeWhile is_digit (show_nat n) = show_nat n"
      using takeWhile_show_nat [of "[]" n] by simp
    show ?thesis
      using sp [OF d [of n]] by (simp add: stoul_def Let_def dw tw dec_val_show_nat)
  qed
  moreover have "list_all is_digit (show_nat n)" for n
    using show_nat_digits [of n] by (simp add: list_all_iff)
  moreover have "ucast (of_nat n :: 64 word) = (of_nat n :: 32 word)" for n
    by transfer simp
  moreover have "to_uid ''4294967296'' = Inr 0" "list_all is_digit ''4294967296''"
    by (simp_all add: to_uid_def stoul_def is_space_def is_digit_def dec_val_def digit_val_def Let_def)
  ultimately show ?thesis
    by (simp add: lookup_uid_def lookup_gid_def lookup_id_def to_uid_def)
qed

end
