(* ===== verification/Sockets.thy ===== *)
theory Sockets
  imports Restart
begin

unbundle bit_operations_syntax

text \<open>
  \<open>SocketMixin\<close> (\<open>src/include/trivialInit/mixins/socket.hpp\<close>): parsing of \<open>[Socket]\<close>
  sections, binding, the descriptors handed to an activated service, and \<open>Accept=yes\<close>
  connections.
\<close>

section \<open>Value parsers\<close>

definition SD_LISTEN_FDS_START :: int where "SD_LISTEN_FDS_START = 3"

definition parse_inet_addr :: "string \<Rightarrow> string \<times> int" where
  "parse_inet_addr addr =
     (if addr \<noteq> [] \<and> hd addr = CHR ''['' then
        (case find_first (\<lambda>c. c = CHR '']'') addr of
           None \<Rightarrow> ([], 0)
         | Some close \<Rightarrow>
             (substr addr 1 (close - 1),
              if close + 2 < length addr then from_chars_int (drop (close + 2) addr) 0 else 0))
      else
        (case find_last (\<lambda>c. c = CHR '':'') addr of
           None \<Rightarrow> ([], from_chars_int addr 0)
         | Some colon \<Rightarrow> (substr addr 0 colon, from_chars_int (drop (colon + 1) addr) 0)))"

text \<open>The table of names, with the values of \<open>linux/netlink.h\<close>.\<close>

definition netlink_table :: "(string \<times> int) list" where
  "netlink_table =
     [(''ROUTE'', 0), (''KOBJECT_UEVENT'', 15), (''AUDIT'', 9), (''SCSITRANSPORT'', 18),
      (''FIREWALL'', 3), (''NFLOG'', 5), (''XFRM'', 6), (''SELINUX'', 7), (''ISCSI'', 8),
      (''CRYPTO'', 21)]"

definition parse_netlink_family :: "string \<Rightarrow> int" where
  "parse_netlink_family s =
     (case map_of netlink_table s of Some i \<Rightarrow> i | None \<Rightarrow> from_chars_int s 0)"

text \<open>The loop of \<open>parse_octal\<close>; the 32-bit accumulator wraps.\<close>

fun octal_loop :: "int \<Rightarrow> string \<Rightarrow> int option" where
  "octal_loop v [] = Some v"
| "octal_loop v (c # cs) =
     (if (of_char c :: nat) < 48 \<or> 55 < (of_char c :: nat) then None
      else octal_loop (signed_take_bit 31 (v * 8 + (int (of_char c) - 48))) cs)"

definition parse_octal :: "string \<Rightarrow> int \<Rightarrow> int" where
  "parse_octal sv dflt =
     (case octal_loop 0 sv of None \<Rightarrow> dflt | Some v \<Rightarrow> if v \<noteq> 0 then v else dflt)"

definition parse_bool :: "string \<Rightarrow> bool \<Rightarrow> bool" where
  "parse_bool sv dflt =
     (if sv = ''yes'' \<or> sv = ''true'' \<or> sv = ''1'' \<or> sv = ''on'' then True
      else if sv = ''no'' \<or> sv = ''false'' \<or> sv = ''0'' \<or> sv = ''off'' then False
      else dflt)"

definition parse_int :: "string \<Rightarrow> int \<Rightarrow> int" where
  "parse_int sv dflt = from_chars_int sv dflt"

text \<open>\<open>split_exec\<close>, the same code in \<open>SocketMixin\<close> and \<open>UnitExecMixin\<close>: state of the loop is the
  finished words, the current word, and the open quote.\<close>

fun split_exec_loop :: "string list \<Rightarrow> string \<Rightarrow> char option \<Rightarrow> string \<Rightarrow> string list" where
  "split_exec_loop r t q [] = (if t \<noteq> [] then r @ [t] else r)"
| "split_exec_loop r t (Some qc) (c # cs) =
     (if c = qc then split_exec_loop r t None cs else split_exec_loop r (t @ [c]) (Some qc) cs)"
| "split_exec_loop r t None (c # cs) =
     (if c = CHR 0x22 \<or> c = CHR 0x27 then split_exec_loop r t (Some c) cs
      else if c = CHR '' '' \<or> c = CHR 0x09 then
        (if t \<noteq> [] then split_exec_loop (r @ [t]) [] None cs else split_exec_loop r t None cs)
      else split_exec_loop r (t @ [c]) None cs)"

definition split_exec :: "string \<Rightarrow> string list" where
  "split_exec s = split_exec_loop [] [] None s"

section \<open>Socket units from unit files\<close>

definition listen_sep :: "char \<Rightarrow> bool" where
  "listen_sep c \<longleftrightarrow> c = CHR '' '' \<or> c = CHR 0x09"

text \<open>\<open>add_listen\<close>: the record separators of repeated keys become spaces.\<close>

definition add_listen :: "string \<Rightarrow> listen_type \<Rightarrow> socket_unit \<Rightarrow> socket_unit" where
  "add_listen raw lt sock =
     (let r = map (\<lambda>c. if c = RS then CHR '' '' else c) raw
      in sock\<lparr>su_listen := su_listen sock @
           map (\<lambda>a. \<lparr>le_type = lt, le_address = a, le_fd = -1, le_name = []\<rparr>)
             (split_loop listen_sep r)\<rparr>)"

text \<open>The lambda \<open>get\<close>, and the pattern \<open>if (auto v = get(k); !v.empty())\<close>.\<close>

definition sec_get :: "section_map \<Rightarrow> string \<Rightarrow> string" where
  "sec_get sec k = um_at [] sec k"

definition if_set :: "section_map \<Rightarrow> string \<Rightarrow> (string \<Rightarrow> socket_unit \<Rightarrow> socket_unit) \<Rightarrow>
    socket_unit \<Rightarrow> socket_unit" where
  "if_set sec k f sock = (let v = sec_get sec k in if v \<noteq> [] then f v sock else sock)"

definition apply_socket_section :: "section_map \<Rightarrow> socket_unit \<Rightarrow> socket_unit" where
  "apply_socket_section sec sock =
     (let sock = add_listen (sec_get sec ''ListenStream'') LT_Stream sock;
          sock = add_listen (sec_get sec ''ListenDatagram'') LT_Datagram sock;
          sock = add_listen (sec_get sec ''ListenSequentialPacket'') LT_SequentialPacket sock;
          sock = add_listen (sec_get sec ''ListenFIFO'') LT_FIFO sock;
          sock = add_listen (sec_get sec ''ListenSpecial'') LT_Special sock;
          sock = add_listen (sec_get sec ''ListenNetlink'') LT_Netlink sock;
          sock = add_listen (sec_get sec ''ListenMessageQueue'') LT_MessageQueue sock;
          sock = if_set sec ''Accept'' (\<lambda>v x. x\<lparr>su_accept := parse_bool v False\<rparr>) sock;
          sock = if_set sec ''Backlog'' (\<lambda>v x. x\<lparr>su_backlog := parse_int v 128\<rparr>) sock;
          sock = if_set sec ''MaxConnections'' (\<lambda>v x. x\<lparr>su_max_conn := parse_int v 0\<rparr>) sock;
          sock = if_set sec ''MaxConnectionsPerSource''
                   (\<lambda>v x. x\<lparr>su_max_conn_per_source := parse_int v 0\<rparr>) sock;
          sock = if_set sec ''SocketMode'' (\<lambda>v x. x\<lparr>su_socket_mode := parse_octal v 438\<rparr>) sock;
          sock = if_set sec ''DirectoryMode'' (\<lambda>v x. x\<lparr>su_directory_mode := parse_octal v 493\<rparr>) sock;
          sock = if_set sec ''ReusePort'' (\<lambda>v x. x\<lparr>su_reuse_port := parse_bool v False\<rparr>) sock;
          sock = if_set sec ''FreeBind'' (\<lambda>v x. x\<lparr>su_free_bind := parse_bool v False\<rparr>) sock;
          sock = if_set sec ''Transparent'' (\<lambda>v x. x\<lparr>su_transparent := parse_bool v False\<rparr>) sock;
          sock = if_set sec ''Broadcast'' (\<lambda>v x. x\<lparr>su_broadcast := parse_bool v False\<rparr>) sock;
          sock = if_set sec ''PassCredentials''
                   (\<lambda>v x. x\<lparr>su_pass_credentials := parse_bool v False\<rparr>) sock;
          sock = if_set sec ''PassSecurity'' (\<lambda>v x. x\<lparr>su_pass_security := parse_bool v False\<rparr>) sock;
          sock = if_set sec ''KeepAlive'' (\<lambda>v x. x\<lparr>su_keep_alive := parse_bool v False\<rparr>) sock;
          sock = if_set sec ''NoDelay'' (\<lambda>v x. x\<lparr>su_no_delay := parse_bool v False\<rparr>) sock;
          sock = if_set sec ''Priority'' (\<lambda>v x. x\<lparr>su_priority := parse_int v 0\<rparr>) sock;
          sock = if_set sec ''ReceiveBuffer'' (\<lambda>v x. x\<lparr>su_receive_buffer := parse_int v 0\<rparr>) sock;
          sock = if_set sec ''SendBuffer'' (\<lambda>v x. x\<lparr>su_send_buffer := parse_int v 0\<rparr>) sock;
          sock = if_set sec ''IPTOS'' (\<lambda>v x. x\<lparr>su_iptos := parse_int v (-1)\<rparr>) sock;
          sock = if_set sec ''IPTTL'' (\<lambda>v x. x\<lparr>su_ipttl := parse_int v (-1)\<rparr>) sock;
          sock = if_set sec ''Mark'' (\<lambda>v x. x\<lparr>su_mark := parse_int v (-1)\<rparr>) sock;
          sock = if_set sec ''SocketUser'' (\<lambda>v x. x\<lparr>su_socket_user := v\<rparr>) sock;
          sock = if_set sec ''SocketGroup'' (\<lambda>v x. x\<lparr>su_socket_group := v\<rparr>) sock;
          sock = if_set sec ''Service'' (\<lambda>v x. x\<lparr>su_service := v\<rparr>) sock
      in if_set sec ''BindIPv6Only'' (\<lambda>v x.
           if v = ''ipv6-only'' then x\<lparr>su_ipv6only := BI_Ipv6Only\<rparr>
           else if v = ''both'' then x\<lparr>su_ipv6only := BI_Both\<rparr> else x) sock)"

definition parse_socket_unit :: "unit_file \<Rightarrow> socket_unit" where
  "parse_socket_unit u =
     (let sock = socket_unit_init\<lparr>su_name := uf_name u, su_path := uf_path u,
                   su_description := uf_description u, su_wants := uf_wants u,
                   su_requires := uf_requires u, su_after := uf_after u, su_before := uf_before u,
                   su_wanted_by := uf_wanted_by u, su_required_by := uf_required_by u\<rparr>
      in case um_get (uf_raw_sections u) ''Socket'' of
           None \<Rightarrow> sock
         | Some sec \<Rightarrow> apply_socket_section sec sock)"

definition expand_specifiers :: "osview \<Rightarrow> socket_unit \<Rightarrow> socket_unit" where
  "expand_specifiers os sock =
     (let ctx = SpecifierContext (su_name sock) (su_path sock)
      in sock\<lparr>su_listen := map (\<lambda>le. le\<lparr>le_address := resolve os (le_address le) ctx\<rparr>) (su_listen sock),
              su_service := (if su_service sock \<noteq> [] then resolve os (su_service sock) ctx
                             else su_service sock)\<rparr>)"

definition resolve_pair :: "socket_unit \<Rightarrow> 'a unit_parse_st_scheme \<Rightarrow> string" where
  "resolve_pair sock s =
     (if su_service sock \<noteq> [] then su_service sock
      else
        (let stem = name_stem (su_name sock);
             direct = stem @ ''.service'';
             tmpl = stem @ ''@.service''
         in if find_unit direct s \<noteq> None then direct
            else if find_unit tmpl s \<noteq> None then tmpl
            else direct))"

definition pairs_with :: "socket_unit \<Rightarrow> string \<Rightarrow> bool" where
  "pairs_with sock svc =
     (if su_service sock \<noteq> [] then su_service sock = svc
      else
        (let stem = name_stem (su_name sock)
         in stem @ ''.service'' = svc \<or> stem @ ''@.service'' = svc))"

section \<open>Binding\<close>

text \<open>Constants of the socket interface (Linux values).\<close>

definition AF_UNIX :: nat where "AF_UNIX = 1"
definition AF_INET :: nat where "AF_INET = 2"
definition AF_INET6 :: nat where "AF_INET6 = 10"
definition AF_NETLINK :: nat where "AF_NETLINK = 16"
definition SOCK_STREAM :: nat where "SOCK_STREAM = 1"
definition SOCK_DGRAM :: nat where "SOCK_DGRAM = 2"
definition SOCK_RAW :: nat where "SOCK_RAW = 3"
definition SOCK_SEQPACKET :: nat where "SOCK_SEQPACKET = 5"

definition sock_type :: "listen_entry \<Rightarrow> nat" where
  "sock_type le =
     (if le_type le = LT_Datagram then SOCK_DGRAM
      else if le_type le = LT_SequentialPacket then SOCK_SEQPACKET else SOCK_STREAM)"

text \<open>An \<open>int\<close> passed as \<open>mode_t\<close>.\<close>

definition mode_of :: "int \<Rightarrow> nat" where
  "mode_of m = nat (m mod 2 ^ 32)"

definition sock_opts :: "socket_unit \<Rightarrow> (string \<times> int) list" where
  "sock_opts u =
     [(''SO_REUSEADDR'', 1)] @
     (if su_reuse_port u then [(''SO_REUSEPORT'', 1)] else []) @
     (if su_free_bind u then [(''IP_FREEBIND'', 1)] else []) @
     (if su_transparent u then [(''IP_TRANSPARENT'', 1)] else []) @
     (if su_broadcast u then [(''SO_BROADCAST'', 1)] else []) @
     (if su_pass_credentials u then [(''SO_PASSCRED'', 1)] else []) @
     (if su_keep_alive u then [(''SO_KEEPALIVE'', 1)] else []) @
     (if su_no_delay u then [(''TCP_NODELAY'', 1)] else []) @
     (if su_priority u \<ge> 0 then [(''SO_PRIORITY'', su_priority u)] else []) @
     (if su_receive_buffer u > 0 then [(''SO_RCVBUF'', su_receive_buffer u)] else []) @
     (if su_send_buffer u > 0 then [(''SO_SNDBUF'', su_send_buffer u)] else []) @
     (if su_mark u \<ge> 0 then [(''SO_MARK'', su_mark u)] else []) @
     (if su_iptos u \<ge> 0 then [(''IP_TOS'', su_iptos u)] else []) @
     (if su_ipttl u \<ge> 0 then [(''IP_TTL'', su_ipttl u)] else []) @
     (if su_pass_security u then [(''SO_PASSSEC'', 1)] else [])"

definition apply_opts :: "kernel \<Rightarrow> fd \<Rightarrow> socket_unit \<Rightarrow> 'a kst_scheme \<Rightarrow> 'a kst_scheme" where
  "apply_opts K fd u s = fold (\<lambda>(opt, v). sys_do K (Setsockopt fd opt v)) (sock_opts u) s"

text \<open>\<open>if (call < 0) { close(fd); return -1; }\<close> followed by the rest.\<close>

definition or_close :: "kernel \<Rightarrow> fd \<Rightarrow> syscall \<Rightarrow> ('a kst_scheme \<Rightarrow> int \<times> 'a kst_scheme) \<Rightarrow>
    'a kst_scheme \<Rightarrow> int \<times> 'a kst_scheme" where
  "or_close K fd c k s =
     (let (r, s) = sys K c s in if r < 0 then (-1, sys_do K (Close fd) s) else k s)"

text \<open>\<open>if (type != SOCK_DGRAM && listen(fd, backlog) < 0) ...; return fd;\<close>\<close>

definition finish_listen :: "kernel \<Rightarrow> fd \<Rightarrow> socket_unit \<Rightarrow> listen_entry \<Rightarrow> 'a kst_scheme \<Rightarrow> int \<times> 'a kst_scheme" where
  "finish_listen K fd sock le s =
     (if sock_type le \<noteq> SOCK_DGRAM then or_close K fd (Listen fd (su_backlog sock)) (\<lambda>s. (fd, s)) s
      else (fd, s))"

text \<open>
  \<open>bind\<close> of a Unix socket: the path the kernel sees is cut to the 108 bytes of \<open>sun_path\<close>,
  \<open>unlink\<close>, \<open>mkdir\<close> and \<open>chmod\<close> use the whole address. The length passed is that of the
  abstract name, or of the structure (110).
\<close>

definition bind_unix :: "kernel \<Rightarrow> socket_unit \<Rightarrow> listen_entry \<Rightarrow> 'a kst_scheme \<Rightarrow> int \<times> 'a kst_scheme" where
  "bind_unix K sock le s =
     (let (fd, s) = sys K (Socket_create AF_UNIX (sock_type le) 0) s
      in if fd < 0 then (-1, s)
         else
           (let s = apply_opts K fd sock s;
                addr = le_address le
            in if hd addr = CHR ''@'' then
                 or_close K fd (Bind_unix fd (take 106 (tl addr)) True (2 + 1 + int (length (tl addr))))
                   (finish_listen K fd sock le) s
               else
                 (let s = sys_do K (Unlink addr) s;
                      s = (case find_last (\<lambda>c. c = CHR ''/'') addr of
                             None \<Rightarrow> s
                           | Some sl \<Rightarrow> sys_do K (Mkdir (take sl addr) (mode_of (su_directory_mode sock))) s)
                  in or_close K fd (Bind_unix fd (take 107 addr) False 110)
                       (\<lambda>s. finish_listen K fd sock le
                              (sys_do K (Chmod addr (mode_of (su_socket_mode sock))) s)) s)))"

text \<open>The port is cut to 16 bits by \<open>htons((uint16_t)port)\<close>.\<close>

definition bind_inet :: "kernel \<Rightarrow> socket_unit \<Rightarrow> listen_entry \<Rightarrow> 'a kst_scheme \<Rightarrow> int \<times> 'a kst_scheme" where
  "bind_inet K sock le s =
     (let (host, port) = parse_inet_addr (le_address le)
      in if port = 0 then (-1, s)
         else
           (let v6 = (host = [] \<or> CHR '':'' \<in> set host);
                (fd, s) = (if v6 then sys K (Socket_create AF_INET6 (sock_type le) 0) s else (-1, s));
                s = (if fd \<ge> 0 \<and> su_ipv6only sock \<noteq> BI_Default
                     then sys_do K (Setsockopt fd ''IPV6_V6ONLY''
                            (if su_ipv6only sock = BI_Ipv6Only then 1 else 0)) s
                     else s);
                v6 = (v6 \<and> fd \<ge> 0);
                (fd, s) = (if fd < 0 then sys K (Socket_create AF_INET (sock_type le) 0) s else (fd, s))
            in if fd < 0 then (-1, s)
               else
                 (let s = apply_opts K fd sock s
                  in or_close K fd
                       (if v6 then Bind_inet6 fd (word_of_int port) host
                        else Bind_inet4 fd (word_of_int port) host)
                       (finish_listen K fd sock le) s)))"

definition NETLINK_KOBJECT_UEVENT :: int where "NETLINK_KOBJECT_UEVENT = 15"

definition netlink_addr :: "string \<Rightarrow> int \<times> 32 word" where
  "netlink_addr a =
     (case find_first (\<lambda>c. c = CHR '':'') a of
        Some c \<Rightarrow> (parse_netlink_family (substr a 0 c), from_chars_u32 (drop (c + 1) a) 0)
      | None \<Rightarrow> (parse_netlink_family a, 0))"

definition bind_netlink :: "kernel \<Rightarrow> listen_entry \<Rightarrow> 'a kst_scheme \<Rightarrow> int \<times> 'a kst_scheme" where
  "bind_netlink K le s =
     (let (fam, grp) = netlink_addr (le_address le);
          (fd, s) = sys K (Socket_create AF_NETLINK SOCK_RAW fam) s
      in if fd < 0 then (-1, s)
         else or_close K fd (Bind_netlink fd grp) (\<lambda>s. (fd, s)) s)"

definition create_fifo :: "kernel \<Rightarrow> socket_unit \<Rightarrow> listen_entry \<Rightarrow> 'a kst_scheme \<Rightarrow> int \<times> 'a kst_scheme" where
  "create_fifo K sock le s =
     (let s = sys_do K (Unlink (le_address le)) s;
          (r, s) = sys K (Mkfifo (le_address le) (mode_of (su_socket_mode sock))) s
      in if r < 0 then (-1, s) else sys K (Open_rdwr (le_address le)) s)"

definition open_special :: "kernel \<Rightarrow> listen_entry \<Rightarrow> 'a kst_scheme \<Rightarrow> int \<times> 'a kst_scheme" where
  "open_special K le s = sys K (Open_rdwr (le_address le)) s"

definition open_mqueue :: "kernel \<Rightarrow> socket_unit \<Rightarrow> listen_entry \<Rightarrow> 'a kst_scheme \<Rightarrow> int \<times> 'a kst_scheme" where
  "open_mqueue K sock le s = sys K (Mq_open (le_address le) (mode_of (su_socket_mode sock))) s"

definition create_and_bind :: "kernel \<Rightarrow> socket_unit \<Rightarrow> listen_entry \<Rightarrow> 'a kst_scheme \<Rightarrow> int \<times> 'a kst_scheme" where
  "create_and_bind K sock le s =
     (case le_type le of
        LT_FIFO \<Rightarrow> create_fifo K sock le s
      | LT_Special \<Rightarrow> open_special K le s
      | LT_Netlink \<Rightarrow> bind_netlink K le s
      | LT_MessageQueue \<Rightarrow> open_mqueue K sock le s
      | _ \<Rightarrow>
          if le_address le \<noteq> [] \<and> (hd (le_address le) = CHR ''/'' \<or> hd (le_address le) = CHR ''@'')
          then bind_unix K sock le s else bind_inet K sock le s)"

definition has_percent :: "string \<Rightarrow> bool" where
  "has_percent a \<longleftrightarrow> CHR ''%'' \<in> set a"

section \<open>Descriptor flags\<close>

definition FD_CLOEXEC :: "32 word" where "FD_CLOEXEC = 1"
definition O_NONBLOCK :: "32 word" where "O_NONBLOCK = 2048"

definition set_cloexec :: "kernel \<Rightarrow> fd \<Rightarrow> bool \<Rightarrow> 'a kst_scheme \<Rightarrow> 'a kst_scheme" where
  "set_cloexec K fd on s =
     (let (f, s) = sys K (Fcntl_getfd fd) s
      in if f < 0 then s
         else sys_do K (Fcntl_setfd fd (if on then word_of_int f OR FD_CLOEXEC else word_of_int f AND NOT FD_CLOEXEC)) s)"

definition set_nonblock :: "kernel \<Rightarrow> fd \<Rightarrow> bool \<Rightarrow> 'a kst_scheme \<Rightarrow> 'a kst_scheme" where
  "set_nonblock K fd on s =
     (let (f, s) = sys K (Fcntl_getfl fd) s
      in if f < 0 then s
         else sys_do K (Fcntl_setfl fd (if on then word_of_int f OR O_NONBLOCK else word_of_int f AND NOT O_NONBLOCK)) s)"

text \<open>The loop of \<open>bind_socket_unit\<close>: the entries with their descriptors filled in.\<close>

fun bind_entries :: "kernel \<Rightarrow> socket_unit \<Rightarrow> listen_entry list \<Rightarrow> 'a journal_st_scheme \<Rightarrow>
    listen_entry list \<times> 'a journal_st_scheme" where
  "bind_entries K sock [] s = ([], s)"
| "bind_entries K sock (le # les) s =
     (if has_percent (le_address le) then
        (let (les, s) = bind_entries K sock les s in (le # les, s))
      else
        (let (fd, s) = create_and_bind K sock le s
         in if fd < 0 then
              (let s = log_fmt K (if le_type le = LT_Netlink \<or> le_type le = LT_MessageQueue
                                  then Warning else Error)
                         ''socket'' ''{}: failed to bind {}: {}''
                         [su_name sock, le_address le, strerror_now K s] s;
                   (les, s) = bind_entries K sock les s
               in (le # les, s))
            else
              (let s = set_cloexec K fd True s;
                   s = log_fmt K Info ''socket''
                         (''{}: bound fd {} '' @ [CHR 0xE2, CHR 0x86, CHR 0x92] @ '' {}'')
                         [su_name sock, show_int fd, le_address le] s;
                   (les, s) = bind_entries K sock les s
               in (le\<lparr>le_fd := fd\<rparr> # les, s))))"

definition bind_socket_unit :: "kernel \<Rightarrow> socket_unit \<Rightarrow> 'a journal_st_scheme \<Rightarrow> socket_unit \<times> 'a journal_st_scheme" where
  "bind_socket_unit K sock s =
     (let (les, s) = bind_entries K sock (su_listen sock) s in (sock\<lparr>su_listen := les\<rparr>, s))"

text \<open>One iteration of the phase; the counter of bound units is the first component.\<close>

definition socket_bind_one :: "kernel \<Rightarrow> string \<times> unit_file \<Rightarrow> int \<times> 'a socket_st_scheme \<Rightarrow> int \<times> 'a socket_st_scheme" where
  "socket_bind_one K nu bs =
     (let (name, unit) = nu; (bound, s) = bs
      in if uf_type unit \<noteq> UT_Socket then (bound, s)
         else if is_bare_template unit then
           (bound, log_fmt K Debug ''socket'' ''{}: skipping bare template'' [name] s)
         else
           (let sock = expand_specifiers (view K s) (parse_socket_unit unit);
                s = tick s;
                has_bindable = list_ex (\<lambda>le. le_address le \<noteq> [] \<and> \<not> has_percent (le_address le)) (su_listen sock)
            in if \<not> has_bindable \<and> su_listen sock \<noteq> [] then
                 (let s = log_fmt K Debug ''socket''
                            (''{}: skipping '' @ [CHR 0xE2, CHR 0x80, CHR 0x94] @ '' no bindable addresses after expansion'')
                            [name] s
                  in (bound, s\<lparr>socket_units := um_put name sock (socket_units s)\<rparr>))
               else
                 (let (sock, s) = bind_socket_unit K sock s
                  in (bound + 1, s\<lparr>socket_units := um_put name sock (socket_units s)\<rparr>))))"

definition execute_SocketBind :: "kernel \<Rightarrow> 'a socket_st_scheme \<Rightarrow> int \<times> 'a socket_st_scheme" where
  "execute_SocketBind K s =
     (let s = log K Info ''socket'' ''Binding socket units'' s;
          (bound, s) = fold (socket_bind_one K) (units s) (0, s)
      in (0, log_fmt K Info ''socket'' ''Bound {} socket unit(s)'' [show_int bound] s))"

section \<open>Socket activation\<close>

record socket_env =
  env_fds :: "fd list"
  env_names :: "string list"

text \<open>The pairs \<open>collect_socket_env\<close> pushes, in iteration order.\<close>

definition socket_env_pairs :: "string \<Rightarrow> (string, socket_unit) umap \<Rightarrow> (fd \<times> string) list" where
  "socket_env_pairs service_name m =
     concat (map (\<lambda>(sname, sock).
       if \<not> pairs_with sock service_name then []
       else map (\<lambda>le. (le_fd le, if le_name le = [] then sname else le_name le))
              (filter (\<lambda>le. \<not> le_fd le < 0) (su_listen sock))) m)"

definition collect_socket_env :: "string \<Rightarrow> 'a socket_st_scheme \<Rightarrow> socket_env option" where
  "collect_socket_env service_name s =
     (let ps = socket_env_pairs service_name (socket_units s)
      in if ps = [] then None else Some \<lparr>env_fds = map fst ps, env_names = map snd ps\<rparr>)"

definition register_fd :: "kernel \<Rightarrow> fd \<Rightarrow> string \<Rightarrow> fd \<Rightarrow> 'a socket_st_scheme \<Rightarrow> 'a socket_st_scheme" where
  "register_fd K epfd sname fd s =
     (let s = set_nonblock K fd True s;
          s = sys_do K (Epoll_add epfd fd) s
      in s\<lparr>fd_to_socket := um_put fd sname (fd_to_socket s)\<rparr>)"

definition register_accept_sockets :: "kernel \<Rightarrow> fd \<Rightarrow> 'a socket_st_scheme \<Rightarrow> 'a socket_st_scheme" where
  "register_accept_sockets K epfd s =
     fold (\<lambda>(sname, sock) s.
         if \<not> su_accept sock then s
         else fold (\<lambda>le s. if le_fd le < 0 then s else register_fd K epfd sname (le_fd le) s) (su_listen sock) s)
       (socket_units s) s"

text \<open>
  The descriptor shuffle of the child: descriptor \<open>i\<close> of the environment goes to \<open>3 + i\<close>. The
  table says which open file each descriptor refers to; \<open>dup2\<close> of a closed descriptor fails
  and ends the child with status 125 (result \<open>None\<close>).
\<close>

function place_fds :: "int \<Rightarrow> fd list \<Rightarrow> (fd \<Rightarrow> 'f option) \<Rightarrow> syscall list \<times> (fd \<Rightarrow> 'f option) option" where
  "place_fds tgt [] t = ([], Some t)"
| "place_fds tgt (w # ws) t =
     (if w = tgt then place_fds (tgt + 1) ws t
      else
        (let t1 = t(tgt := None)
         in case t1 w of
              None \<Rightarrow> ([Close tgt, Dup2 w tgt, Exit 125], None)
            | Some f \<Rightarrow>
                (let t2 = t1(tgt := Some f);
                     ws = map (\<lambda>x. if x = w then tgt else x) ws;
                     keep = list_ex (\<lambda>x. x = w) ws;
                     (cs, r) = place_fds (tgt + 1) ws (if keep then t2 else t2(w := None))
                 in ([Close tgt, Dup2 w tgt] @ (if keep then [] else [Close w]) @ cs, r))))"
  by pat_completeness auto
termination by (relation "measure (\<lambda>(tgt, ws, t). length ws)") auto

definition listen_env :: "int \<Rightarrow> socket_env \<Rightarrow> syscall list" where
  "listen_env self env =
     [Putenv (''LISTEN_PID='' @ show_int self),
      Putenv (''LISTEN_FDS='' @ show_nat (length (env_fds env))),
      Putenv (''LISTEN_FDNAMES='' @ join (CHR '':'') (take (length (env_fds env)) (env_names env)))]"

text \<open>The child's branch of \<open>spawn_with_socket_fds\<close>.\<close>

definition socket_child :: "osview \<Rightarrow> int \<Rightarrow> (fd \<Rightarrow> nat option) \<Rightarrow> string \<Rightarrow> string list \<Rightarrow> socket_env \<Rightarrow>
    unit_file option \<Rightarrow> child_run" where
  "socket_child os self t exec_path args env unit_ctx =
     (let (cs, r) = place_fds SD_LISTEN_FDS_START (env_fds env) t
      in ch_emit ([Sigmask_clear, Setsid] @ cs)
           (case r of
              None \<Rightarrow> ch_done
            | Some _ \<Rightarrow>
                ch_emit (Getpid # listen_env self env)
                  (ch_seq (case unit_ctx of Some u \<Rightarrow> setup_child_context os u | None \<Rightarrow> ch_done)
                          (run_service exec_path args))))"

definition set_cloexec_all :: "kernel \<Rightarrow> bool \<Rightarrow> fd list \<Rightarrow> 'a kst_scheme \<Rightarrow> 'a kst_scheme" where
  "set_cloexec_all K on fds s = fold (\<lambda>fd. set_cloexec K fd on) fds s"

definition spawn_with_socket_fds :: "kernel \<Rightarrow> string \<Rightarrow> string \<Rightarrow> string list \<Rightarrow> socket_env \<Rightarrow> bool \<Rightarrow>
    unit_file option \<Rightarrow> 'a socket_st_scheme \<Rightarrow> pid \<times> 'a socket_st_scheme" where
  "spawn_with_socket_fds K unit_name exec_path args env restart unit_ctx s =
     (let s = set_cloexec_all K False (env_fds env) s;
          (pid, s) = sys K Fork s
      in if pid < 0 then (-1, set_cloexec_all K True (env_fds env) s)
         else if pid = 0 then
           (0, run_child K (socket_child (view K s) (k_ret K (ticks s) Getpid) (k_fds K (ticks s))
                              exec_path args env unit_ctx) s)
         else
           (let s = set_cloexec_all K True (env_fds env) s;
                s = log_fmt K Info ''socket'' ''Socket-activated {} (PID {}, {} fd(s))''
                      [unit_name, show_int pid, show_nat (length (env_fds env))] s
            in (pid, track_process pid unit_name restart s)))"

text \<open>
  How a call ends: it returns, an exception leaves it (nothing in the program catches one), or
  the caller is the child of a \<open>fork\<close> that has become the service.
\<close>

datatype flow = Returns | Throws cxx_exception | Gone

definition add_connections :: "string \<Rightarrow> int \<Rightarrow> 'a socket_st_scheme \<Rightarrow> 'a socket_st_scheme" where
  "add_connections sname d s =
     (let sock = um_at socket_unit_init (socket_units s) sname
      in s\<lparr>socket_units := um_put sname
             (sock\<lparr>su_active_connections := su_active_connections sock + d\<rparr>) (socket_units s)\<rparr>)"

text \<open>\<open>close(conn); sock.active_connections--; return\<close>.\<close>

definition drop_connection :: "kernel \<Rightarrow> string \<Rightarrow> fd \<Rightarrow> 'a socket_st_scheme \<Rightarrow> flow \<times> 'a socket_st_scheme" where
  "drop_connection K sname conn s = (Returns, add_connections sname (-1) (sys_do K (Close conn) s))"

text \<open>The rest of \<open>accept_ready\<close> once a connection is accepted and counted.\<close>

definition serve_connection :: "kernel \<Rightarrow> string \<Rightarrow> fd \<Rightarrow> 'a socket_st_scheme \<Rightarrow> flow \<times> 'a socket_st_scheme" where
  "serve_connection K sname conn s =
     (let sock = um_at socket_unit_init (socket_units s) sname;
          svc = resolve_pair sock s
      in case find_unit svc s of
           None \<Rightarrow> drop_connection K sname conn s
         | Some unit \<Rightarrow>
             if uf_exec_start unit = [] then drop_connection K sname conn s
             else
               (case split_exec (uf_exec_start unit) of
                  [] \<Rightarrow> drop_connection K sname conn s
                | exec_path # args \<Rightarrow>
                    (let env = \<lparr>env_fds = [conn], env_names = [su_name sock]\<rparr>;
                         (pid, s) = spawn_with_socket_fds K svc exec_path args env False (Some unit) s
                     in if pid = 0 then (Gone, s)
                        else
                          (let s = sys_do K (Close conn) s
                           in (Returns,
                               if pid > 0 then on_child_exit pid (Dec_connections sname) s
                               else add_connections sname (-1) s)))))"

definition accept_ready :: "kernel \<Rightarrow> fd \<Rightarrow> 'a socket_st_scheme \<Rightarrow> flow \<times> 'a socket_st_scheme" where
  "accept_ready K listen_fd s =
     (case um_get (fd_to_socket s) listen_fd of
        None \<Rightarrow> (Returns, s)
      | Some sname \<Rightarrow>
          (let s = add_connections sname 0 s; \<comment> \<open>\<open>operator[]\<close> creates a missing entry\<close>
               sock = um_at socket_unit_init (socket_units s) sname
           in if su_max_conn sock > 0 \<and> su_active_connections sock \<ge> su_max_conn sock then
                (let (c, s) = sys K (Accept4 listen_fd) s
                 in (Returns, if c \<ge> 0 then sys_do K (Close c) s else s))
              else
                (let (conn, s) = sys K (Accept4 listen_fd) s
                 in if conn < 0 then (Returns, s)
                    else serve_connection K sname conn (add_connections sname 1 s))))"

definition close_entry :: "kernel \<Rightarrow> listen_entry \<Rightarrow> 'a kst_scheme \<Rightarrow> listen_entry \<times> 'a kst_scheme" where
  "close_entry K le s =
     (if le_fd le \<ge> 0 then
        (let s = sys_do K (Close (le_fd le)) s;
             s = (if le_address le \<noteq> [] \<and> hd (le_address le) = CHR ''/''
                  then sys_do K (Unlink (le_address le)) s else s)
         in (le\<lparr>le_fd := -1\<rparr>, s))
      else (le, s))"

fun close_entries :: "kernel \<Rightarrow> listen_entry list \<Rightarrow> 'a kst_scheme \<Rightarrow> listen_entry list \<times> 'a kst_scheme" where
  "close_entries K [] s = ([], s)"
| "close_entries K (le # les) s =
     (let (le, s) = close_entry K le s; (les, s) = close_entries K les s in (le # les, s))"

fun close_units :: "kernel \<Rightarrow> (string, socket_unit) umap \<Rightarrow> 'a kst_scheme \<Rightarrow>
    (string, socket_unit) umap \<times> 'a kst_scheme" where
  "close_units K [] s = ([], s)"
| "close_units K ((name, sock) # m) s =
     (let (les, s) = close_entries K (su_listen sock) s; (m, s) = close_units K m s
      in ((name, sock\<lparr>su_listen := les\<rparr>) # m, s))"

definition close_all_sockets :: "kernel \<Rightarrow> 'a socket_st_scheme \<Rightarrow> 'a socket_st_scheme" where
  "close_all_sockets K s =
     (let (m, s) = close_units K (socket_units s) s in s\<lparr>socket_units := m\<rparr>)"

section \<open>Command lines and addresses\<close>

text \<open>A word written in double quotes, as a unit file may write it.\<close>

definition quoted_word :: "string \<Rightarrow> string" where
  "quoted_word w = [CHR 0x22] @ w @ [CHR 0x22]"

lemma split_exec_in_quotes:
  "q \<notin> set w \<Longrightarrow> split_exec_loop r t (Some q) (w @ q # cs) = split_exec_loop r (t @ w) None cs"
  by (induction w arbitrary: t) auto

lemma split_exec_quoted_join:
  assumes "\<forall>w\<in>set ws. w \<noteq> [] \<and> CHR 0x22 \<notin> set w"
  shows "split_exec_loop r [] None (join (CHR '' '') (map quoted_word ws)) = r @ ws"
  using assms
proof (induction ws arbitrary: r)
  case (Cons w ws)
  have q: "split_exec_loop r [] None (quoted_word w @ cs) = split_exec_loop r w None cs" for cs
    using Cons.prems split_exec_in_quotes [of "CHR 0x22" w r "[]" cs] by (simp add: quoted_word_def)
  show ?case
  proof (cases "ws = []")
    case True
    with q [of "[]"] Cons.prems show ?thesis by simp
  next
    case False
    then have "join (CHR '' '') (map quoted_word (w # ws)) =
        quoted_word w @ CHR '' '' # join (CHR '' '') (map quoted_word ws)"
      by (simp add: join_Cons)
    with q Cons.prems Cons.IH [of "r @ [w]"] show ?thesis by simp
  qed
qed simp

lemma split_exec_plain_loop:
  assumes "CHR 0x22 \<notin> set s" "CHR 0x27 \<notin> set s" "\<forall>c\<in>set t. \<not> listen_sep c"
  shows "split_exec_loop r t None s = r @ words listen_sep (t @ s)"
  using assms
proof (induction s arbitrary: r t)
  case Nil
  then show ?case using words.tok_word [of t listen_sep] by (cases "t = []") auto
next
  case (Cons c s)
  show ?case
  proof (cases "listen_sep c")
    case True
    have "words listen_sep (t @ c # s) = (if t = [] then [] else [t]) @ words listen_sep s"
      using words.tok_sep [of listen_sep c t s, OF True] words.tok_word [of t listen_sep] Cons.prems(3)
      by (cases "t = []") (auto simp del: words.simps(2))
    moreover have "split_exec_loop r t None (c # s) = split_exec_loop (r @ (if t = [] then [] else [t])) [] None s"
      using True Cons.prems by (auto simp: listen_sep_def)
    moreover have "\<dots> = r @ (if t = [] then [] else [t]) @ words listen_sep s"
      using Cons.IH [of "[]" "r @ (if t = [] then [] else [t])"] Cons.prems by simp
    ultimately show ?thesis by argo
  next
    case False
    have "split_exec_loop r t None (c # s) = split_exec_loop r (t @ [c]) None s"
      using False Cons.prems by (auto simp: listen_sep_def)
    also have "\<dots> = r @ words listen_sep ((t @ [c]) @ s)"
      by (rule Cons.IH) (use Cons.prems False in auto)
    finally show ?thesis by simp
  qed
qed



text \<open>Internet addresses are read as they are written: \<open>port\<close>, \<open>host:port\<close> and \<open>[v6host]:port\<close>
  give the host and the port, for every port that fits an \<open>int\<close>.\<close>

theorem parse_inet_addr_roundtrip:
  assumes port: "int n < 2 ^ 31"
    and host: "h \<noteq> [] \<longrightarrow> hd h \<noteq> CHR ''[''" and h6: "CHR '']'' \<notin> set h6"
  shows "parse_inet_addr (show_nat n) = ([], int n) \<and>
    parse_inet_addr (h @ '':'' @ show_nat n) = (h, int n) \<and>
    parse_inet_addr (''['' @ h6 @ '']:'' @ show_nat n) = (h6, int n)"
proof (intro conjI)
  have d: "c \<noteq> CHR '':'' \<and> c \<noteq> CHR ''[''" if "c \<in> set (show_nat n)" for c
    using show_nat_digits [of n] that by (auto simp: is_digit_def)
  have v: "from_chars_int (show_nat n) 0 = int n"
    using from_chars_show [OF port, of "[]" 0] by simp
  have hd: "hd (show_nat n) \<noteq> CHR ''[''" using d [of "hd (show_nat n)"] by simp
  have "find_last (\<lambda>c. c = CHR '':'') (show_nat n) = None" using d by (auto simp: find_last_None)
  with v hd show "parse_inet_addr (show_nat n) = ([], int n)" by (simp add: parse_inet_addr_def)
  have "find_last (\<lambda>c. c = CHR '':'') (h @ CHR '':'' # show_nat n) = Some (length h)"
    using d by (intro find_last_append_sep) auto
  with host v show "parse_inet_addr (h @ '':'' @ show_nat n) = (h, int n)"
    by (cases h) (simp_all add: parse_inet_addr_def substr_def)
  have "find_first (\<lambda>c. c = CHR '']'') ((CHR ''['' # h6) @ CHR '']'' # (CHR '':'' # show_nat n)) =
      Some (length (CHR ''['' # h6))"
    using h6 by (intro find_first_append_sep) auto
  with v show "parse_inet_addr (''['' @ h6 @ '']:'' @ show_nat n) = (h6, int n)"
    by (simp add: parse_inet_addr_def substr_def)
qed

theorem parse_inet_addr_roundtrip_witness:
  "parse_inet_addr (''0.0.0.0'' @ '':'' @ show_nat 22) = (''0.0.0.0'', 22) \<and>
   parse_inet_addr (''['' @ ''::1'' @ '']:'' @ show_nat 22) = (''::1'', 22)"
  using parse_inet_addr_roundtrip [of 22 "''0.0.0.0''" "''::1''"] by simp

section \<open>The descriptor shuffle\<close>

text \<open>One turn of the loop: since every later occurrence of \<open>w\<close> was redirected, \<open>keep\<close> never holds.\<close>

lemma place_fds_step:
  "w \<noteq> tgt \<Longrightarrow> snd (place_fds tgt (w # ws) t) =
     (case t w of None \<Rightarrow> None
      | Some f \<Rightarrow> snd (place_fds (tgt + 1) (map (\<lambda>x. if x = w then tgt else x) ws) (t(tgt := Some f, w := None))))"
proof -
  assume "w \<noteq> tgt"
  then have "\<not> list_ex (\<lambda>x. x = w) (map (\<lambda>x. if x = w then tgt else x) ws)"
    by (auto simp: list_ex_iff)
  with \<open>w \<noteq> tgt\<close> show ?thesis by (simp add: Let_def split_def split: option.split)
qed

lemma place_fds_frame:
  assumes "x < tgt" "x \<notin> set ws" "snd (place_fds tgt ws t) = Some t'"
  shows "t' x = t x"
  using assms
proof (induction "length ws" arbitrary: tgt ws t)
  case (Suc n)
  then obtain w ws' where ws: "ws = w # ws'" by (cases ws) auto
  show ?case
  proof (cases "w = tgt")
    case True
    show ?thesis
      by (rule Suc.hyps(1) [of ws' "tgt + 1"]) (use Suc ws True in auto)
  next
    case False
    let ?ws = "map (\<lambda>x. if x = w then tgt else x) ws'"
    obtain f where f: "snd (place_fds (tgt + 1) ?ws (t(tgt := Some f, w := None))) = Some t'"
      using Suc.prems(3) place_fds_step [OF False, of ws' t] ws by (auto split: option.splits)
    have "t' x = (t(tgt := Some f, w := None)) x"
      by (rule Suc.hyps(1) [OF _ _ _ f]) (use Suc ws in auto)
    with Suc.prems ws show ?thesis by auto
  qed
qed simp

text \<open>C19: the child of a socket-activated service finds the \<open>i\<close>-th descriptor of the environment at
  \<open>3 + i\<close>, provided the descriptors are distinct and open and none of them lies where an
  earlier one has to go (ascending descriptors from 3 up always qualify).\<close>

theorem place_fds_correct:
  assumes "distinct ws" and "\<forall>w\<in>set ws. t w \<noteq> None"
    and "\<forall>j < length ws. \<forall>i < j. ws ! j \<noteq> tgt + int i"
  shows "\<exists>t'. snd (place_fds tgt ws t) = Some t' \<and> (\<forall>i < length ws. t' (tgt + int i) = t (ws ! i))"
  using assms
proof (induction ws arbitrary: tgt t)
  case (Cons w ws)
  have later: "\<forall>j < length ws. \<forall>i < j. ws ! j \<noteq> (tgt + 1) + int i"
    using Cons.prems(3) by (metis Suc_less_eq add.assoc add.commute length_Cons nth_Cons_Suc of_nat_Suc)
  have notgt: "tgt \<notin> set ws"
    using Cons.prems(3) by (force simp: in_set_conv_nth)
  define t2 where "t2 = (if w = tgt then t else t(tgt := t w, w := None))"
  have same: "map (\<lambda>x. if x = w then tgt else x) ws = ws"
    using Cons.prems(1) by (induction ws) auto
  obtain f where f: "t w = Some f" using Cons.prems(2) by auto
  have step: "snd (place_fds tgt (w # ws) t) = snd (place_fds (tgt + 1) ws t2)"
  proof (cases "w = tgt")
    case False
    then have "t(tgt := Some f, w := None) = t2" using f by (simp add: t2_def)
    with False f same show ?thesis by (simp add: place_fds_step del: place_fds.simps)
  qed (simp add: t2_def)
  have t2: "t2 x = t x" if "x \<in> set ws" for x
    using that notgt Cons.prems(1) by (auto simp: t2_def)
  have open2: "\<forall>x\<in>set ws. t2 x \<noteq> None" using t2 Cons.prems(2) by simp
  obtain t' where t': "snd (place_fds (tgt + 1) ws t2) = Some t'"
      "\<forall>i < length ws. t' (tgt + 1 + int i) = t2 (ws ! i)"
    using Cons.IH [OF _ open2 later] Cons.prems(1) by auto
  have "t' tgt = t2 tgt" by (rule place_fds_frame [OF _ notgt t'(1)]) simp
  then have "t' tgt = t w" by (auto simp: t2_def)
  moreover have "t' (tgt + int (Suc i)) = t (ws ! i)" if "i < length ws" for i
    using t'(2) t2 that by (simp add: algebra_simps)
  ultimately have "\<forall>i < length (w # ws). t' (tgt + int i) = t ((w # ws) ! i)"
    by (auto simp: less_Suc_eq_0_disj)
  with step t'(1) show ?case by auto
qed simp

theorem place_fds_correct_witness:
  "\<exists>t'. snd (place_fds 3 [5, 6] (\<lambda>fd. Some (nat fd))) = Some t' \<and>
     (\<forall>i < length [5, 6 :: int]. t' (3 + int i) = Some (nat ([5, 6] ! i)))"
proof -
  have *: "\<forall>j < length [5, 6 :: int]. \<forall>i < j. [5, 6] ! j \<noteq> 3 + int i" by (auto simp: less_Suc_eq)
  show ?thesis
    using place_fds_correct [of "[5, 6]" "\<lambda>fd. Some (nat fd)" 3, OF _ _ *] by simp
qed

text \<open>Without that proviso the shuffle loses descriptors: handing over descriptors 4 and 3, in this
  order (two listening sockets in the order a hash table may give them), descriptor 3 ends up
  closed and descriptor 4 refers to the first socket; the second socket is gone.\<close>

theorem place_fds_clobbers:
  "t 3 = Some b \<Longrightarrow> t 4 = Some a \<Longrightarrow>
   snd (place_fds 3 [4, 3] t) = Some (t(3 := None, 4 := Some a))"
  by (simp add: Let_def fun_upd_twist)

theorem place_fds_clobbers_witness:
  "snd (place_fds 3 [4, 3] (\<lambda>fd. if fd = 3 then Some (1 :: nat) else if fd = 4 then Some 2 else None)) =
   Some ((\<lambda>fd. if fd = 3 then Some (1 :: nat) else if fd = 4 then Some 2 else None)(3 := None, 4 := Some 2))"
  by (rule place_fds_clobbers) simp_all

section \<open>Connection accounting\<close>

text \<open>The connections of a socket unit that are being served: its registered exit callbacks.\<close>

definition live_connections :: "(pid, exit_callback) umap \<Rightarrow> string \<Rightarrow> int" where
  "live_connections c n = int (length (filter (\<lambda>pc. snd pc = Dec_connections n) c))"

definition conn_ok :: "(string, socket_unit) umap \<Rightarrow> (pid, exit_callback) umap \<Rightarrow> bool" where
  "conn_ok m c \<longleftrightarrow> um_wf c \<and>
     (\<forall>n u. um_get m n = Some u \<longrightarrow> su_active_connections u = live_connections c n \<and>
        (0 < su_max_conn u \<longrightarrow> live_connections c n \<le> su_max_conn u)) \<and>
     (\<forall>n. um_get m n = None \<longrightarrow> live_connections c n = 0)"

definition bump_conn :: "string \<Rightarrow> int \<Rightarrow> (string, socket_unit) umap \<Rightarrow> (string, socket_unit) umap" where
  "bump_conn n d m =
     (let u = um_at socket_unit_init m n
      in um_put n (u\<lparr>su_active_connections := su_active_connections u + d\<rparr>) m)"

lemma add_connections_bump:
  "add_connections n d s = s\<lparr>socket_units := bump_conn n d (socket_units s)\<rparr>"
  by (simp add: add_connections_def bump_conn_def Let_def)

lemma um_get_bump:
  "um_get (bump_conn n d m) k =
     (if k = n then Some ((um_at socket_unit_init m n)\<lparr>su_active_connections :=
        su_active_connections (um_at socket_unit_init m n) + d\<rparr>) else um_get m k)"
  by (simp add: bump_conn_def Let_def)

lemma um_at_bump:
  "um_at socket_unit_init (bump_conn n d m) n =
     (um_at socket_unit_init m n)\<lparr>su_active_connections := su_active_connections (um_at socket_unit_init m n) + d\<rparr>"
  by (simp add: um_at_def um_get_bump)

lemma conn_ok_cong: "um_get m = um_get m' \<Longrightarrow> conn_ok m c \<longleftrightarrow> conn_ok m' c"
  by (simp add: conn_ok_def)

lemma conn_ok_at:
  assumes "conn_ok m c"
  shows "su_active_connections (um_at socket_unit_init m n) = live_connections c n"
    "0 < su_max_conn (um_at socket_unit_init m n) \<longrightarrow>
       live_connections c n \<le> su_max_conn (um_at socket_unit_init m n)"
  using assms by (cases "um_get m n"; simp add: conn_ok_def um_at_def socket_unit_init_def)+

lemma conn_ok_bump0: "conn_ok m c \<Longrightarrow> conn_ok (bump_conn n 0 m) c"
  using conn_ok_at [of m c n] by (auto simp: conn_ok_def um_get_bump)

lemma bump_conn_undo: "um_get (bump_conn n (-1) (bump_conn n 1 m)) = um_get (bump_conn n 0 m)"
  by (rule ext) (simp add: um_get_bump um_at_bump)

lemma live_put: "um_get c p = None \<Longrightarrow>
    live_connections (um_put p (Dec_connections n) c) k = live_connections c k + (if k = n then 1 else 0)"
  by (auto simp: live_connections_def um_count_put)

lemma live_erase: "um_wf c \<Longrightarrow> um_get c p = Some (Dec_connections n) \<Longrightarrow>
    live_connections (um_erase p c) k = live_connections c k - (if k = n then 1 else 0)"
  by (auto simp: live_connections_def um_count_erase [where k = p])

lemma conn_ok_accept:
  assumes "conn_ok m c" "um_get c p = None"
    and "\<not> (0 < su_max_conn (um_at socket_unit_init m n) \<and>
            su_max_conn (um_at socket_unit_init m n) \<le> su_active_connections (um_at socket_unit_init m n))"
  shows "conn_ok (bump_conn n 1 m) (um_put p (Dec_connections n) c)"
  using assms conn_ok_at [OF assms(1), of n] by (auto simp: conn_ok_def um_get_bump live_put um.wf_put)

lemma conn_ok_exit:
  assumes ok: "conn_ok m c" and p: "um_get c p = Some (Dec_connections n)"
  shows "\<exists>u. um_get m n = Some u \<and> conn_ok (um_put n (u\<lparr>su_active_connections := su_active_connections u - 1\<rparr>) m) (um_erase p c)"
proof -
  have wf: "um_wf c" using ok by (simp add: conn_ok_def)
  have "0 < live_connections c n"
    using um_count_erase [OF wf p, of "\<lambda>pc. snd pc = Dec_connections n"] by (simp add: live_connections_def)
  then obtain u where "um_get m n = Some u" using ok by (cases "um_get m n") (auto simp: conn_ok_def)
  with ok show ?thesis by (fastforce simp: conn_ok_def live_erase [OF wf p] um.wf_erase)
qed

lemma track_process_frame [simp]:
  "exit_callbacks (track_process p u r s) = exit_callbacks s"
  "ticks (track_process p u r s) = ticks s"
  "trace (track_process p u r s) = trace s"
  "shutdown_requested (track_process p u r s) = shutdown_requested s"
  by (simp_all add: track_process_def Let_def)

lemma track_process_sockets [simp]:
  "socket_units (track_process p u r s) = socket_units s"
  "fd_to_socket (track_process p u r s) = fd_to_socket s"
  "units (track_process p u r s) = units s"
  by (simp_all add: track_process_def Let_def)

lemma flag_frame [simp]:
  "socket_units (set_cloexec K fd on s) = socket_units s"
  "fd_to_socket (set_cloexec K fd on s) = fd_to_socket s"
  "units (set_cloexec K fd on s) = units s"
  "exit_callbacks (set_cloexec K fd on s) = exit_callbacks s"
  "processes (set_cloexec K fd on s) = processes s"
  "unit_to_pid (set_cloexec K fd on s) = unit_to_pid s"
  "pending_restarts (set_cloexec K fd on s) = pending_restarts s"
  "restart_counts (set_cloexec K fd on s) = restart_counts s"
  by (simp_all add: set_cloexec_def Let_def split_def)

lemma set_cloexec_frame [simp]:
  "socket_units (set_cloexec_all K on fds s) = socket_units s"
  "fd_to_socket (set_cloexec_all K on fds s) = fd_to_socket s"
  "units (set_cloexec_all K on fds s) = units s"
  "exit_callbacks (set_cloexec_all K on fds s) = exit_callbacks s"
  "processes (set_cloexec_all K on fds s) = processes s"
  "unit_to_pid (set_cloexec_all K on fds s) = unit_to_pid s"
  "pending_restarts (set_cloexec_all K on fds s) = pending_restarts s"
  "restart_counts (set_cloexec_all K on fds s) = restart_counts s"
  by (simp_all add: set_cloexec_all_def fold_keeps)

lemma set_cloexec_ticks: "ticks s \<le> ticks (set_cloexec_all K on fds s)"
proof -
  have "ticks t < ticks (set_cloexec K fd on t)" for fd and t :: "'a kst_scheme"
    by (simp add: set_cloexec_def Let_def split_def)
  then show ?thesis
    unfolding set_cloexec_all_def
    by (intro fold_inv [where P = "\<lambda>t. ticks s \<le> ticks t"] order_refl) (rule le_trans, assumption, rule less_imp_le)
qed

text \<open>The request at which \<open>spawn_with_socket_fds\<close> forks.\<close>

definition fork_time :: "kernel \<Rightarrow> socket_env \<Rightarrow> 'a kst_scheme \<Rightarrow> nat" where
  "fork_time K env s = ticks (set_cloexec_all K False (env_fds env) s)"

lemma fork_time_after: "ticks s \<le> fork_time K env s"
  unfolding fork_time_def by (rule set_cloexec_ticks)

lemma spawn_socket_result:
  shows "fst (spawn_with_socket_fds K u path args env restart ctx s) = max (-1) (k_ret K (fork_time K env s) Fork)"
    and "socket_units (snd (spawn_with_socket_fds K u path args env restart ctx s)) = socket_units s"
    and "exit_callbacks (snd (spawn_with_socket_fds K u path args env restart ctx s)) = exit_callbacks s"
  by (auto simp: spawn_with_socket_fds_def fork_time_def Let_def split_def)

lemma run_child_ticks: "ticks s \<le> ticks (run_child K r s)"
proof -
  have "ticks (fold (sys_do K) cs t) = ticks t + length cs" for cs and t :: "'a kst_scheme"
    by (induction cs arbitrary: t) simp_all
  then show ?thesis by (simp add: run_child_def)
qed

lemma spawn_socket_ticks: "fork_time K env s < ticks (snd (spawn_with_socket_fds K u path args env restart ctx s))"
proof -
  let ?t = "snd (sys K Fork (set_cloexec_all K False (env_fds env) s))"
  have a: "fork_time K env s < ticks (run_child K r ?t)" "fork_time K env s < ticks (set_cloexec_all K b fds ?t)" for r b fds
    using run_child_ticks [of ?t K r] set_cloexec_ticks [of ?t K b fds] by (simp_all add: fork_time_def Suc_le_eq)
  have b: "fork_time K env s < ticks (log_fmt K l src f as v)" if "fork_time K env s < ticks v"
    for l src f as and v :: "'a socket_st_scheme"
    using that by (simp add: log_fmt_def log_def)
  show ?thesis
    unfolding spawn_with_socket_fds_def Let_def split_def by (simp add: a b)
qed

text \<open>A connection is dropped, or handed to a service with a command line.\<close>

lemma serve_connection_forms:
  obtains (drop) "serve_connection K n conn s = drop_connection K n conn s"
    | (spawn) unit path args where "find_unit (resolve_pair (um_at socket_unit_init (socket_units s) n) s) s = Some unit"
        "uf_exec_start unit \<noteq> []" "split_exec (uf_exec_start unit) = path # args"
proof -
  let ?svc = "resolve_pair (um_at socket_unit_init (socket_units s) n) s"
  show thesis
    using that
    by (cases "find_unit ?svc s"; cases "uf_exec_start (the (find_unit ?svc s)) = []";
        cases "split_exec (uf_exec_start (the (find_unit ?svc s)))")
       (auto simp: serve_connection_def Let_def)
qed

text \<open>Either the connection is dropped and uncounted, or a child serves it and its callback is kept.\<close>

lemma serve_connection_cases:
  assumes "serve_connection K n conn s = (Returns, t)"
  shows "(socket_units t = bump_conn n (-1) (socket_units s) \<and> exit_callbacks t = exit_callbacks s) \<or>
    (\<exists>i. ticks s \<le> i \<and> i < ticks t \<and> 0 < k_ret K i Fork \<and> socket_units t = socket_units s \<and>
        exit_callbacks t = um_put (k_ret K i Fork) (Dec_connections n) (exit_callbacks s))"
proof -
  let ?u = "um_at socket_unit_init (socket_units s) n"
  let ?svc = "resolve_pair ?u s"
  show ?thesis
  proof (cases rule: serve_connection_forms [of K n conn s])
    case drop
    with assms have "t = add_connections n (-1) (sys_do K (Close conn) s)" by (simp add: drop_connection_def)
    then show ?thesis by (simp add: add_connections_bump)
  next
    case (spawn unit path args)
    let ?env = "\<lparr>env_fds = [conn], env_names = [su_name ?u]\<rparr>"
    let ?sp = "spawn_with_socket_fds K ?svc path args ?env False (Some unit) s"
    note R = spawn_socket_result [of K ?svc path args ?env False "Some unit" s]
      spawn_socket_ticks [of K ?env s ?svc path args False "Some unit"] fork_time_after [of s K ?env]
    let ?c = "sys_do K (Close conn) (snd ?sp)"
    have "fst ?sp \<noteq> 0" and "t = (if 0 < fst ?sp then on_child_exit (fst ?sp) (Dec_connections n) ?c
        else add_connections n (-1) ?c)"
      using assms spawn by (auto simp: serve_connection_def Let_def split_def split: if_splits)
    then show ?thesis
      using R by (auto simp: add_connections_bump on_child_exit_def Let_def max_def intro: exI [of _ "fork_time K ?env s"])
  qed
qed

text \<open>
  Between two requests the kernel does not hand out the pid of a child that has not been reaped.
\<close>

definition fork_fresh :: "kernel \<Rightarrow> nat \<Rightarrow> nat \<Rightarrow> (pid, exit_callback) umap \<Rightarrow> bool" where
  "fork_fresh K m n c \<longleftrightarrow> list_all (\<lambda>i. 0 < k_ret K i Fork \<longrightarrow> um_get c (k_ret K i Fork) = None) [m..<n]"

lemma accept_ready_conn_ok:
  assumes ok: "conn_ok (socket_units s) (exit_callbacks s)"
    and acc: "accept_ready K lfd s = (Returns, t)"
    and fresh: "fork_fresh K (ticks s) (ticks t) (exit_callbacks s)"
  shows "conn_ok (socket_units t) (exit_callbacks t)"
proof (cases "um_get (fd_to_socket s) lfd")
  case None
  with acc ok show ?thesis by (simp add: accept_ready_def)
next
  case (Some n)
  let ?m = "bump_conn n 0 (socket_units s)" and ?c = "exit_callbacks s"
  let ?u = "um_at socket_unit_init ?m n"
  have ok0: "conn_ok ?m ?c" using ok by (rule conn_ok_bump0)
  show ?thesis
  proof (cases "(0 < su_max_conn ?u \<and> su_max_conn ?u \<le> su_active_connections ?u) \<or>
      k_ret K (ticks s) (Accept4 lfd) < 0")
    case True
    then have "socket_units t = ?m" "exit_callbacks t = ?c"
      using acc Some by (auto simp: accept_ready_def Let_def split_def add_connections_bump split: if_splits)
    with ok0 show ?thesis by simp
  next
    case False
    let ?s1 = "add_connections n 1 (snd (sys K (Accept4 lfd) (add_connections n 0 s)))"
    have serve: "serve_connection K n (k_ret K (ticks s) (Accept4 lfd)) ?s1 = (Returns, t)"
      using acc Some False by (auto simp: accept_ready_def Let_def split_def add_connections_bump)
    have s1: "socket_units ?s1 = bump_conn n 1 ?m" "exit_callbacks ?s1 = ?c" "ticks ?s1 = Suc (ticks s)"
      by (simp_all add: add_connections_bump)
    have undo: "conn_ok (bump_conn n (-1) (bump_conn n 1 ?m)) ?c"
      using conn_ok_bump0 [OF ok0, of n] conn_ok_cong [OF bump_conn_undo] by simp
    have "conn_ok (bump_conn n 1 ?m) (um_put (k_ret K i Fork) (Dec_connections n) ?c)"
      if "Suc (ticks s) \<le> i" "i < ticks t" "0 < k_ret K i Fork" for i
      using False fresh that by (intro conn_ok_accept [OF ok0]) (auto simp: fork_fresh_def list_all_iff)
    with serve_connection_cases [OF serve] s1 undo show ?thesis by auto
  qed
qed

lemma reap_one_sockets:
  "socket_units (reap_one K (p, st) s) = socket_units (reap_callback p s)"
  "exit_callbacks (reap_one K (p, st) s) = exit_callbacks (reap_callback p s)"
  by (auto simp: reap_one_def Let_def reap_untrack_def schedule_restart_def split: option.split)

lemma reap_one_conn_ok:
  assumes "conn_ok (socket_units s) (exit_callbacks s)"
  shows "conn_ok (socket_units (reap_one K ps s)) (exit_callbacks (reap_one K ps s))"
proof (cases ps)
  case (Pair p st)
  show ?thesis
  proof (cases "um_get (exit_callbacks s) p")
    case None
    with assms Pair show ?thesis by (simp add: reap_one_sockets reap_callback_def)
  next
    case (Some cb)
    obtain n where n: "cb = Dec_connections n" by (cases cb)
    from conn_ok_exit [OF assms Some [unfolded n]] Some n Pair show ?thesis
      by (auto simp: reap_one_sockets reap_callback_def run_exit_callback_def Let_def)
  qed
qed

text \<open>What the monitor loop does to connections: accept on a ready socket, and reap.\<close>

inductive conn_step :: "kernel \<Rightarrow> 'a socket_st_scheme \<Rightarrow> 'a socket_st_scheme \<Rightarrow> bool" for K where
  cs_accept: "\<lbrakk>accept_ready K lfd s = (Returns, t); fork_fresh K (ticks s) (ticks t) (exit_callbacks s)\<rbrakk> \<Longrightarrow>
    conn_step K s t"
| cs_reap: "conn_step K s (reap_children K s)"

lemma conn_step_ok:
  assumes "conn_step K s t" "conn_ok (socket_units s) (exit_callbacks s)"
  shows "conn_ok (socket_units t) (exit_callbacks t)"
  using assms
proof cases
  case (cs_accept lfd)
  with assms(2) show ?thesis by (blast intro: accept_ready_conn_ok)
next
  case cs_reap
  show ?thesis
    unfolding cs_reap reap_children_def
    by (rule fold_inv [where P = "\<lambda>s. conn_ok (socket_units s) (exit_callbacks s)"])
       (use assms(2) in \<open>simp_all add: reap_one_conn_ok\<close>)
qed

text \<open>Over every sequence of accepted connections and reaped children, the connection counter of a
  socket unit is exactly the number of its connections still being served, and it never
  exceeds \<open>MaxConnections=\<close> when that is set. (A new child's pid is one the kernel has not
  already given to an unreaped child.)\<close>

theorem max_connections_respected:
  assumes "(conn_step K)\<^sup>*\<^sup>* s t" and "exit_callbacks s = []"
    and "\<forall>n u. um_get (socket_units s) n = Some u \<longrightarrow> su_active_connections u = 0"
    and "um_get (socket_units t) n = Some u"
  shows "su_active_connections u = live_connections (exit_callbacks t) n \<and>
    (0 < su_max_conn u \<longrightarrow> su_active_connections u \<le> su_max_conn u)"
proof -
  have "conn_ok (socket_units s) (exit_callbacks s)"
    using assms(2,3) by (auto simp: conn_ok_def live_connections_def)
  with assms(1) have "conn_ok (socket_units t) (exit_callbacks t)"
    by (induction rule: rtranclp_induct) (auto intro: conn_step_ok)
  with assms(4) show ?thesis by (auto simp: conn_ok_def)
qed

definition demo_listening :: init_system where
  "demo_listening = init_system_new\<lparr>
     units := [(''a.service'', unit_file_init\<lparr>uf_name := ''a.service'', uf_exec_start := ''/bin/a''\<rparr>)],
     socket_units := [(''a.socket'', socket_unit_init\<lparr>su_name := ''a.socket'', su_accept := True, su_max_conn := 1,
       su_listen := [\<lparr>le_type = LT_Stream, le_address = ''/run/a'', le_fd = 7, le_name = []\<rparr>]\<rparr>)],
     fd_to_socket := [(7, ''a.socket'')]\<rparr>"

definition demo_accepted :: init_system where
  "demo_accepted = snd (accept_ready demo_kernel 7 demo_listening)"

theorem max_connections_respected_witness:
  "live_connections (exit_callbacks demo_accepted) ''a.socket'' = 1 \<and>
   su_active_connections (the (um_get (socket_units demo_accepted) ''a.socket'')) = 1"
proof -
  have "accept_ready demo_kernel 7 demo_listening = (Returns, demo_accepted)"
    unfolding demo_accepted_def by (rule prod_eqI) (simp_all, code_simp)
  moreover have "fork_fresh demo_kernel (ticks demo_listening) (ticks demo_accepted) (exit_callbacks demo_listening)"
    by code_simp
  ultimately have st: "conn_step demo_kernel demo_listening demo_accepted" by (rule cs_accept)
  have u: "um_get (socket_units demo_accepted) ''a.socket'' = Some (the (um_get (socket_units demo_accepted) ''a.socket''))"
    by code_simp
  have l: "live_connections (exit_callbacks demo_accepted) ''a.socket'' = 1" by code_simp
  have z: "\<forall>n u. um_get (socket_units demo_listening) n = Some u \<longrightarrow> su_active_connections u = 0"
    by (auto simp: demo_listening_def um_get_def socket_unit_init_def split: if_splits)
  have e: "exit_callbacks demo_listening = []" by (simp add: demo_listening_def init_system_new_def)
  from max_connections_respected [OF r_into_rtranclp [of "conn_step demo_kernel", OF st] e z u] l show ?thesis by simp
qed

section \<open>Closing\<close>

text \<open>The requests that close one listening descriptor and remove its path.\<close>

definition close_requests :: "listen_entry \<Rightarrow> syscall list" where
  "close_requests le =
     (if le_fd le < 0 then []
      else Close (le_fd le) #
        (if starts_with (le_address le) ''/'' then [Unlink (le_address le)] else []))"

lemma close_entries_spec:
  "fst (close_entries K les s) = map (\<lambda>le. if le_fd le < 0 then le else le\<lparr>le_fd := -1\<rparr>) les"
  "trace (snd (close_entries K les s)) = trace s @ concat (map close_requests les)"
proof (induction les arbitrary: s)
  case (Cons le les)
  have r: "fst (close_entry K le s) = (if le_fd le < 0 then le else le\<lparr>le_fd := -1\<rparr>)"
    "trace (snd (close_entry K le s)) = trace s @ close_requests le" for s :: "'a kst_scheme"
    by (cases "le_address le"; auto simp: close_entry_def close_requests_def starts_with_def Let_def)+
  { case 1 show ?case using Cons.IH(1) r by (simp add: Let_def split_def) }
  { case 2 show ?case using Cons.IH(2) r by (simp add: Let_def split_def) }
qed simp_all

lemma close_units_spec:
  "fst (close_units K m s) =
     map (\<lambda>(n, u). (n, u\<lparr>su_listen := map (\<lambda>le. if le_fd le < 0 then le else le\<lparr>le_fd := -1\<rparr>) (su_listen u)\<rparr>)) m"
  "trace (snd (close_units K m s)) = trace s @ concat (map close_requests (concat (map (su_listen \<circ> snd) m)))"
proof (induction m arbitrary: s)
  case (Cons nu m)
  { case 1 show ?case using Cons.IH(1) by (cases nu) (simp add: Let_def split_def close_entries_spec) }
  { case 2 show ?case using Cons.IH(2) by (cases nu) (simp add: Let_def split_def close_entries_spec) }
qed simp_all

text \<open>C35: shutting the sockets down closes every open listening descriptor exactly once, in table order,
  removing the file of each that is bound to a path and touching nothing else; afterwards no
  entry holds a descriptor, so a second shutdown makes no request.\<close>

theorem close_all_sockets_once:
  "trace (close_all_sockets K s) =
     trace s @ concat (map close_requests (concat (map (su_listen \<circ> snd) (socket_units s)))) \<and>
   list_all (\<lambda>nu. list_all (\<lambda>le. le_fd le < 0) (su_listen (snd nu))) (socket_units (close_all_sockets K s)) \<and>
   map fst (socket_units (close_all_sockets K s)) = map fst (socket_units s) \<and>
   trace (close_all_sockets K' (close_all_sockets K s)) = trace (close_all_sockets K s)"
proof -
  let ?m = "socket_units (close_all_sockets K s)"
  have m: "?m = fst (close_units K (socket_units s) s)"
    by (simp add: close_all_sockets_def split_def Let_def)
  have tr: "trace (close_all_sockets K s) =
      trace s @ concat (map close_requests (concat (map (su_listen \<circ> snd) (socket_units s))))"
    for K and s :: "'a socket_st_scheme"
    by (simp add: close_all_sockets_def split_def close_units_spec Let_def)
  have neg: "\<forall>nu \<in> set ?m. \<forall>le \<in> set (su_listen (snd nu)). le_fd le < 0"
    by (auto simp: m close_units_spec)
  moreover have "map fst ?m = map fst (socket_units s)"
    by (simp add: m close_units_spec split_def)
  moreover have "concat (map close_requests (concat (map (su_listen \<circ> snd) ?m))) = []"
    using neg by (auto simp: close_requests_def)
  ultimately show ?thesis
    using tr [of K s] tr [of K' "close_all_sockets K s"] neg by (simp add: list_all_iff)
qed

end
