(* ===== verification/Dep_Resolve.thy ===== *)
theory Dep_Resolve
  imports Unit_Parse
begin

text \<open>
  The dependency phase of \<open>UnitExecMixin\<close> (\<open>src/include/trivialInit/mixins/unit_exec.hpp\<close>):
  Kahn's algorithm over \<open>After=\<close> and \<open>Requires=\<close>. The order in which the in-degree table is
  walked is unspecified (a hash table), so it is a parameter \<open>it\<close>.
\<close>

section \<open>The code\<close>

type_synonym dep_graph = "(string, string list) umap \<times> (string, int) umap"

definition add_edge :: "string \<times> string \<Rightarrow> dep_graph \<Rightarrow> dep_graph" where
  "add_edge e g =
     (let (dep, name) = e; (graph, in_degree) = g
      in (um_put dep (um_at [] graph dep @ [name]) graph,
          um_put name (um_at 0 in_degree name + 1) in_degree))"

text \<open>The dependencies of a unit the two inner loops turn into edges, in order.\<close>

definition unit_deps :: "(string, unit_file) umap \<Rightarrow> unit_file \<Rightarrow> string list" where
  "unit_deps us u =
     filter (\<lambda>dep. um_get us dep \<noteq> None) (uf_after u) @
     filter (\<lambda>dep. um_get us dep \<noteq> None \<and> dep \<notin> set (uf_after u)) (uf_requires u)"

definition add_unit_edges :: "(string, unit_file) umap \<Rightarrow> string \<times> unit_file \<Rightarrow> dep_graph \<Rightarrow> dep_graph" where
  "add_unit_edges us nu g = fold (\<lambda>dep. add_edge (dep, fst nu)) (unit_deps us (snd nu)) g"

definition init_graph :: "(string, unit_file) umap \<Rightarrow> dep_graph" where
  "init_graph us =
     fold (\<lambda>(name, _) (graph, in_degree).
             (um_put name (um_at [] graph name) graph, um_put name 0 in_degree)) us ([], [])"

definition build_graph :: "(string, unit_file) umap \<Rightarrow> dep_graph" where
  "build_graph us = fold (add_unit_edges us) us (init_graph us)"

text \<open>\<open>if (--in_degree[next] == 0) ready.push(next)\<close>\<close>

definition relax :: "string \<Rightarrow> string list \<times> (string, int) umap \<Rightarrow> string list \<times> (string, int) umap" where
  "relax next qd =
     (let (ready, in_degree) = qd;
          v = um_at 0 in_degree next - 1
      in (if v = 0 then ready @ [next] else ready, um_put next v in_degree))"

text \<open>Each turn takes one name off the queue, and a name enters it when its degree falls from
  one to zero, so the loop ends for every table.\<close>

definition positive_degrees :: "(string, int) umap \<Rightarrow> nat" where
  "positive_degrees d = length (filter (\<lambda>p. 0 < snd p) d)"

lemma positive_degrees_put:
  "positive_degrees (um_put k v d) + (if 0 < um_at 0 d k then 1 else 0) =
     positive_degrees d + (if 0 < v then 1 else 0)"
  by (induction d) (auto simp: positive_degrees_def um_at_def um_get_def um_put_def)

lemma relax_fold_bound:
  "length (fst (fold relax ns (q, d))) + positive_degrees (snd (fold relax ns (q, d))) \<le>
     length q + positive_degrees d"
proof (induction ns arbitrary: q d)
  case (Cons n ns)
  let ?v = "um_at 0 d n - 1"
  have r: "relax n (q, d) = (if ?v = 0 then q @ [n] else q, um_put n ?v d)"
    by (simp add: relax_def Let_def)
  have "length (if ?v = 0 then q @ [n] else q) + positive_degrees (um_put n ?v d) \<le> length q + positive_degrees d"
    using positive_degrees_put [of n ?v d] by (cases "?v = 0") (auto split: if_splits)
  with Cons.IH [of "if ?v = 0 then q @ [n] else q" "um_put n ?v d"] show ?case by (simp add: r)
qed simp

function kahn :: "(string, string list) umap \<Rightarrow> string list \<Rightarrow> (string, int) umap \<Rightarrow> string list \<Rightarrow> string list" where
  "kahn graph [] in_degree order = order"
| "kahn graph (cur # ready) in_degree order =
     (let qd = fold relax (um_at [] graph cur) (ready, in_degree)
      in kahn graph (fst qd) (snd qd) (order @ [cur]))"
  by pat_completeness auto
termination
proof (relation "measure (\<lambda>(graph, q, d, order). length q + positive_degrees d)", goal_cases)
  case (2 graph cur ready d order qd)
  then show ?case using relax_fold_bound [of "um_at [] graph cur" ready d] by simp
qed simp

definition dependency_order :: "string list \<Rightarrow> (string, unit_file) umap \<Rightarrow> string list" where
  "dependency_order it us =
     (let (graph, in_degree) = build_graph us
      in kahn graph (filter (\<lambda>n. um_at 0 in_degree n = 0) it) in_degree [])"

definition execute_DependencyResolve :: "kernel \<Rightarrow> string list \<Rightarrow> 'a unit_exec_st_scheme \<Rightarrow> int \<times> 'a unit_exec_st_scheme" where
  "execute_DependencyResolve K it s =
     (let s = log K Info ''executor'' ''Resolving dependency graph'' s;
          s = s\<lparr>exec_order := dependency_order it (units s)\<rparr>;
          s = (if length (exec_order s) < length (units s)
               then log_fmt K Warning ''executor'' ''Dependency cycle detected! Resolved {}/{} units''
                      [show_nat (length (exec_order s)), show_nat (length (units s))] s
               else s)
      in (0, log_fmt K Info ''executor'' ''Execution order: {} units'' [show_nat (length (exec_order s))] s))"

section \<open>The graph\<close>

text \<open>All edges, dependency first, in the order they are added.\<close>

definition dep_edges :: "(string, unit_file) umap \<Rightarrow> (string \<times> string) list" where
  "dep_edges us = concat (map (\<lambda>nu. map (\<lambda>dep. (dep, fst nu)) (unit_deps us (snd nu))) us)"

lemma build_graph_edges: "build_graph us = fold add_edge (dep_edges us) (init_graph us)"
proof -
  have "fold (add_unit_edges us) xs g =
      fold add_edge (concat (map (\<lambda>nu. map (\<lambda>dep. (dep, fst nu)) (unit_deps us (snd nu))) xs)) g" for xs g
    by (induction xs arbitrary: g) (simp_all add: add_unit_edges_def fold_map comp_def)
  then show ?thesis by (simp add: build_graph_def dep_edges_def)
qed

lemma um_at_put [simp]: "um_at dflt (um_put k v m) k' = (if k' = k then v else um_at dflt m k')"
  by (simp add: um_at_def)

lemma fold_add_edge:
  "um_at [] (fst (fold add_edge es g)) d = um_at [] (fst g) d @ map snd (filter (\<lambda>e. fst e = d) es)"
  "um_at 0 (snd (fold add_edge es g)) n = um_at 0 (snd g) n + int (length (filter (\<lambda>e. snd e = n) es))"
  by (induction es arbitrary: g) (auto simp: add_edge_def Let_def split_def)

lemma init_graph_zero: "um_at [] (fst (init_graph us)) d = []" "um_at 0 (snd (init_graph us)) n = 0"
proof -
  let ?f = "\<lambda>(name, _ :: unit_file) (graph :: (string, string list) umap, in_degree :: (string, int) umap).
    (um_put name (um_at [] graph name) graph, um_put name 0 in_degree)"
  have *: "um_at [] (fst (fold ?f xs g)) d = um_at [] (fst g) d \<and>
     (um_at 0 (snd g) n = 0 \<longrightarrow> um_at 0 (snd (fold ?f xs g)) n = 0)" for xs g
    by (induction xs arbitrary: g) (auto simp: split_def)
  show "um_at [] (fst (init_graph us)) d = []" "um_at 0 (snd (init_graph us)) n = 0"
    using * [of us "([], [])"] by (simp_all add: init_graph_def um_at_def)
qed

lemma build_graph_spec:
  "um_at [] (fst (build_graph us)) d = map snd (filter (\<lambda>e. fst e = d) (dep_edges us))"
  "um_at 0 (snd (build_graph us)) n = int (length (filter (\<lambda>e. snd e = n) (dep_edges us)))"
  by (simp_all add: build_graph_edges fold_add_edge init_graph_zero)

lemma dep_edges_iff:
  assumes "um_wf us"
  shows "(d, n) \<in> set (dep_edges us) \<longleftrightarrow>
    (\<exists>u. um_get us n = Some u \<and> um_get us d \<noteq> None \<and> d \<in> set (uf_after u) \<union> set (uf_requires u))"
proof -
  have "(d, n) \<in> set (dep_edges us) \<longleftrightarrow> (\<exists>u. (n, u) \<in> set us \<and> d \<in> set (unit_deps us u))"
    by (force simp: dep_edges_def)
  also have "\<dots> \<longleftrightarrow> (\<exists>u. um_get us n = Some u \<and> d \<in> set (unit_deps us u))"
    using um_get_in [OF assms] by auto
  finally show ?thesis by (auto simp: unit_deps_def)
qed

section \<open>The loop\<close>

lemma relax_fold:
  assumes "\<And>n. n \<in> set ns \<Longrightarrow> int (count_list ns n) \<le> um_at 0 d n"
  shows "\<exists>new d'. fold relax ns (q, d) = (q @ new, d') \<and> distinct new \<and>
    set new = {n \<in> set ns. um_at 0 d n = int (count_list ns n)} \<and>
    (\<forall>n. um_at 0 d' n = um_at 0 d n - int (count_list ns n))"
  using assms
proof (induction ns arbitrary: q d)
  case (Cons x ns)
  let ?d = "um_put x (um_at 0 d x - 1) d" and ?q = "if um_at 0 d x = 1 then q @ [x] else q"
  have r: "relax x (q, d) = (?q, ?d)" by (simp add: relax_def Let_def)
  have "int (count_list ns n) \<le> um_at 0 ?d n" if "n \<in> set ns" for n
    using Cons.prems [of n] that by (auto split: if_splits)
  then obtain new d' where IH: "fold relax ns (?q, ?d) = (?q @ new, d')" "distinct new"
      "set new = {n \<in> set ns. um_at 0 ?d n = int (count_list ns n)}"
      "\<forall>n. um_at 0 d' n = um_at 0 ?d n - int (count_list ns n)"
    using Cons.IH [of ?d ?q] by blast
  let ?new = "(if um_at 0 d x = 1 then [x] else []) @ new"
  have once: "x \<notin> set ns" if "um_at 0 d x = 1"
    using Cons.prems [of x] that by (auto simp: count_list_0_iff)
  have "fold relax (x # ns) (q, d) = (q @ ?new, d')" using IH(1) by (simp add: r)
  moreover have "distinct ?new" using IH(2,3) once by auto
  moreover have "set ?new = {n \<in> set (x # ns). um_at 0 d n = int (count_list (x # ns) n)}"
  proof (rule set_eqI)
    fix n
    have "count_list ns x = 0" if "um_at 0 d x = 1" using once [OF that] by (simp add: count_list_0_iff)
    moreover have "n \<in> set new \<longleftrightarrow> n \<in> set ns \<and> um_at 0 ?d n = int (count_list ns n)" using IH(3) by blast
    ultimately show "n \<in> set ?new \<longleftrightarrow> n \<in> {n \<in> set (x # ns). um_at 0 d n = int (count_list (x # ns) n)}"
      using once by (cases "n = x"; cases "um_at 0 d x = 1"; cases "x \<in> set ns") (auto simp: count_list_0_iff)
  qed
  moreover have "\<forall>n. um_at 0 d' n = um_at 0 d n - int (count_list (x # ns) n)" using IH(4) by auto
  ultimately show ?case by blast
qed simp

text \<open>
  What holds between two turns, for the edges \<open>E\<close> over the names \<open>N\<close>: the degree of a name is
  the number of its edges from unprocessed dependencies, and it is zero exactly when the name
  has been queued.
\<close>

definition kahn_inv :: "string set \<Rightarrow> (string \<times> string) list \<Rightarrow> string list \<Rightarrow> (string, int) umap \<Rightarrow> string list \<Rightarrow> bool" where
  "kahn_inv N E q d order \<longleftrightarrow>
     distinct (order @ q) \<and> set (order @ q) \<subseteq> N \<and>
     (\<forall>n. um_at 0 d n = int (length (filter (\<lambda>e. snd e = n \<and> fst e \<notin> set order) E))) \<and>
     (\<forall>n\<in>N. n \<in> set (order @ q) \<longleftrightarrow> um_at 0 d n = 0) \<and>
     (\<forall>i < length order. \<forall>a. (a, order ! i) \<in> set E \<longrightarrow> a \<in> set (take i order))"

text \<open>How many edges into \<open>n\<close> come from a unit that is not scheduled yet.\<close>

definition open_edges :: "(string \<times> string) list \<Rightarrow> string list \<Rightarrow> string \<Rightarrow> nat" where
  "open_edges E order n = length (filter (\<lambda>e. snd e = n \<and> fst e \<notin> set order) E)"

lemma open_edges_step:
  assumes "cur \<notin> set order" and ns: "ns = map snd (filter (\<lambda>e. fst e = cur) E)"
  shows "open_edges E order n = open_edges E (order @ [cur]) n + count_list ns n"
proof -
  have "count_list ns n = length (filter (\<lambda>e. snd e = n \<and> fst e = cur) E)"
    unfolding ns by (induction E) auto
  moreover have "open_edges E order n =
      open_edges E (order @ [cur]) n + length (filter (\<lambda>e. snd e = n \<and> fst e = cur) E)"
    using assms(1) unfolding open_edges_def by (induction E) auto
  ultimately show ?thesis by simp
qed

lemma kahn_inv_step:
  assumes inv: "kahn_inv N E (cur # ready) d order" and E: "snd ` set E \<subseteq> N"
    and ns: "ns = map snd (filter (\<lambda>e. fst e = cur) E)"
  shows "kahn_inv N E (fst (fold relax ns (ready, d))) (snd (fold relax ns (ready, d))) (order @ [cur])"
proof -
  have deg: "\<And>n. um_at 0 d n = int (open_edges E order n)"
    and queued: "\<And>n. n \<in> N \<Longrightarrow> n \<in> set (order @ cur # ready) \<longleftrightarrow> um_at 0 d n = 0"
    and dist: "distinct (order @ cur # ready)" and sub: "set (order @ cur # ready) \<subseteq> N"
    and ord: "\<And>i a. i < length order \<Longrightarrow> (a, order ! i) \<in> set E \<Longrightarrow> a \<in> set (take i order)"
    using inv unfolding kahn_inv_def open_edges_def by blast+
  have cnt: "open_edges E order n = open_edges E (order @ [cur]) n + count_list ns n" for n
    by (rule open_edges_step [OF _ ns]) (use dist in simp)
  have "int (count_list ns n) \<le> um_at 0 d n" for n using deg cnt [of n] by simp
  then obtain new d' where fold: "fold relax ns (ready, d) = (ready @ new, d')" "distinct new"
      "set new = {n \<in> set ns. um_at 0 d n = int (count_list ns n)}"
      "\<And>n. um_at 0 d' n = um_at 0 d n - int (count_list ns n)"
    using relax_fold [of ns d ready] by blast
  have nsN: "set ns \<subseteq> N" using E ns by auto
  have pos: "um_at 0 d n \<noteq> 0" if "n \<in> set ns" for n
  proof -
    have "count_list ns n \<noteq> 0" using that by (simp add: count_list_0_iff)
    with deg [of n] cnt [of n] show ?thesis by simp
  qed
  have "distinct ((order @ [cur]) @ ready @ new)"
    using dist fold(2,3) pos queued nsN by auto
  moreover have "set ((order @ [cur]) @ ready @ new) \<subseteq> N" using sub fold(3) nsN by auto
  moreover have "\<forall>n. um_at 0 d' n = int (open_edges E (order @ [cur]) n)"
    using fold(4) deg cnt by simp
  moreover have "\<forall>n\<in>N. n \<in> set ((order @ [cur]) @ ready @ new) \<longleftrightarrow> um_at 0 d' n = 0"
  proof
    fix n assume n: "n \<in> N"
    have "n \<in> set ((order @ [cur]) @ ready @ new) \<longleftrightarrow> um_at 0 d n = 0 \<or> n \<in> set new"
      using queued [OF n] by auto
    also have "\<dots> \<longleftrightarrow> um_at 0 d n = int (count_list ns n)"
    proof (cases "n \<in> set ns")
      case False
      then have "count_list ns n = 0" by (simp add: count_list_0_iff)
      with False fold(3) show ?thesis by simp
    qed (use fold(3) pos in auto)
    finally show "n \<in> set ((order @ [cur]) @ ready @ new) \<longleftrightarrow> um_at 0 d' n = 0" using fold(4) by simp
  qed
  moreover have "a \<in> set (take i (order @ [cur]))"
    if "i < length (order @ [cur])" "(a, (order @ [cur]) ! i) \<in> set E" for i a
  proof (cases "i < length order")
    case True
    with that ord show ?thesis by (simp add: nth_append)
  next
    case False
    with that have "i = length order" "(a, cur) \<in> set E" by (auto simp: nth_append)
    moreover have "open_edges E order cur = 0" using deg [of cur] queued [of cur] sub by simp
    ultimately show ?thesis by (auto simp: open_edges_def filter_empty_conv)
  qed
  ultimately show ?thesis unfolding kahn_inv_def fold(1) open_edges_def by simp
qed

lemma kahn_correct:
  assumes "kahn_inv N E q d order" and "snd ` set E \<subseteq> N"
    and "\<And>c. um_at [] graph c = map snd (filter (\<lambda>e. fst e = c) E)"
  shows "\<exists>d'. kahn_inv N E [] d' (kahn graph q d order)"
  using assms
proof (induction graph q d order rule: kahn.induct)
  case (2 graph cur ready d order)
  show ?case
    using 2(1) [OF refl kahn_inv_step [OF 2(2,3) 2(4)] 2(3,4)] by (simp add: Let_def)
qed auto

lemma dependency_order_inv:
  assumes wf: "um_wf us" and it: "distinct it" "set it = set (um_keys us)"
  shows "\<exists>d. kahn_inv (set (um_keys us)) (dep_edges us) [] d (dependency_order it us)"
proof -
  let ?N = "set (um_keys us)" and ?E = "dep_edges us" and ?deg = "snd (build_graph us)"
  have E: "snd ` set ?E \<subseteq> ?N"
    using dep_edges_iff [OF wf] by (auto simp: um.keys_get)
  have "kahn_inv ?N ?E (filter (\<lambda>n. um_at 0 ?deg n = 0) it) ?deg []"
    using it by (auto simp: kahn_inv_def build_graph_spec)
  from kahn_correct [OF this E build_graph_spec(1)] show ?thesis
    by (simp add: dependency_order_def split_def Let_def)
qed

text \<open>What an order has to satisfy, and the relation it has to respect.\<close>

definition dep_rel :: "(string, unit_file) umap \<Rightarrow> (string \<times> string) set" where
  "dep_rel us = {(d, n). \<exists>u. um_get us n = Some u \<and> um_get us d \<noteq> None \<and> d \<in> set (uf_after u) \<union> set (uf_requires u)}"

lemma order_facts:
  assumes "um_wf us" "distinct it" "set it = set (um_keys us)"
  defines "ord \<equiv> dependency_order it us"
  shows "distinct ord" "set ord \<subseteq> set (um_keys us)"
    "\<And>i d. i < length ord \<Longrightarrow> (d, ord ! i) \<in> dep_rel us \<Longrightarrow> d \<in> set (take i ord)"
    "\<And>n. n \<in> set (um_keys us) \<Longrightarrow> n \<notin> set ord \<Longrightarrow> \<exists>d. (d, n) \<in> dep_rel us \<and> d \<notin> set ord"
proof -
  have R: "set (dep_edges us) = dep_rel us"
    using dep_edges_iff [OF assms(1)] by (auto simp: dep_rel_def)
  obtain d where inv: "kahn_inv (set (um_keys us)) (dep_edges us) [] d ord"
    using dependency_order_inv [OF assms(1-3)] unfolding ord_def by blast
  then show "distinct ord" "set ord \<subseteq> set (um_keys us)"
    "\<And>i d. i < length ord \<Longrightarrow> (d, ord ! i) \<in> dep_rel us \<Longrightarrow> d \<in> set (take i ord)"
    unfolding kahn_inv_def R by auto
  fix n assume n: "n \<in> set (um_keys us)" "n \<notin> set ord"
  with inv have "length (filter (\<lambda>e. snd e = n \<and> fst e \<notin> set ord) (dep_edges us)) \<noteq> 0"
    unfolding kahn_inv_def by auto
  then obtain e where "e \<in> set (dep_edges us)" "snd e = n" "fst e \<notin> set ord"
    by (auto simp: filter_empty_conv)
  then have "(fst e, n) \<in> dep_rel us \<and> fst e \<notin> set ord" unfolding R [symmetric] by (metis prod.collapse)
  then show "\<exists>d. (d, n) \<in> dep_rel us \<and> d \<notin> set ord" by blast
qed

text \<open>C2: the execution order starts dependencies first. It lists units at most once, only known units,
  and every unit comes after all units its \<open>After=\<close> and \<open>Requires=\<close> name, whatever order the
  hash table is walked in.\<close>

theorem dependency_order_sound:
  assumes "um_wf us" "distinct it" "set it = set (um_keys us)"
  shows "distinct (dependency_order it us) \<and>
    set (dependency_order it us) \<subseteq> set (um_keys us) \<and>
    (\<forall>i < length (dependency_order it us). \<forall>u d.
       um_get us (dependency_order it us ! i) = Some u \<longrightarrow> d \<in> set (uf_after u) \<union> set (uf_requires u) \<longrightarrow>
       um_get us d \<noteq> None \<longrightarrow> (\<exists>j < i. dependency_order it us ! j = d))"
proof -
  note F = order_facts [OF assms]
  have "\<exists>j < i. dependency_order it us ! j = d"
    if "i < length (dependency_order it us)" "um_get us (dependency_order it us ! i) = Some u"
      "d \<in> set (uf_after u) \<union> set (uf_requires u)" "um_get us d \<noteq> None" for i u d
  proof -
    have "d \<in> set (take i (dependency_order it us))"
      by (rule F(3) [OF that(1)]) (use that in \<open>auto simp: dep_rel_def\<close>)
    then show ?thesis using that(1) by (auto simp: in_set_conv_nth)
  qed
  with F(1,2) show ?thesis by blast
qed

definition demo_units :: "(string, unit_file) umap" where
  "demo_units =
     [(''b'', unit_file_init\<lparr>uf_name := ''b'', uf_after := [''a''], uf_requires := [''a'', ''ghost'']\<rparr>),
      (''a'', unit_file_init\<lparr>uf_name := ''a''\<rparr>),
      (''c'', unit_file_init\<lparr>uf_name := ''c'', uf_requires := [''d'']\<rparr>),
      (''d'', unit_file_init\<lparr>uf_name := ''d'', uf_after := [''c'']\<rparr>)]"

lemma demo_units_wf: "um_wf demo_units" "set [''b'', ''a'', ''c'', ''d''] = set (um_keys demo_units)"
  by code_simp+

lemma demo_units_order: "dependency_order [''b'', ''a'', ''c'', ''d''] demo_units = [''a'', ''b'']"
  by code_simp

theorem dependency_order_sound_witness:
  "um_wf demo_units \<and> dependency_order [''b'', ''a'', ''c'', ''d''] demo_units = [''a'', ''b''] \<and>
   (\<exists>j < (1 :: nat). [''a'', ''b''] ! j = ''a'')"
proof -
  have u: "um_get demo_units ''b'' = Some (the (um_get demo_units ''b''))"
    "''a'' \<in> set (uf_after (the (um_get demo_units ''b'')))" "um_get demo_units ''a'' \<noteq> None"
    by code_simp+
  have "\<forall>i < length [''a'', ''b'']. \<forall>u d.
       um_get demo_units ([''a'', ''b''] ! i) = Some u \<longrightarrow> d \<in> set (uf_after u) \<union> set (uf_requires u) \<longrightarrow>
       um_get demo_units d \<noteq> None \<longrightarrow> (\<exists>j < i. [''a'', ''b''] ! j = d)"
    using dependency_order_sound [OF demo_units_wf(1) _ demo_units_wf(2)] unfolding demo_units_order by simp
  from this [rule_format, of 1 "the (um_get demo_units ''b'')" "''a''"] u demo_units_wf(1) demo_units_order
  show ?thesis by simp
qed

lemma order_earlier:
  assumes "um_wf us" "distinct it" "set it = set (um_keys us)"
    and "(m, n) \<in> (dep_rel us)\<^sup>+" "n = dependency_order it us ! i" "i < length (dependency_order it us)"
  shows "\<exists>j < i. dependency_order it us ! j = m"
  using assms(4-6)
proof (induction arbitrary: i rule: trancl_induct)
  case (base n)
  with order_facts(3) [OF assms(1-3), of i m] show ?case by (auto simp: in_set_conv_nth)
next
  case (step n n')
  with order_facts(3) [OF assms(1-3), of i n] obtain j where j: "j < i" "dependency_order it us ! j = n"
    by (auto simp: in_set_conv_nth)
  with step.IH [of j] step.prems show ?case by (auto intro: less_trans)
qed

text \<open>\<open>n\<close> is, or depends on, a unit that depends on itself.\<close>

definition on_cycle :: "('a \<times> 'a) set \<Rightarrow> 'a \<Rightarrow> bool" where
  "on_cycle R n \<longleftrightarrow> (\<exists>m. (m, m) \<in> R\<^sup>+ \<and> (m, n) \<in> R\<^sup>*)"

lemma scheduled_no_cycle:
  assumes "um_wf us" "distinct it" "set it = set (um_keys us)" "n \<in> set (dependency_order it us)"
  shows "\<not> on_cycle (dep_rel us) n"
proof
  let ?R = "dep_rel us" and ?O = "dependency_order it us"
  note earlier = order_earlier [OF assms(1-3)]
  assume "on_cycle ?R n"
  then obtain m where m: "(m, m) \<in> ?R\<^sup>+" "(m, n) \<in> ?R\<^sup>*" by (auto simp: on_cycle_def)
  have "m \<in> set ?O"
    using m(2) assms(4) earlier by (auto simp: rtrancl_eq_or_trancl in_set_conv_nth) (meson order.strict_trans)
  then obtain i where i: "i < length ?O" "?O ! i = m" by (auto simp: in_set_conv_nth)
  with earlier [OF m(1)] order_facts(1) [OF assms(1-3)] show False by (auto simp: nth_eq_iff_index_eq)
qed

lemma no_cycle_scheduled:
  assumes "um_wf us" "distinct it" "set it = set (um_keys us)" "n \<in> set (um_keys us)" "\<not> on_cycle (dep_rel us) n"
  shows "n \<in> set (dependency_order it us)"
proof (rule ccontr)
  let ?R = "dep_rel us" and ?O = "dependency_order it us" and ?N = "set (um_keys us)"
  have RN: "?R \<subseteq> ?N \<times> ?N" by (auto simp: dep_rel_def um.keys_get)
  assume no: "n \<notin> set ?O"
  let ?U = "{m. (m, n) \<in> ?R\<^sup>*}"
  let ?R' = "?R \<inter> ?U \<times> ?U"
  have "(m, m) \<notin> ?R'\<^sup>+" for m
  proof
    assume "(m, m) \<in> ?R'\<^sup>+"
    moreover have "?R'\<^sup>+ \<subseteq> ?R\<^sup>+" "?R'\<^sup>+ \<subseteq> ?U \<times> ?U"
      by (auto intro: trancl_mono) (meson IntD2 mem_Sigma_iff tranclD tranclD2 mem_Collect_eq)+
    ultimately show False using assms(5) by (auto simp: on_cycle_def)
  qed
  then have "wf ?R'" using RN by (intro finite_acyclic_wf) (auto simp: acyclic_def intro: finite_subset)
  moreover have "n \<in> ?U - set ?O" using no by simp
  ultimately obtain m where m: "m \<in> ?U - set ?O" "\<And>y. (y, m) \<in> ?R' \<Longrightarrow> y \<notin> ?U - set ?O"
    by (rule wfE_min) blast
  have "m \<in> ?N" using m(1) assms(4) RN by (auto elim: converse_rtranclE)
  with order_facts(4) [OF assms(1-3)] m(1) obtain y where "(y, m) \<in> ?R" "y \<notin> set ?O" by blast
  with m show False by (auto intro: converse_rtrancl_into_rtrancl)
qed

lemma order_complete:
  assumes "um_wf us" "distinct it" "set it = set (um_keys us)"
  shows "set (dependency_order it us) =
      {n \<in> set (um_keys us). \<not> (\<exists>m. (m, m) \<in> (dep_rel us)\<^sup>+ \<and> (m, n) \<in> (dep_rel us)\<^sup>*)}"
    and "set (dependency_order it us) = set (um_keys us) \<longleftrightarrow> acyclic (dep_rel us)"
proof -
  let ?R = "dep_rel us" and ?O = "dependency_order it us" and ?N = "set (um_keys us)"
  have eq: "set ?O = {n \<in> ?N. \<not> on_cycle ?R n}"
    using order_facts(2) [OF assms] scheduled_no_cycle [OF assms] no_cycle_scheduled [OF assms] by blast
  then show "set ?O = {n \<in> ?N. \<not> (\<exists>m. (m, m) \<in> ?R\<^sup>+ \<and> (m, n) \<in> ?R\<^sup>*)}" by (simp add: on_cycle_def)
  show "set ?O = ?N \<longleftrightarrow> acyclic ?R"
  proof
    assume O: "set ?O = ?N"
    have "(m, m) \<notin> ?R\<^sup>+" for m
    proof
      assume m: "(m, m) \<in> ?R\<^sup>+"
      then have "m \<in> ?N" using tranclD [OF m] by (auto simp: dep_rel_def um.keys_get)
      with O eq m show False by (auto simp: on_cycle_def)
    qed
    then show "acyclic ?R" by (simp add: acyclic_def)
  qed (use eq in \<open>auto simp: on_cycle_def acyclic_def\<close>)
qed

text \<open>C3: the execution order is complete: exactly the units that neither lie on a dependency cycle
  nor depend, directly or not, on one are scheduled; in particular everything is scheduled if
  and only if there is no cycle.\<close>

theorem dependency_order_complete:
  assumes "um_wf us" "distinct it" "set it = set (um_keys us)"
  shows "set (dependency_order it us) =
      {n \<in> set (um_keys us). \<not> (\<exists>m. (m, m) \<in> (dep_rel us)\<^sup>+ \<and> (m, n) \<in> (dep_rel us)\<^sup>*)} \<and>
    (set (dependency_order it us) = set (um_keys us) \<longleftrightarrow> acyclic (dep_rel us))"
  using order_complete [OF assms] by blast

theorem dependency_order_complete_witness:
  "set (dependency_order [''b'', ''a'', ''c'', ''d''] demo_units) =
     {n \<in> set (um_keys demo_units). \<not> (\<exists>m. (m, m) \<in> (dep_rel demo_units)\<^sup>+ \<and> (m, n) \<in> (dep_rel demo_units)\<^sup>*)} \<and>
   \<not> acyclic (dep_rel demo_units)"
proof -
  have "set (dependency_order [''b'', ''a'', ''c'', ''d''] demo_units) \<noteq> set (um_keys demo_units)"
    unfolding demo_units_order demo_units_wf(2) [symmetric] by code_simp
  then show ?thesis
    using dependency_order_complete [OF demo_units_wf(1) _ demo_units_wf(2)] by auto
qed

lemma um_get_map_values: "um_get (map (\<lambda>(k, v). (k, f k v)) m) k = map_option (f k) (um_get m k)"
  by (induction m) (auto simp: um_get_def)

lemma fold_map_cong: "(\<And>x. x \<in> set xs \<Longrightarrow> f (h x) = g x) \<Longrightarrow> fold f (map h xs) s = fold g xs s"
  by (induction xs arbitrary: s) auto

text \<open>\<open>Before=\<close> has no influence: whatever the \<open>Before=\<close> lists of the units are, the execution
  order is the same.\<close>

theorem before_is_ignored:
  "dependency_order it (map (\<lambda>(n, u). (n, u\<lparr>uf_before := f n\<rparr>)) us) = dependency_order it us"
proof -
  let ?h = "\<lambda>(n, u). (n, u\<lparr>uf_before := f n\<rparr>)"
  have deps: "unit_deps (map ?h us) (u\<lparr>uf_before := b\<rparr>) = unit_deps us u" for u b
    using um_get_map_values [of "\<lambda>n u. u\<lparr>uf_before := f n\<rparr>" us] by (simp add: unit_deps_def)
  have "init_graph (map ?h us) = init_graph us"
    unfolding init_graph_def by (rule fold_map_cong) auto
  moreover have "fold (add_unit_edges (map ?h us)) (map ?h us) g = fold (add_unit_edges us) us g" for g
    by (rule fold_map_cong) (auto simp: add_unit_edges_def deps fun_eq_iff)
  ultimately show ?thesis by (simp add: dependency_order_def build_graph_def)
qed

text \<open>The phase always succeeds, stores that order, and warns of a cycle exactly when some unit was
  left out (for a journal that records informational messages).\<close>

theorem execute_DependencyResolve_warns:
  assumes "um_wf (units s)" "distinct it" "set it = set (um_keys (units s))" "min_level s = Info"
  shows "fst (execute_DependencyResolve K it s) = 0 \<and>
    exec_order (snd (execute_DependencyResolve K it s)) = dependency_order it (units s) \<and>
    (Warning \<in> set (map je_level (drop (length (journal_entries s))
        (journal_entries (snd (execute_DependencyResolve K it s))))) \<longleftrightarrow>
     \<not> acyclic (dep_rel (units s)))"
proof -
  let ?us = "units s" and ?O = "dependency_order it (units s)"
  note F = order_facts [OF assms(1-3)]
  have "length ?O = card (set ?O)" using F(1) by (simp add: distinct_card)
  moreover have "length ?us = card (set (um_keys ?us))"
    using um.card_keys [OF assms(1)] by (simp add: um_keys_def)
  moreover have "card (set ?O) < card (set (um_keys ?us)) \<longleftrightarrow> set ?O \<noteq> set (um_keys ?us)"
    using F(2) psubset_card_mono [of "set (um_keys ?us)" "set ?O"] by auto
  ultimately have "length ?O < length ?us \<longleftrightarrow> \<not> acyclic (dep_rel ?us)"
    using order_complete(2) [OF assms(1-3)] by simp
  then show ?thesis
    using assms(4)
    by (simp add: execute_DependencyResolve_def Let_def log_entries log_fmt_def less_log_level_def)
qed

theorem execute_DependencyResolve_warns_witness:
  "\<forall>K. Warning \<in> set (map je_level (journal_entries (snd (execute_DependencyResolve K [''b'', ''a'', ''c'', ''d'']
      (init_system_new\<lparr>units := demo_units\<rparr>))))) \<longleftrightarrow> \<not> acyclic (dep_rel demo_units)"
proof
  fix K
  let ?s = "init_system_new\<lparr>units := demo_units\<rparr>"
  have "units ?s = demo_units" "min_level ?s = Info" "journal_entries ?s = []" by (simp_all add: init_system_new_def)
  then show "Warning \<in> set (map je_level (journal_entries (snd (execute_DependencyResolve K [''b'', ''a'', ''c'', ''d''] ?s))))
      \<longleftrightarrow> \<not> acyclic (dep_rel demo_units)"
    using execute_DependencyResolve_warns [of ?s "[''b'', ''a'', ''c'', ''d'']" K] demo_units_wf by simp
qed

end
