(* ===== verification/Unit_Exec.thy ===== *)
theory Unit_Exec
  imports Sockets Dep_Resolve
begin

unbundle bit_operations_syntax

text \<open>
  \<open>UnitExecMixin\<close> (\<open>src/include/trivialInit/mixins/unit_exec.hpp\<close>) after the dependency
  phase: mount options, conditions, starting services and mounts, and restarts.
\<close>

section \<open>Mount options\<close>

text \<open>\<open>kFlagMap\<close> with the values of \<open>sys/mount.h\<close>.\<close>

definition kFlagMap :: "(string \<times> 64 word) list" where
  "kFlagMap =
     [(''ro'', 1), (''rw'', 0), (''nosuid'', 2), (''suid'', 0), (''nodev'', 4), (''dev'', 0),
      (''noexec'', 8), (''exec'', 0), (''sync'', 16), (''async'', 0), (''remount'', 32),
      (''mand'', 64), (''nomand'', 0), (''dirsync'', 128), (''noatime'', 1024), (''atime'', 0),
      (''nodiratime'', 2048), (''diratime'', 0), (''bind'', 4096), (''rbind'', 4096 OR 16384),
      (''move'', 8192), (''rec'', 16384), (''shared'', 1048576), (''slave'', 524288),
      (''private'', 262144), (''unbindable'', 131072), (''strictatime'', 16777216),
      (''lazytime'', 33554432), (''noswap'', 0), (''defaults'', 0)]"

definition add_data :: "string \<Rightarrow> string \<Rightarrow> string" where
  "add_data data tok = (if data \<noteq> [] then data @ '','' else data) @ tok"

text \<open>One turn of the loop on a token.\<close>

definition mount_token :: "string \<Rightarrow> 64 word \<times> string \<Rightarrow> 64 word \<times> string" where
  "mount_token token fd =
     (let (flags, data) = fd
      in if CHR ''='' \<in> set token then (flags, add_data data token)
         else case map_of kFlagMap token of
                Some f \<Rightarrow> (flags OR f, data)
              | None \<Rightarrow> if token \<noteq> [] then (flags, add_data data token) else (flags, data))"

function mount_loop :: "string \<Rightarrow> 64 word \<times> string \<Rightarrow> 64 word \<times> string" where
  "mount_loop [] fd = fd"
| "mount_loop (c # cs) fd =
     (let sv = c # cs
      in case find_first (\<lambda>c. c = CHR '','') sv of
           None \<Rightarrow> mount_token sv fd
         | Some comma \<Rightarrow> mount_loop (drop (comma + 1) sv) (mount_token (substr sv 0 comma) fd))"
  by pat_completeness auto
termination by (relation "measure (length \<circ> fst)") auto

definition parse_mount_options :: "string \<Rightarrow> 64 word \<times> string" where
  "parse_mount_options opts = mount_loop opts (0, [])"

section \<open>Conditions\<close>

text \<open>\<open>ce.type == "Condition..." || ce.type == "Assert..."\<close>\<close>

definition ce_is :: "condition_entry \<Rightarrow> string \<Rightarrow> bool" where
  "ce_is ce k \<longleftrightarrow> ce_type ce = ''Condition'' @ k \<or> ce_type ce = ''Assert'' @ k"

definition file_lines :: "osview \<Rightarrow> string \<Rightarrow> string list" where
  "file_lines os path = (case os_file os path of None \<Rightarrow> [] | Some c \<Rightarrow> getlines (CHR 0x0A) c)"

definition glob_exists :: "osview \<Rightarrow> string \<Rightarrow> bool" where
  "glob_exists os val =
     (let slash = find_last (\<lambda>c. c = CHR ''/'') val;
          dir = (case slash of None \<Rightarrow> ''.'' | Some i \<Rightarrow> substr val 0 i);
          pat = (case slash of None \<Rightarrow> val | Some i \<Rightarrow> drop (i + 1) val)
      in case os_dir os dir of None \<Rightarrow> False | Some es \<Rightarrow> list_ex (os_fnmatch os pat) es)"

definition is_mount_point :: "osview \<Rightarrow> string \<Rightarrow> bool" where
  "is_mount_point os path =
     (case (os_stat os path, os_stat os (path @ ''/..'')) of
        (Some st, Some pst) \<Rightarrow> st_dev st \<noteq> st_dev pst
      | _ \<Rightarrow> False)"

definition eval_environment :: "osview \<Rightarrow> string \<Rightarrow> bool" where
  "eval_environment os val =
     (case find_first (\<lambda>c. c = CHR ''='') val of
        None \<Rightarrow> os_env os val \<noteq> None
      | Some eq \<Rightarrow> os_env os (substr val 0 eq) = Some (drop (eq + 1) val))"

definition eval_user :: "osview \<Rightarrow> string \<Rightarrow> cxx_exception + bool" where
  "eval_user os val =
     (if val = ''root'' then Inr (os_uid os = 0)
      else if val = ''@system'' then Inr (os_uid os < 1000)
      else case lookup_uid os val of
             Inl e \<Rightarrow> Inl e
           | Inr target \<Rightarrow> Inr (target \<noteq> -1 \<and> os_uid os = target))"

definition eval_virtualization :: "osview \<Rightarrow> string \<Rightarrow> bool" where
  "eval_virtualization os val =
     (if val = ''no'' then False
      else if val = ''vm'' \<or> val = ''kvm'' \<or> val = ''qemu'' then
        list_ex (\<lambda>l. contains_sub l ''QEMU'' \<or> contains_sub l ''KVM'') (file_lines os ''/proc/cpuinfo'')
      else True)"

text \<open>The result before negation, tests in source order. Only \<open>ConditionUser\<close> can throw.\<close>

definition eval_raw :: "osview \<Rightarrow> condition_entry \<Rightarrow> cxx_exception + bool" where
  "eval_raw os ce =
     (let val = ce_value ce
      in if ce_is ce ''PathExists'' then Inr (os_access os val F_OK)
         else if ce_is ce ''PathExistsGlob'' then Inr (glob_exists os val)
         else if ce_is ce ''PathIsDirectory'' then
           Inr (case os_stat os val of Some st \<Rightarrow> st_kind st = Directory | None \<Rightarrow> False)
         else if ce_is ce ''PathIsSymbolicLink'' then
           Inr (case os_lstat os val of Some st \<Rightarrow> st_kind st = SymbolicLink | None \<Rightarrow> False)
         else if ce_is ce ''PathIsMountPoint'' then Inr (is_mount_point os val)
         else if ce_is ce ''PathIsReadWrite'' then Inr (os_access os val W_OK)
         else if ce_is ce ''FileNotEmpty'' then
           Inr (case os_stat os val of Some st \<Rightarrow> st_size st > 0 | None \<Rightarrow> False)
         else if ce_is ce ''DirectoryNotEmpty'' then
           Inr (case os_dir os val of None \<Rightarrow> False | Some es \<Rightarrow> list_ex (\<lambda>e. e \<noteq> ''.'' \<and> e \<noteq> ''..'') es)
         else if ce_is ce ''FileIsExecutable'' then Inr (os_access os val X_OK)
         else if ce_is ce ''KernelCommandLine'' then
           Inr (contains_sub (case file_lines os ''/proc/cmdline'' of [] \<Rightarrow> [] | l # _ \<Rightarrow> l) val)
         else if ce_is ce ''KernelVersion'' then
           Inr (contains_sub (case os_uname os of None \<Rightarrow> [] | Some (release, _) \<Rightarrow> release) val)
         else if ce_is ce ''Virtualization'' then Inr (eval_virtualization os val)
         else if ce_is ce ''ACPower'' then Inr (val = ''true'' \<or> val = ''1'')
         else if ce_is ce ''User'' then eval_user os val
         else if ce_is ce ''FirstBoot'' then
           (let first = os_access os ''/run/systemd/first-boot'' F_OK
            in Inr (if val = ''yes'' \<or> val = ''true'' \<or> val = ''1'' then first else \<not> first))
         else if ce_is ce ''Environment'' then Inr (eval_environment os val)
         else if ce_is ce ''Security'' then Inr False
         else if ce_is ce ''Capability'' then Inr (os_uid os = 0)
         else Inr True)"

definition eval_one :: "osview \<Rightarrow> condition_entry \<Rightarrow> cxx_exception + bool" where
  "eval_one os ce =
     (case eval_raw os ce of Inl e \<Rightarrow> Inl e | Inr result \<Rightarrow> Inr (if ce_negate ce then \<not> result else result))"

text \<open>One of the two loops: \<open>code\<close> as soon as an entry is false, else the rest.\<close>

fun eval_all :: "osview \<Rightarrow> int \<Rightarrow> condition_entry list \<Rightarrow> cxx_exception + int \<Rightarrow> cxx_exception + int" where
  "eval_all os code [] rest = rest"
| "eval_all os code (ce # ces) rest =
     (case eval_one os ce of
        Inl e \<Rightarrow> Inl e
      | Inr b \<Rightarrow> if \<not> b then Inr code else eval_all os code ces rest)"

definition eval_conditions :: "osview \<Rightarrow> unit_file \<Rightarrow> cxx_exception + int" where
  "eval_conditions os u = eval_all os 1 (uf_conditions u) (eval_all os 2 (uf_assertions u) (Inr 0))"

section \<open>Starting services\<close>

text \<open>\<open>if (cmd[0] == '-') { ignore = true; cmd = cmd.substr(1); }\<close>\<close>

definition strip_dash :: "string \<Rightarrow> bool \<times> string" where
  "strip_dash cmd = (if cmd \<noteq> [] \<and> hd cmd = CHR ''-'' then (True, tl cmd) else (False, cmd))"

text \<open>This mixin has a \<open>split_exec\<close> of its own: quoted or not, and the last quote character.\<close>

fun exec_split_loop :: "string list \<Rightarrow> string \<Rightarrow> bool \<Rightarrow> char \<Rightarrow> string \<Rightarrow> string list" where
  "exec_split_loop r t iq qc [] = (if t \<noteq> [] then r @ [t] else r)"
| "exec_split_loop r t iq qc (c # cs) =
     (if iq then (if c = qc then exec_split_loop r t False qc cs else exec_split_loop r (t @ [c]) iq qc cs)
      else if c = CHR 0x22 \<or> c = CHR 0x27 then exec_split_loop r t True c cs
      else if c = CHR '' '' \<or> c = CHR 0x09 then
        (if t \<noteq> [] then exec_split_loop (r @ [t]) [] iq qc cs else exec_split_loop r t iq qc cs)
      else exec_split_loop r (t @ [c]) iq qc cs)"

definition exec_split :: "string \<Rightarrow> string list" where
  "exec_split s = exec_split_loop [] [] False (CHR 0x00) s"

text \<open>It agrees with the one of \<open>SocketMixin\<close>.\<close>

lemma exec_split_loop_eq: "exec_split_loop r t iq qc s = split_exec_loop r t (if iq then Some qc else None) s"
proof (induction s arbitrary: r t iq qc)
  case (Cons c s)
  then show ?case by (cases iq) simp_all
qed simp

lemma exec_split_eq [simp]: "exec_split s = split_exec s"
  using exec_split_loop_eq [of "[]" "[]" False] by (simp add: exec_split_def split_exec_def)

text \<open>Expand the line, split it, and expand every argument again; \<open>None\<close> if there is no word.\<close>

definition command_words :: "osview \<Rightarrow> spec_ctx \<Rightarrow> string \<Rightarrow> (string \<times> string list) option" where
  "command_words os ctx cmd =
     (case exec_split (resolve os cmd ctx) of
        [] \<Rightarrow> None
      | ep # args \<Rightarrow> Some (ep, map (\<lambda>a. resolve os a ctx) args))"

datatype pre_outcome = Pre_done | Pre_failed | Pre_child

fun run_start_pre :: "kernel \<Rightarrow> string \<Rightarrow> unit_file \<Rightarrow> string list \<Rightarrow> 'a unit_exec_st_scheme \<Rightarrow>
    pre_outcome \<times> 'a unit_exec_st_scheme" where
  "run_start_pre K name unit [] s = (Pre_done, s)"
| "run_start_pre K name unit (pre_cmd # cmds) s =
     (let (ignore, cmd) = strip_dash pre_cmd;
          ctx = SpecifierContext name (uf_path unit)
      in case command_words (view K s) ctx cmd of
           None \<Rightarrow> run_start_pre K name unit cmds s
         | Some (ep, args) \<Rightarrow>
             (let (pid, s) = sys K Fork s
              in if pid = 0 then (Pre_child, run_child K (spawn_child (view K s) ep args (Some unit)) s)
                 else if pid > 0 then
                   (let st = k_wstatus K (ticks s);
                        s = sys_do K (Waitpid pid) s;
                        code = (if WIFEXITED st then int (WEXITSTATUS st) else -1)
                    in if code \<noteq> 0 \<and> \<not> ignore then
                         (Pre_failed, log_fmt K Error ''executor''
                            ''{}: ExecStartPre failed ({}), skipping service'' [name, show_int code] s)
                       else run_start_pre K name unit cmds s)
                 else run_start_pre K name unit cmds s))"

text \<open>The socket-activation branch: the tracked record gets the unit's own policy and limits.\<close>

definition set_policy :: "pid \<Rightarrow> restart_policy \<Rightarrow> int \<Rightarrow> int \<Rightarrow> 'a process_st_scheme \<Rightarrow> 'a process_st_scheme" where
  "set_policy pid policy burst_limit burst_ivl s =
     (case um_get (processes s) pid of
        None \<Rightarrow> s
      | Some tp \<Rightarrow>
          s\<lparr>processes := um_put pid (tp\<lparr>tp_restart_policy := policy, tp_burst_limit := burst_limit,
                                         tp_burst_interval_s := burst_ivl\<rparr>) (processes s)\<rparr>)"

definition launch_service :: "kernel \<Rightarrow> string \<Rightarrow> unit_file \<Rightarrow> bool \<Rightarrow> string \<Rightarrow> string list \<Rightarrow>
    'a unit_exec_st_scheme \<Rightarrow> flow \<times> 'a unit_exec_st_scheme" where
  "launch_service K name unit ignore_fail exec_path args s =
     (let policy = parse_restart_policy (uf_restart_policy unit);
          burst_limit = uf_restart_limit_burst unit;
          burst_ivl = uf_restart_limit_interval unit
      in case collect_socket_env name s of
           Some env \<Rightarrow>
             (let s = log_fmt K Info ''executor'' ''Socket-activating {} ({} fd(s))''
                        [name, show_nat (length (env_fds env))] s;
                  (pid, s) = spawn_with_socket_fds K name exec_path args env (policy \<noteq> RP_No) (Some unit) s
              in if pid = 0 then (Gone, s)
                 else if pid > 0 then
                   (Returns, set_policy pid policy burst_limit burst_ivl (apply_restart_count pid name s))
                 else (Returns, s))
         | None \<Rightarrow>
             (let s = log_fmt K Info ''executor'' ''Starting service: {} ({})'' [name, exec_path] s;
                  (pid, s) = spawn K name exec_path args policy burst_limit burst_ivl (Some unit) s
              in if pid = 0 then (Gone, s)
                 else if pid > 0 then (Returns, apply_restart_count pid name s)
                 else if \<not> ignore_fail then
                   (Returns, log_fmt K Error ''executor'' ''Failed to start {}'' [name] s)
                 else (Returns, s)))"

text \<open>The part of \<open>start_service\<close> after the \<open>ExecStartPre=\<close> commands.\<close>

definition start_main :: "kernel \<Rightarrow> string \<Rightarrow> unit_file \<Rightarrow> 'a unit_exec_st_scheme \<Rightarrow> flow \<times> 'a unit_exec_st_scheme" where
  "start_main K name unit s =
     (if uf_exec_start unit = [] then
        (Returns, log_fmt K Debug ''executor'' ''{}: no ExecStart, skipping'' [name] s)
      else
        (let (ignore_fail, cmd) = strip_dash (uf_exec_start unit)
         in case command_words (view K s) (SpecifierContext name (uf_path unit)) cmd of
              None \<Rightarrow> (Returns, s)
            | Some (exec_path, args) \<Rightarrow> launch_service K name unit ignore_fail exec_path args s))"

definition start_service :: "kernel \<Rightarrow> string \<Rightarrow> unit_file \<Rightarrow> 'a unit_exec_st_scheme \<Rightarrow> flow \<times> 'a unit_exec_st_scheme" where
  "start_service K name unit s =
     (let (cs, exc) = runtime_dir_calls (view K s) unit;
          s = fold (sys_do K) cs s
      in case exc of
           Some e \<Rightarrow> (Throws e, s)
         | None \<Rightarrow>
             (case run_start_pre K name unit (uf_exec_start_pre unit) s of
                (Pre_child, s) \<Rightarrow> (Gone, s)
              | (Pre_failed, s) \<Rightarrow> (Returns, s)
              | (Pre_done, s) \<Rightarrow> start_main K name unit s))"

definition start_mount :: "kernel \<Rightarrow> string \<Rightarrow> unit_file \<Rightarrow> 'a unit_exec_st_scheme \<Rightarrow> 'a unit_exec_st_scheme" where
  "start_mount K name unit s =
     (if uf_what unit = [] \<or> uf_where unit = [] then
        log_fmt K Warning ''executor'' ''{}: incomplete mount unit'' [name] s
      else if is_mount_point (view K s) (uf_where unit) then
        log_fmt K Debug ''executor'' ''{}: already mounted, skipping'' [name] s
      else
        (let s = log_fmt K Info ''executor'' ''Mounting {} on {}'' [uf_what unit, uf_where unit] s;
             s = sys_do K (Mkdir (uf_where unit) 493) s;
             (flags, data) = parse_mount_options (uf_options unit);
             (ret, s) = sys K (Mount (uf_what unit) (uf_where unit)
                                 (if uf_mount_type unit = [] then None else Some (uf_mount_type unit)) flags
                                 (if data = [] then None else Some data)) s
         in if ret \<noteq> 0 then log_fmt K Error ''executor'' ''mount {} failed: {}'' [name, strerror K ret] s
            else s))"

text \<open>The body of the loop over \<open>exec_order_\<close>.\<close>

definition execute_unit :: "kernel \<Rightarrow> string \<Rightarrow> 'a unit_exec_st_scheme \<Rightarrow> flow \<times> 'a unit_exec_st_scheme" where
  "execute_unit K name s =
     (case find_unit name s of
        None \<Rightarrow> (Returns, s)
      | Some unit \<Rightarrow>
          if is_bare_template unit then
            (Returns, log_fmt K Debug ''executor'' ''Skipping bare template: {}'' [name] s)
          else
            (case eval_conditions (view K s) unit of
               Inl e \<Rightarrow> (Throws e, s)
             | Inr cond_result \<Rightarrow>
                 if cond_result = 1 then
                   (Returns, log_fmt K Debug ''executor'' ''{}: condition not met, skipping'' [name] s)
                 else if cond_result = 2 then
                   (Returns, log_fmt K Error ''executor'' ''{}: assertion failed'' [name] s)
                 else
                   (case uf_type unit of
                      UT_Target \<Rightarrow> (Returns, log_fmt K Info ''executor'' ''Reached target: {}'' [name] s)
                    | UT_Service \<Rightarrow> start_service K name unit s
                    | UT_Mount \<Rightarrow> (Returns, start_mount K name unit s)
                    | UT_Socket \<Rightarrow> (Returns, log_fmt K Debug ''executor'' ''Socket unit ready: {}'' [name] s)
                    | UT_Unknown \<Rightarrow>
                        (Returns, log_fmt K Warning ''executor'' ''Skipping unknown unit type: {}'' [name] s))))"

text \<open>A loop whose body may throw or turn into a child.\<close>

fun flow_loop :: "('x \<Rightarrow> 's \<Rightarrow> flow \<times> 's) \<Rightarrow> 'x list \<Rightarrow> 's \<Rightarrow> flow \<times> 's" where
  "flow_loop f [] s = (Returns, s)"
| "flow_loop f (x # xs) s =
     (case f x s of (Returns, s) \<Rightarrow> flow_loop f xs s | (fl, s) \<Rightarrow> (fl, s))"

definition execute_UnitExecute :: "kernel \<Rightarrow> 'a unit_exec_st_scheme \<Rightarrow> flow \<times> 'a unit_exec_st_scheme" where
  "execute_UnitExecute K s =
     (let s = log K Info ''executor'' ''Executing units in dependency order'' s
      in flow_loop (execute_unit K) (exec_order s) s)"

section \<open>Restarts\<close>

definition restart_one :: "kernel \<Rightarrow> string \<Rightarrow> 'a unit_exec_st_scheme \<Rightarrow> flow \<times> 'a unit_exec_st_scheme" where
  "restart_one K name s =
     (case find_unit name s of
        None \<Rightarrow> (Returns, s)
      | Some unit \<Rightarrow>
          if uf_type unit = UT_Service then
            start_service K name unit (log_fmt K Notice ''executor'' ''Restarting {}'' [name] s)
          else (Returns, s))"

definition process_restarts :: "kernel \<Rightarrow> 'a unit_exec_st_scheme \<Rightarrow> flow \<times> 'a unit_exec_st_scheme" where
  "process_restarts K s =
     (let (names, s) = drain_pending_restarts K s in flow_loop (restart_one K) names s)"

definition queue_restart :: "kernel \<Rightarrow> string \<Rightarrow> 'a process_st_scheme \<Rightarrow> 'a process_st_scheme" where
  "queue_restart K unit_name s =
     (let e = \<lparr>pr_unit_name = unit_name, pr_when = k_mono K (ticks s), pr_restart_count = 0,
              pr_burst_count = 0, pr_burst_window_start = 0\<rparr>
      in (tick s)\<lparr>pending_restarts := pending_restarts s @ [e]\<rparr>)"

section \<open>Mount options are read token by token\<close>

definition mount_flag :: "string \<Rightarrow> 64 word" where
  "mount_flag t = (if CHR ''='' \<in> set t then 0 else case map_of kFlagMap t of Some f \<Rightarrow> f | None \<Rightarrow> 0)"

definition is_mount_data :: "string \<Rightarrow> bool" where
  "is_mount_data t \<longleftrightarrow> t \<noteq> [] \<and> (CHR ''='' \<in> set t \<or> map_of kFlagMap t = None)"

lemma mount_token_eq:
  "mount_token t (f, d) = (f OR mount_flag t, if is_mount_data t then add_data d t else d)"
  by (auto simp: mount_token_def mount_flag_def is_mount_data_def kFlagMap_def split: option.split)

lemma mount_token_Nil [simp]: "mount_token [] fd = fd"
  by (cases fd) (simp add: mount_token_def kFlagMap_def)

lemma mount_loop_sep:
  "CHR '','' \<notin> set t \<Longrightarrow> mount_loop (t @ CHR '','' # rest) fd = mount_loop rest (mount_token t fd)"
proof -
  assume "CHR '','' \<notin> set t"
  then have "find_first (\<lambda>c. c = CHR '','') (t @ CHR '','' # rest) = Some (length t)"
    by (intro find_first_append_sep) auto
  moreover have "mount_loop sv fd = (case find_first (\<lambda>c. c = CHR '','') sv of
      None \<Rightarrow> mount_token sv fd
    | Some comma \<Rightarrow> mount_loop (drop (comma + 1) sv) (mount_token (substr sv 0 comma) fd))" if "sv \<noteq> []" for sv
    using that by (cases sv) (simp, simp only: mount_loop.simps Let_def)
  ultimately show ?thesis by (simp add: substr_def)
qed

lemma mount_loop_last: "CHR '','' \<notin> set t \<Longrightarrow> mount_loop t fd = mount_token t fd"
proof (cases t)
  case (Cons c cs)
  assume "CHR '','' \<notin> set t"
  with Cons have "find_first (\<lambda>c. c = CHR '','') (c # cs) = None" by (simp only: find_first_None) auto
  with Cons show ?thesis by (simp del: find_first.simps)
qed simp

lemma mount_loop_join:
  "\<forall>t\<in>set ts. CHR '','' \<notin> set t \<Longrightarrow> mount_loop (join (CHR '','') ts) fd = fold mount_token ts fd"
proof (induction ts arbitrary: fd)
  case (Cons t ts)
  then show ?case by (cases "ts = []") (simp_all add: mount_loop_last join_Cons mount_loop_sep)
qed simp

lemma add_data_join: "\<forall>w\<in>set ds. w \<noteq> [] \<Longrightarrow> add_data (join (CHR '','') ds) t = join (CHR '','') (ds @ [t])"
proof (induction ds)
  case (Cons w ds)
  moreover have "join (CHR '','') ds \<noteq> []" if "ds \<noteq> []"
    using that Cons.prems by (cases ds rule: list.exhaust; cases "tl ds") auto
  ultimately show ?case by (cases "ds = []") (auto simp: add_data_def join_Cons)
qed (simp add: add_data_def)

lemma fold_mount_token:
  assumes "\<forall>w\<in>set ds. w \<noteq> []"
  shows "fold mount_token ts (f, join (CHR '','') ds) =
    (foldl (OR) f (map mount_flag ts), join (CHR '','') (ds @ filter is_mount_data ts))"
  using assms
proof (induction ts arbitrary: f ds)
  case (Cons t ts)
  show ?case
  proof (cases "is_mount_data t")
    case True
    then have "\<forall>w\<in>set (ds @ [t]). w \<noteq> []" using Cons.prems by (auto simp: is_mount_data_def)
    from Cons.IH [OF this] True show ?thesis by (simp add: mount_token_eq add_data_join [OF Cons.prems])
  next
    case False
    then show ?thesis by (simp add: mount_token_eq Cons.IH [OF Cons.prems])
  qed
qed simp

text \<open>C34: mount options are split at commas; the known flags are combined bitwise, every \<open>key=value\<close>
  and every unknown word is passed on as file system data, in order and joined by commas, and
  empty words are dropped.\<close>

theorem parse_mount_options_tokens:
  assumes "\<forall>t\<in>set ts. CHR '','' \<notin> set t"
  shows "parse_mount_options (join (CHR '','') ts) =
    (foldl (OR) 0 (map mount_flag ts), join (CHR '','') (filter is_mount_data ts))"
  using mount_loop_join [OF assms] fold_mount_token [of "[]" ts 0] by (simp add: parse_mount_options_def)

theorem parse_mount_options_tokens_witness:
  "parse_mount_options (join (CHR '','') [''nosuid'', ''mode=1777'', ''nodev'', ''huge'']) = (6, ''mode=1777,huge'')"
  using parse_mount_options_tokens [of "[''nosuid'', ''mode=1777'', ''nodev'', ''huge'']"]
  by (simp add: mount_flag_def is_mount_data_def kFlagMap_def)

section \<open>Conditions decide\<close>

lemma eval_all_spec:
  assumes "list_all (\<lambda>ce. \<exists>b. eval_one os ce = Inr b) ces"
  shows "eval_all os code ces rest = (if list_ex (\<lambda>ce. eval_one os ce = Inr False) ces then Inr code else rest)"
  using assms by (induction ces) auto


definition demo_conditional :: unit_file where
  "demo_conditional = unit_file_init\<lparr>
     uf_conditions := [\<lparr>ce_type = ''ConditionUser'', ce_value = ''web'', ce_negate = True, ce_is_assert = False\<rparr>],
     uf_assertions := [\<lparr>ce_type = ''AssertSecurity'', ce_value = ''selinux'', ce_negate = False, ce_is_assert = True\<rparr>]\<rparr>"


section \<open>Starting a service\<close>

lemma fold_sys_do_frame [simp]:
  "processes (fold (sys_do K) cs s) = processes s"
  "unit_to_pid (fold (sys_do K) cs s) = unit_to_pid s"
  "pending_restarts (fold (sys_do K) cs s) = pending_restarts s"
  "restart_counts (fold (sys_do K) cs s) = restart_counts s"
  by (simp_all add: fold_keeps)

lemma run_start_pre_frame [simp]:
  "processes (snd (run_start_pre K n u cmds s)) = processes s"
  "unit_to_pid (snd (run_start_pre K n u cmds s)) = unit_to_pid s"
  "pending_restarts (snd (run_start_pre K n u cmds s)) = pending_restarts s"
  "restart_counts (snd (run_start_pre K n u cmds s)) = restart_counts s"
  by (induction cmds arbitrary: s; simp add: Let_def split_def split: option.split)+

text \<open>What the table says once the service runs, restart bookkeeping included.\<close>

definition launched :: "string \<Rightarrow> unit_file \<Rightarrow> 'a process_st_scheme \<Rightarrow> 'a process_st_scheme \<Rightarrow> bool" where
  "launched name unit s t \<longleftrightarrow>
     (\<exists>p tp. 0 < p \<and> um_get (unit_to_pid t) name = Some p \<and> um_get (processes t) p = Some tp \<and>
        tp_pid tp = p \<and> tp_unit_name tp = name \<and> tp_state tp = Running \<and>
        tp_restart_policy tp = parse_restart_policy (uf_restart_policy unit) \<and>
        tp_burst_limit tp = uf_restart_limit_burst unit \<and>
        tp_burst_interval_s tp = uf_restart_limit_interval unit \<and>
        (tp_restart_count tp, tp_burst_count tp, tp_burst_window_start tp) =
          (case um_get (restart_counts s) name of
             None \<Rightarrow> (0, 0, 0)
           | Some m \<Rightarrow> (rm_restart_count m, rm_burst_count m, rm_burst_window_start m)) \<and>
        (\<forall>q. q \<noteq> p \<longrightarrow> um_get (processes t) q = um_get (processes s) q) \<and>
        um_get (restart_counts t) name = None)"

definition same_table :: "'a process_st_scheme \<Rightarrow> 'a process_st_scheme \<Rightarrow> bool" where
  "same_table s t \<longleftrightarrow> processes t = processes s \<and> unit_to_pid t = unit_to_pid s \<and> restart_counts t = restart_counts s"

lemma launched_frame:
  "launched name unit s t \<Longrightarrow> same_table s' s \<Longrightarrow> launched name unit s' t"
  by (simp add: launched_def same_table_def)

lemma spawn_socket_tables:
  fixes s :: "'a socket_st_scheme"
  assumes "spawn_with_socket_fds K u path args env restart ctx s = (p, t)"
  shows "0 < p \<Longrightarrow> processes t = processes (track_process p u restart s) \<and>
      unit_to_pid t = um_put u p (unit_to_pid s) \<and> restart_counts t = restart_counts s"
    and "p < 0 \<Longrightarrow> same_table s t"
  using assms
  by (auto simp: spawn_with_socket_fds_def Let_def split_def same_table_def track_process_def split: if_splits)

lemma spawn_tables:
  fixes s :: "'a process_st_scheme"
  assumes "spawn K u path args pol bl bi ctx s = (p, t)"
  shows "0 < p \<Longrightarrow> processes t = processes (spawn_track pol bl bi p u s) \<and>
      unit_to_pid t = um_put u p (unit_to_pid s) \<and> restart_counts t = restart_counts s"
    and "p < 0 \<Longrightarrow> same_table s t"
  using assms
  by (auto simp: spawn_def Let_def split_def same_table_def spawn_track_def split: if_splits)

lemma launch_service_outcome:
  assumes "launch_service K name unit ign path args s = (Returns, t)"
  shows "launched name unit s t \<or> same_table s t \<and> (\<exists>n. k_ret K n Fork < 0)"
proof (cases "collect_socket_env name s")
  case (Some env)
  let ?pol = "parse_restart_policy (uf_restart_policy unit)"
  let ?l = "log_fmt K Info ''executor'' ''Socket-activating {} ({} fd(s))'' [name, show_nat (length (env_fds env))] s"
  obtain p s1 where sp: "spawn_with_socket_fds K name path args env (?pol \<noteq> RP_No) (Some unit) ?l = (p, s1)"
    by (cases "spawn_with_socket_fds K name path args env (?pol \<noteq> RP_No) (Some unit) ?l")
  have l: "same_table s ?l" by (simp add: same_table_def)
  show ?thesis
  proof (cases "0 < p")
    case True
    note s1 = spawn_socket_tables(1) [OF sp True]
    have "t = set_policy p ?pol (uf_restart_limit_burst unit) (uf_restart_limit_interval unit) (apply_restart_count p name s1)"
      using assms Some sp True by (simp add: launch_service_def Let_def)
    then have "launched name unit s t"
      using s1 True
      by (cases "um_get (restart_counts s) name")
         (auto simp: launched_def set_policy_def apply_restart_count_def track_process_def tracked_new_def Let_def)
    then show ?thesis ..
  next
    case False
    with assms Some sp have "p < 0" "t = s1" by (auto simp: launch_service_def Let_def split: if_splits)
    moreover from this have "k_ret K (fork_time K env ?l) Fork < 0"
      using sp spawn_socket_result(1) [of K name path args env "?pol \<noteq> RP_No" "Some unit" ?l] by simp
    ultimately show ?thesis using spawn_socket_tables(2) [OF sp] l by (auto simp: same_table_def)
  qed
next
  case None
  let ?pol = "parse_restart_policy (uf_restart_policy unit)"
  let ?l = "log_fmt K Info ''executor'' ''Starting service: {} ({})'' [name, path] s"
  obtain p s1 where sp: "spawn K name path args ?pol (uf_restart_limit_burst unit) (uf_restart_limit_interval unit) (Some unit) ?l = (p, s1)"
    by (cases "spawn K name path args ?pol (uf_restart_limit_burst unit) (uf_restart_limit_interval unit) (Some unit) ?l")
  show ?thesis
  proof (cases "0 < p")
    case True
    with assms None sp have "t = apply_restart_count p name s1" by (simp add: launch_service_def Let_def)
    with spawn_tables(1) [OF sp True] True have "launched name unit s t"
      by (cases "um_get (restart_counts s) name")
         (auto simp: launched_def apply_restart_count_def spawn_track_def tracked_new_def Let_def)
    then show ?thesis ..
  next
    case False
    with assms None sp have "p < 0" "same_table s1 t"
      by (auto simp: launch_service_def Let_def same_table_def split: if_splits)
    moreover from this have "k_ret K (ticks ?l) Fork < 0"
      using sp spawn_result(2) [of K name path args ?pol "uf_restart_limit_burst unit"
        "uf_restart_limit_interval unit" "Some unit" ?l] by simp
    ultimately show ?thesis using spawn_tables(2) [OF sp] by (auto simp: same_table_def)
  qed
qed

lemma start_main_outcome:
  assumes "start_main K name unit s = (Returns, t)"
  shows "launched name unit s t \<or> same_table s t"
proof (cases "uf_exec_start unit = []")
  case True
  with assms show ?thesis by (auto simp: start_main_def same_table_def)
next
  case False
  let ?w = "command_words (view K s) (SpecifierContext name (uf_path unit)) (snd (strip_dash (uf_exec_start unit)))"
  show ?thesis
  proof (cases ?w)
    case None
    with assms False show ?thesis by (simp add: start_main_def split_def Let_def same_table_def)
  next
    case (Some w)
    with assms False have "launch_service K name unit (fst (strip_dash (uf_exec_start unit))) (fst w) (snd w) s = (Returns, t)"
      by (simp add: start_main_def split_def Let_def)
    with launch_service_outcome show ?thesis by blast
  qed
qed

text \<open>C11: starting a service has one of two outcomes. Either exactly one process is added, running
  under the unit's name with the unit's restart policy and start limits and with the counters
  handed over by a preceding crash (which are then consumed), for plain and for
  socket-activated services alike; or the process table is untouched.\<close>

theorem start_service_outcome:
  assumes "start_service K name unit s = (Returns, t)"
  shows "launched name unit s t \<or> same_table s t"
proof -
  let ?rd = "runtime_dir_calls (view K s) unit"
  let ?s1 = "fold (sys_do K) (fst ?rd) s"
  let ?pre = "run_start_pre K name unit (uf_exec_start_pre unit) ?s1"
  let ?s2 = "snd ?pre"
  have s2: "same_table s ?s2" by (simp add: same_table_def)
  have exc: "snd ?rd = None"
    using assms by (auto simp: start_service_def Let_def split_def split: option.splits)
  show ?thesis
  proof (cases "fst ?pre")
    case Pre_done
    then have m: "start_main K name unit ?s2 = (Returns, t)"
      using assms exc by (cases ?pre) (simp add: start_service_def Let_def split_def)
    from start_main_outcome [OF m] show ?thesis
    proof
      assume "launched name unit ?s2 t"
      with s2 show ?thesis by (blast intro: launched_frame)
    qed (simp add: same_table_def)
  next
    case Pre_failed
    then show ?thesis
      using assms exc s2 by (cases ?pre) (simp add: start_service_def Let_def split_def)
  next
    case Pre_child
    then show ?thesis
      using assms exc by (cases ?pre) (simp add: start_service_def Let_def split_def)
  qed
qed

definition demo_service :: unit_file where
  "demo_service = unit_file_init\<lparr>uf_name := ''a.service'', uf_type := UT_Service, uf_exec_start := ''/bin/a -x %n'',
     uf_restart_policy := ''always''\<rparr>"

definition demo_started :: init_system where
  "demo_started = snd (start_service demo_kernel ''a.service'' demo_service init_system_new)"

theorem start_service_outcome_witness:
  "launched ''a.service'' demo_service init_system_new demo_started"
proof -
  have "start_service demo_kernel ''a.service'' demo_service init_system_new = (Returns, demo_started)"
    unfolding demo_started_def by (rule prod_eqI) (simp_all, code_simp)
  note start_service_outcome [OF this]
  moreover have "map fst (processes demo_started) = [101]" by code_simp
  ultimately show ?thesis by (auto simp: same_table_def init_system_new_def)
qed

text \<open>C28: a service is started when nothing stands in its way: with a command line, no \<open>ExecStartPre=\<close>
  and no runtime directory to prepare, and a kernel whose \<open>fork\<close> succeeds, the service ends
  up running.\<close>

theorem start_service_succeeds:
  assumes fork: "\<forall>n. 0 < k_ret K n Fork"
    and unit: "uf_runtime_directory unit = []" "uf_exec_start_pre unit = []" "uf_exec_start unit \<noteq> []"
    and cmd: "command_words (view K s) (SpecifierContext name (uf_path unit)) (snd (strip_dash (uf_exec_start unit))) = Some (ep, args)"
  shows "\<exists>t. start_service K name unit s = (Returns, t) \<and> launched name unit s t"
proof -
  let ?ign = "fst (strip_dash (uf_exec_start unit))"
  have st: "start_service K name unit s = launch_service K name unit ?ign ep args s"
    using unit cmd by (simp add: start_service_def start_main_def runtime_dir_calls_def ch_done_def split_def)
  have nz: "k_ret K n Fork \<noteq> 0" "\<not> k_ret K n Fork < 0" for n
    using spec [OF fork, of n] by simp_all
  then have "fst (launch_service K name unit ?ign ep args s) = Returns"
    by (auto simp: launch_service_def Let_def split_def spawn_socket_result spawn_result max_def split: option.split)
  then obtain t where t: "launch_service K name unit ?ign ep args s = (Returns, t)"
    by (cases "launch_service K name unit ?ign ep args s") auto
  with launch_service_outcome [OF t] st nz show ?thesis by auto
qed

theorem start_service_succeeds_witness:
  "\<exists>t. start_service demo_kernel ''a.service'' demo_service init_system_new = (Returns, t) \<and>
     launched ''a.service'' demo_service init_system_new t"
proof (rule start_service_succeeds)
  show "\<forall>n. 0 < k_ret demo_kernel n Fork" by (simp add: demo_kernel_def)
  show "command_words (view demo_kernel init_system_new) (SpecifierContext ''a.service'' (uf_path demo_service))
      (snd (strip_dash (uf_exec_start demo_service))) = Some (''/bin/a'', [''-x'', ''a.service''])"
    by code_simp
qed (simp_all add: demo_service_def unit_file_init_def)



text \<open>Only a runnable unit touches the system: a name without a unit, a bare template, a unit whose
  condition or assertion fails, a target, a socket unit and a unit of unknown type make no
  request and leave the process table alone; the phase goes on with the next unit.\<close>

theorem execute_unit_skips:
  assumes "case find_unit name s of
      None \<Rightarrow> True
    | Some u \<Rightarrow> is_bare_template u \<or> eval_conditions (view K s) u \<in> {Inr 1, Inr 2} \<or>
        (\<not> isl (eval_conditions (view K s) u) \<and> uf_type u \<notin> {UT_Service, UT_Mount})"
  shows "fst (execute_unit K name s) = Returns \<and> trace (snd (execute_unit K name s)) = trace s \<and>
    same_table s (snd (execute_unit K name s)) \<and> units (snd (execute_unit K name s)) = units s"
proof (cases "find_unit name s")
  case None
  then show ?thesis by (simp add: execute_unit_def same_table_def)
next
  case (Some u)
  with assms show ?thesis
    by (cases "eval_conditions (view K s) u"; cases "uf_type u")
       (auto simp: execute_unit_def same_table_def)
qed

theorem execute_unit_skips_witness:
  "trace (snd (execute_unit demo_kernel ''t.target''
     (init_system_new\<lparr>units := [(''t.target'', unit_file_init\<lparr>uf_name := ''t.target'', uf_type := UT_Target\<rparr>)]\<rparr>))) = []"
proof -
  let ?s = "init_system_new\<lparr>units := [(''t.target'', unit_file_init\<lparr>uf_name := ''t.target'', uf_type := UT_Target\<rparr>)]\<rparr>"
  have "case find_unit ''t.target'' ?s of
      None \<Rightarrow> True
    | Some u \<Rightarrow> is_bare_template u \<or> eval_conditions (view demo_kernel ?s) u \<in> {Inr 1, Inr 2} \<or>
        (\<not> isl (eval_conditions (view demo_kernel ?s) u) \<and> uf_type u \<notin> {UT_Service, UT_Mount})"
    by (simp add: find_unit_def um_get_def eval_conditions_def unit_file_init_def)
  from execute_unit_skips [OF this] show ?thesis by (simp add: init_system_new_def)
qed

text \<open>Arguments are expanded twice: an escaped percent sign in the command line does not survive.
  With \<open>%%n\<close> a program should be given the text \<open>%n\<close>; it is given the unit's name.\<close>

theorem command_words_expands_twice:
  "command_words no_os (SpecifierContext ''a.service'' ''/etc/a.service'') ''/bin/echo %%n'' =
     Some (''/bin/echo'', [''a.service'']) \<and>
   split_exec (resolve no_os ''/bin/echo %%n'' (SpecifierContext ''a.service'' ''/etc/a.service'')) = [''/bin/echo'', ''%n'']"
  by (rule conjI) code_simp+

end
