(* ===== verification/Filesystem.thy ===== *)
theory Filesystem
  imports Restart "HOL-Library.Sublist"
begin

unbundle bit_operations_syntax

text \<open>
  \<open>FilesystemMixin\<close> (\<open>src/include/trivialInit/mixins/filesystem.hpp\<close>): the early mounts, the
  runtime directories and their deferred ownership, and the unmounting at shutdown.
\<close>

record mount_point =
  mp_source :: string
  mp_target :: string
  mp_fstype :: string
  mp_flags :: "64 word"
  mp_data :: "string option"

definition MS_NOSUID :: "64 word" where "MS_NOSUID = 2"
definition MS_NODEV :: "64 word" where "MS_NODEV = 4"
definition MS_NOEXEC :: "64 word" where "MS_NOEXEC = 8"

definition mk_mount :: "string \<Rightarrow> string \<Rightarrow> string \<Rightarrow> 64 word \<Rightarrow> string option \<Rightarrow> mount_point" where
  "mk_mount src tgt ty flags data =
     \<lparr>mp_source = src, mp_target = tgt, mp_fstype = ty, mp_flags = flags, mp_data = data\<rparr>"

definition kEarlyMounts :: "mount_point list" where
  "kEarlyMounts =
     [mk_mount ''proc'' ''/proc'' ''proc'' (MS_NOSUID OR MS_NODEV OR MS_NOEXEC) None,
      mk_mount ''sysfs'' ''/sys'' ''sysfs'' (MS_NOSUID OR MS_NODEV OR MS_NOEXEC) None,
      mk_mount ''devtmpfs'' ''/dev'' ''devtmpfs'' MS_NOSUID (Some ''mode=0755''),
      mk_mount ''tmpfs'' ''/dev/shm'' ''tmpfs'' (MS_NOSUID OR MS_NODEV) None,
      mk_mount ''devpts'' ''/dev/pts'' ''devpts'' (MS_NOSUID OR MS_NOEXEC) (Some ''gid=5,mode=620''),
      mk_mount ''tmpfs'' ''/run'' ''tmpfs'' (MS_NOSUID OR MS_NODEV) (Some ''mode=0755''),
      mk_mount ''cgroup2'' ''/sys/fs/cgroup'' ''cgroup2'' (MS_NOSUID OR MS_NODEV OR MS_NOEXEC) None,
      mk_mount ''tmpfs'' ''/tmp'' ''tmpfs'' (MS_NOSUID OR MS_NODEV) (Some ''mode=1777'')]"

record runtime_dir =
  rd_path :: string
  rd_mode :: nat
  rd_owner :: "string option"
  rd_group :: "string option"

definition mk_rdir :: "string \<Rightarrow> string option \<Rightarrow> runtime_dir" where
  "mk_rdir path who = \<lparr>rd_path = path, rd_mode = 493, rd_owner = who, rd_group = who\<rparr>"

definition kRuntimeDirs :: "runtime_dir list" where
  "kRuntimeDirs =
     [mk_rdir ''/run/systemd'' None,
      mk_rdir ''/run/systemd/resolve'' (Some ''systemd-resolve''),
      mk_rdir ''/run/systemd/netif'' (Some ''systemd-network''),
      mk_rdir ''/run/systemd/netif/links'' (Some ''systemd-network''),
      mk_rdir ''/run/systemd/netif/leases'' (Some ''systemd-network''),
      mk_rdir ''/run/systemd/netif/dhcp-server-lease'' (Some ''systemd-network''),
      mk_rdir ''/run/systemd/journal'' None,
      mk_rdir ''/run/systemd/ask-password'' None,
      mk_rdir ''/run/dbus'' None,
      mk_rdir ''/run/udev'' None,
      mk_rdir ''/run/uuidd'' (Some ''uuidd''),
      mk_rdir ''/run/systemd/report'' None]"

text \<open>The number in column 2; here a malformed number is caught and leaves 0.\<close>

fun fs_resolve_lines :: "string list \<Rightarrow> string \<Rightarrow> uid" where
  "fs_resolve_lines [] name = 0"
| "fs_resolve_lines (l # ls) name =
     (let fs = db_fields l;
          uname = (if fs = [] then [] else hd fs);
          uid = (if 2 < length fs then (case to_uid (fs ! 2) of Inl _ \<Rightarrow> 0 | Inr u \<Rightarrow> u) else 0)
      in if uname = name then uid else fs_resolve_lines ls name)"

definition fs_resolve_uid :: "osview \<Rightarrow> string option \<Rightarrow> uid" where
  "fs_resolve_uid os name =
     (case name of None \<Rightarrow> 0 | Some n \<Rightarrow> fs_resolve_lines (db_lines os ''/etc/passwd'') n)"

definition fs_resolve_gid :: "osview \<Rightarrow> string option \<Rightarrow> uid" where
  "fs_resolve_gid os name =
     (case name of None \<Rightarrow> 0 | Some n \<Rightarrow> fs_resolve_lines (db_lines os ''/etc/group'') n)"

text \<open>The mount loop; a failure to mount \<open>/proc\<close> ends the phase with 1.\<close>

fun mount_early :: "kernel \<Rightarrow> mount_point list \<Rightarrow> 'a filesystem_st_scheme \<Rightarrow> int \<times> 'a filesystem_st_scheme" where
  "mount_early K [] s = (0, s)"
| "mount_early K (mp # mps) s =
     (let s = sys_do K (Mkdir (mp_target mp) 493) s;
          (ret, s) = sys K (Mount (mp_source mp) (mp_target mp) (Some (mp_fstype mp)) (mp_flags mp) (mp_data mp)) s
      in if ret \<noteq> 0 \<and> ret \<noteq> - EBUSY then
           (let s = log_fmt K Error ''fs'' ''mount {} on {} failed: {}''
                      [mp_source mp, mp_target mp, strerror K ret] s
            in if mp_target mp = ''/proc'' then (1, s) else mount_early K mps s)
         else
           (let s = s\<lparr>mounted := mounted s @ [mp_target mp]\<rparr>;
                s = log_fmt K Info ''fs'' ''Mounted {} on {}'' [mp_fstype mp, mp_target mp] s
            in mount_early K mps s))"

definition make_runtime_dir :: "kernel \<Rightarrow> runtime_dir \<Rightarrow> 'a kst_scheme \<Rightarrow> 'a kst_scheme" where
  "make_runtime_dir K rd s =
     (let (ret, s) = sys K (Mkdir (rd_path rd) (rd_mode rd)) s
      in if ret \<noteq> 0 \<and> ret \<noteq> - EEXIST then s
         else sys_do K (Chmod (rd_path rd) (rd_mode rd)) s)"

definition execute_EarlyMount :: "kernel \<Rightarrow> 'a filesystem_st_scheme \<Rightarrow> int \<times> 'a filesystem_st_scheme" where
  "execute_EarlyMount K s =
     (let s = log K Info ''fs'' ''Mounting early virtual filesystems'' s;
          (rc, s) = mount_early K kEarlyMounts s
      in if rc \<noteq> 0 then (rc, s)
         else
           (let s = sys_do K (Symlink ''/proc/self/fd'' ''/dev/fd'') s;
                s = sys_do K (Symlink ''/proc/self/fd/0'' ''/dev/stdin'') s;
                s = sys_do K (Symlink ''/proc/self/fd/1'' ''/dev/stdout'') s;
                s = sys_do K (Symlink ''/proc/self/fd/2'' ''/dev/stderr'') s;
                s = fold (make_runtime_dir K) kRuntimeDirs s
            in (0, log K Info ''fs'' ''Pre-created runtime directories'' s)))"

text \<open>The chown decision for one directory.\<close>

definition runtime_dir_chown :: "osview \<Rightarrow> runtime_dir \<Rightarrow> syscall list" where
  "runtime_dir_chown os rd =
     (if rd_owner rd = None \<and> rd_group rd = None then []
      else
        (let uid = (if rd_owner rd \<noteq> None then fs_resolve_uid os (rd_owner rd) else 0);
             gid = (if rd_group rd \<noteq> None then fs_resolve_gid os (rd_group rd) else 0)
         in if (rd_owner rd \<noteq> None \<and> uid = 0) \<or> (rd_group rd \<noteq> None \<and> gid = 0) then []
            else [Chown (rd_path rd) uid gid]))"

definition fix_runtime_dir_ownership :: "kernel \<Rightarrow> 'a filesystem_st_scheme \<Rightarrow> 'a filesystem_st_scheme" where
  "fix_runtime_dir_ownership K s =
     (if runtime_dirs_chowned s then s
      else fold (\<lambda>rd s. fold (sys_do K) (runtime_dir_chown (view K s) rd) s) kRuntimeDirs
             (s\<lparr>runtime_dirs_chowned := True\<rparr>))"

definition unmount_one :: "kernel \<Rightarrow> string \<Rightarrow> 'a journal_st_scheme \<Rightarrow> 'a journal_st_scheme" where
  "unmount_one K target s =
     (let (ret, s) = sys K (Umount2_detach target) s
      in if ret \<noteq> 0 then log_fmt K Warning ''fs'' ''umount {} failed: {}'' [target, strerror K ret] s else s)"

definition execute_Shutdown :: "kernel \<Rightarrow> 'a filesystem_st_scheme \<Rightarrow> int \<times> 'a filesystem_st_scheme" where
  "execute_Shutdown K s =
     (let s = log K Info ''fs'' ''Unmounting filesystems'' s
      in (0, fold (unmount_one K) (rev (mounted s)) s))"

section \<open>Mounting and unmounting\<close>

lemma mount_early_step:
  fixes s :: "'a filesystem_st_scheme"
  shows "\<exists>s'. trace s' = trace s @ [Mkdir (mp_target mp) 493, Mount (mp_source mp) (mp_target mp) (Some (mp_fstype mp)) (mp_flags mp) (mp_data mp)] \<and>
    (mounted s' = mounted s @ [mp_target mp] \<and> mount_early K (mp # mps) s = mount_early K mps s' \<or>
     mounted s' = mounted s \<and>
     mount_early K (mp # mps) s = (if mp_target mp = ''/proc'' then (1, s') else mount_early K mps s'))"
proof -
  let ?m = "Mount (mp_source mp) (mp_target mp) (Some (mp_fstype mp)) (mp_flags mp) (mp_data mp)"
  let ?s1 = "snd (sys K ?m (sys_do K (Mkdir (mp_target mp) 493) s))"
  let ?r = "k_ret K (Suc (ticks s)) ?m"
  show ?thesis
  proof (cases "?r \<noteq> 0 \<and> ?r \<noteq> - EBUSY")
    case True
    then show ?thesis
      by (intro exI [of _ "log_fmt K Error ''fs'' ''mount {} on {} failed: {}'' [mp_source mp, mp_target mp, strerror K ?r] ?s1"])
         (simp add: Let_def split_def)
  next
    case False
    then show ?thesis
      by (intro exI [of _ "log_fmt K Info ''fs'' ''Mounted {} on {}'' [mp_fstype mp, mp_target mp]
            (?s1\<lparr>mounted := mounted ?s1 @ [mp_target mp]\<rparr>)"])
         (auto simp: Let_def split_def)
  qed
qed

lemma mount_early_mounted:
  "\<exists>ts. mounted (snd (mount_early K mps s)) = mounted s @ ts \<and> subseq ts (map mp_target mps)"
proof (induction mps arbitrary: s)
  case (Cons mp mps)
  obtain s' where s': "mounted s' = mounted s @ [mp_target mp] \<and> mount_early K (mp # mps) s = mount_early K mps s' \<or>
      mounted s' = mounted s \<and> mount_early K (mp # mps) s = (if mp_target mp = ''/proc'' then (1, s') else mount_early K mps s')"
    using mount_early_step [of s mp K mps] by blast
  obtain ts where ts: "mounted (snd (mount_early K mps s')) = mounted s' @ ts" "subseq ts (map mp_target mps)"
    using Cons.IH by blast
  show ?case
    using s' ts by (auto simp del: mount_early.simps intro: exI [of _ "mp_target mp # ts"])
qed simp

lemma mount_early_rc: "fst (mount_early K mps s) \<in> {0, 1}"
proof (induction mps arbitrary: s)
  case (Cons mp mps)
  then show ?case using mount_early_step [of s mp K mps] by (metis fst_conv insertCI)
qed simp

lemma unmount_trace: "trace (fold (unmount_one K) ts s) = trace s @ map Umount2_detach ts"
  by (induction ts arbitrary: s) (simp_all add: unmount_one_def split_def Let_def)

lemma make_dirs_frame [simp]:
  "mounted (fold (make_runtime_dir K) rds s) = mounted s"
  by (rule fold_keeps) (simp add: make_runtime_dir_def split_def Let_def)

text \<open>A path that lies below another.\<close>

definition below :: "string \<Rightarrow> string \<Rightarrow> bool" where
  "below p q \<longleftrightarrow> strict_prefix (q @ ''/'') (p @ ''/'')"

lemma early_mounts_order:
  "sorted_wrt (\<lambda>p q. \<not> below p q) (map mp_target kEarlyMounts)" "distinct (map mp_target kEarlyMounts)"
  by (simp_all add: kEarlyMounts_def mk_mount_def below_def)

lemma sorted_wrt_subseq: "subseq xs ys \<Longrightarrow> sorted_wrt P ys \<Longrightarrow> sorted_wrt P xs"
  by (induction rule: list_emb.induct) (auto dest: list_emb_set)

lemma sorted_wrt_neq: "sorted_wrt (\<noteq>) xs \<longleftrightarrow> distinct xs"
  by (induction xs) auto



text \<open>A request that gives a runtime directory to a user and group other than root.\<close>

definition gives_away :: "runtime_dir list \<Rightarrow> syscall \<Rightarrow> bool" where
  "gives_away rds c = (case c of Chown p u g \<Rightarrow> p \<in> rd_path ` set rds \<and> u \<noteq> 0 \<and> g \<noteq> 0 | _ \<Rightarrow> False)"

lemma fold_sys_do_trace: "trace (fold (sys_do K) cs s) = trace s @ cs"
  by (induction cs arbitrary: s) simp_all

lemma fold_sys_do_chowned: "runtime_dirs_chowned (fold (sys_do K) cs s) = runtime_dirs_chowned s"
  by (rule fold_keeps) simp

lemma chown_fold:
  fixes s :: "'a filesystem_st_scheme"
  assumes "\<forall>rd\<in>set rds. rd_owner rd = None \<longleftrightarrow> rd_group rd = None"
  shows "\<exists>cs. trace (fold (\<lambda>rd s. fold (sys_do K) (runtime_dir_chown (view K s) rd) s) rds s) = trace s @ cs \<and>
      list_all (gives_away rds) cs \<and>
      runtime_dirs_chowned (fold (\<lambda>rd s. fold (sys_do K) (runtime_dir_chown (view K s) rd) s) rds s) = runtime_dirs_chowned s"
  using assms
proof (induction rds arbitrary: s)
  case (Cons rd rds)
  let ?s1 = "fold (sys_do K) (runtime_dir_chown (view K s) rd) s"
  have rd: "list_all (gives_away (rd # rds)) (runtime_dir_chown (view K s) rd)"
    using Cons.prems by (auto simp: runtime_dir_chown_def gives_away_def Let_def)
  have mono: "gives_away rds c \<Longrightarrow> gives_away (rd # rds) c" for c by (cases c) (auto simp: gives_away_def)
  obtain cs where cs: "trace (fold (\<lambda>rd s. fold (sys_do K) (runtime_dir_chown (view K s) rd) s) rds ?s1) = trace ?s1 @ cs"
      "list_all (gives_away rds) cs"
      "runtime_dirs_chowned (fold (\<lambda>rd s. fold (sys_do K) (runtime_dir_chown (view K s) rd) s) rds ?s1) = runtime_dirs_chowned ?s1"
    using Cons.IH [of ?s1] Cons.prems by auto
  with rd mono show ?case
    by (intro exI [of _ "runtime_dir_chown (view K s) rd @ cs"])
       (auto simp: fold_sys_do_trace fold_sys_do_chowned elim: list.pred_mono_strong)
qed simp


end
