(* ===== verification/Unit_Scan.thy ===== *)
theory Unit_Scan
  imports Unit_Parse
begin

text \<open>
  \<open>UnitScanMixin\<close> (\<open>src/include/trivialInit/mixins/unit_scan.hpp\<close>): finding unit files in the
  search directories and in their \<open>.wants\<close> and \<open>.requires\<close> subdirectories.
\<close>

definition kUnitSearchPaths :: "string list" where
  "kUnitSearchPaths =
     [''/etc/systemd/system'', ''/run/systemd/system'', ''/usr/lib/systemd/system'', ''/lib/systemd/system'']"

definition kSupportedExtensions :: "string list" where
  "kSupportedExtensions = [''.service'', ''.target'', ''.mount'', ''.socket'']"

definition is_supported :: "string \<Rightarrow> bool" where
  "is_supported filename \<longleftrightarrow> list_ex (ends_with filename) kSupportedExtensions"

text \<open>The tests of \<open>directory_entry\<close>: all but \<open>is_symlink\<close> follow links.\<close>

definition is_regular_file :: "osview \<Rightarrow> string \<Rightarrow> bool" where
  "is_regular_file os p = (case os_stat os p of Some st \<Rightarrow> st_kind st = Regular | None \<Rightarrow> False)"

definition is_directory :: "osview \<Rightarrow> string \<Rightarrow> bool" where
  "is_directory os p = (case os_stat os p of Some st \<Rightarrow> st_kind st = Directory | None \<Rightarrow> False)"

definition is_symlink :: "osview \<Rightarrow> string \<Rightarrow> bool" where
  "is_symlink os p = (case os_lstat os p of Some st \<Rightarrow> st_kind st = SymbolicLink | None \<Rightarrow> False)"

definition fs_exists :: "osview \<Rightarrow> string \<Rightarrow> bool" where
  "fs_exists os p \<longleftrightarrow> os_stat os p \<noteq> None"

text \<open>\<open>directory_iterator\<close>: the entries without \<open>.\<close> and \<open>..\<close>, none on an error.\<close>

definition dir_entries :: "osview \<Rightarrow> string \<Rightarrow> string list" where
  "dir_entries os d =
     (case os_dir os d of None \<Rightarrow> [] | Some es \<Rightarrow> filter (\<lambda>e. e \<noteq> ''.'' \<and> e \<noteq> ''..'') es)"

definition path_join :: "string \<Rightarrow> string \<Rightarrow> string" where
  "path_join d e = d @ ''/'' @ e"

text \<open>One entry of the first pass.\<close>

definition scan_file :: "kernel \<Rightarrow> string \<Rightarrow> string \<Rightarrow> 'a unit_scan_st_scheme \<Rightarrow> 'a unit_scan_st_scheme" where
  "scan_file K dir filename s =
     (let path = path_join dir filename
      in if \<not> is_regular_file (view K s) path \<and> \<not> is_symlink (view K s) path then s
         else if \<not> is_supported filename then s
         else if filename \<in> discovered_names s then s
         else
           (let s = s\<lparr>discovered_names := insert filename (discovered_names s),
                      discovered_paths := discovered_paths s @ [path]\<rparr>
            in log_fmt K Debug ''scanner'' ''Found: {}'' [path] s))"

definition scan_dir :: "kernel \<Rightarrow> string \<Rightarrow> 'a unit_scan_st_scheme \<Rightarrow> 'a unit_scan_st_scheme" where
  "scan_dir K dir s =
     (if \<not> fs_exists (view K s) dir then s
      else fold (scan_file K dir) (dir_entries (view K s) dir) s)"

text \<open>What a link of the second pass leads to; \<open>None\<close> on an error.\<close>

definition link_target :: "osview \<Rightarrow> string \<Rightarrow> string \<Rightarrow> string option" where
  "link_target os wdir link =
     (if is_symlink os (path_join wdir link) then
        (case os_readlink os (path_join wdir link) of
           None \<Rightarrow> None
         | Some t \<Rightarrow> os_canonical os (if starts_with t ''/'' then t else path_join wdir t))
      else os_canonical os (path_join wdir link))"

definition scan_link :: "kernel \<Rightarrow> string \<Rightarrow> string \<Rightarrow> 'a unit_scan_st_scheme \<Rightarrow> 'a unit_scan_st_scheme" where
  "scan_link K wdir link s =
     (case link_target (view K s) wdir link of
        None \<Rightarrow> s
      | Some target \<Rightarrow>
          if \<not> fs_exists (view K s) target then s
          else
            (let fname = path_basename target
             in if \<not> is_supported fname then s
                else
                  (let link_fname = (if \<not> is_supported link then fname else link)
                   in if link_fname \<in> discovered_names s then s
                      else
                        (let s = s\<lparr>discovered_names := insert link_fname (discovered_names s),
                                   discovered_paths := discovered_paths s @ [path_join wdir link]\<rparr>
                         in log_fmt K Debug ''scanner'' ''Found (wants): {} -> {}'' [link_fname, target] s))))"

definition scan_wants :: "kernel \<Rightarrow> string \<Rightarrow> string \<Rightarrow> 'a unit_scan_st_scheme \<Rightarrow> 'a unit_scan_st_scheme" where
  "scan_wants K dir dname s =
     (let wdir = path_join dir dname
      in if \<not> is_directory (view K s) wdir then s
         else if \<not> ends_with dname ''.wants'' \<and> \<not> ends_with dname ''.requires'' then s
         else fold (scan_link K wdir) (dir_entries (view K s) wdir) s)"

definition scan_wants_dirs :: "kernel \<Rightarrow> string \<Rightarrow> 'a unit_scan_st_scheme \<Rightarrow> 'a unit_scan_st_scheme" where
  "scan_wants_dirs K dir s =
     (if \<not> fs_exists (view K s) dir then s
      else fold (scan_wants K dir) (dir_entries (view K s) dir) s)"

definition execute_UnitDiscovery :: "kernel \<Rightarrow> 'a unit_scan_st_scheme \<Rightarrow> int \<times> 'a unit_scan_st_scheme" where
  "execute_UnitDiscovery K s =
     (let s = log K Info ''scanner'' ''Scanning for unit files'' s;
          s = fold (scan_dir K) kUnitSearchPaths s;
          s = fold (scan_wants_dirs K) kUnitSearchPaths s
      in (0, log_fmt K Info ''scanner'' ''Discovered {} unit files'' [show_nat (length (discovered_paths s))] s))"

definition has_unit :: "string \<Rightarrow> 'a unit_scan_st_scheme \<Rightarrow> bool" where
  "has_unit name s \<longleftrightarrow> name \<in> discovered_names s"

section \<open>One path per unit name\<close>

lemma path_basename_join: "CHR ''/'' \<notin> set e \<Longrightarrow> path_basename (path_join d e) = e"
proof -
  assume "CHR ''/'' \<notin> set e"
  then have "find_last (\<lambda>c. c = CHR ''/'') (d @ CHR ''/'' # e) = Some (length d)"
    by (intro find_last_append_sep) auto
  then show ?thesis by (simp add: path_basename_def path_join_def)
qed

definition unit_names :: "'a unit_scan_st_scheme \<Rightarrow> string list" where
  "unit_names s = filter is_supported (map path_basename (discovered_paths s))"

text \<open>The table of names covers the paths, and grows.\<close>

definition scan_ok :: "'a unit_scan_st_scheme \<Rightarrow> bool" where
  "scan_ok s \<longleftrightarrow> distinct (unit_names s) \<and> set (unit_names s) \<subseteq> discovered_names s"

text \<open>A directory listing has no entry with a slash.\<close>

definition plain_listing :: "kernel \<Rightarrow> bool" where
  "plain_listing K \<longleftrightarrow> (\<forall>n d es. os_dir (k_view K n) d = Some es \<longrightarrow> list_all (\<lambda>e. CHR ''/'' \<notin> set e) es)"

lemma dir_entries_plain:
  "plain_listing K \<Longrightarrow> e \<in> set (dir_entries (view K s) d) \<Longrightarrow> CHR ''/'' \<notin> set e"
  by (cases "os_dir (view K s) d")
     (fastforce simp: plain_listing_def dir_entries_def view_def list_all_iff)+

lemma scan_file_ok:
  assumes "scan_ok s" "CHR ''/'' \<notin> set f"
  shows "scan_ok (scan_file K d f s)"
  using assms
  by (auto simp: scan_ok_def scan_file_def unit_names_def Let_def path_basename_join)

lemma scan_link_ok:
  assumes "scan_ok s" "CHR ''/'' \<notin> set l"
  shows "scan_ok (scan_link K d l s)"
  using assms
  by (auto simp: scan_ok_def scan_link_def unit_names_def Let_def path_basename_join split: option.split)

lemma scan_passes_ok:
  assumes "plain_listing K" "scan_ok s"
  shows "scan_ok (scan_dir K d s)" "scan_ok (scan_wants_dirs K d s)"
proof -
  note plain = dir_entries_plain [OF assms(1)]
  have l: "scan_ok (fold (scan_link K w) (dir_entries (view K t) w) t)" if "scan_ok t" for w and t :: "'a unit_scan_st_scheme"
    by (rule fold_inv [where P = scan_ok]) (use that in \<open>auto dest: plain intro: scan_link_ok\<close>)
  have w: "scan_ok (scan_wants K d n t)" if "scan_ok t" for n and t :: "'a unit_scan_st_scheme"
    using that l by (simp add: scan_wants_def Let_def)
  have "scan_ok (fold (scan_file K d) (dir_entries (view K s) d) s)"
    by (rule fold_inv [where P = scan_ok]) (use assms(2) in \<open>auto dest: plain intro: scan_file_ok\<close>)
  with assms(2) show "scan_ok (scan_dir K d s)" by (simp add: scan_dir_def)
  have "scan_ok (fold (scan_wants K d) (dir_entries (view K s) d) s)"
    by (rule fold_inv [where P = scan_ok]) (use assms(2) w in auto)
  with assms(2) show "scan_ok (scan_wants_dirs K d s)" by (simp add: scan_wants_dirs_def)
qed

lemma discovery_scan_ok:
  assumes "plain_listing K" and "discovered_paths s = []"
  shows "scan_ok (snd (execute_UnitDiscovery K s))"
proof -
  have "scan_ok (log K Info ''scanner'' ''Scanning for unit files'' s)"
    using assms(2) by (simp add: scan_ok_def unit_names_def)
  then have "scan_ok (fold (scan_dir K) kUnitSearchPaths (log K Info ''scanner'' ''Scanning for unit files'' s))"
    by (rule fold_inv [where P = scan_ok, rotated]) (rule scan_passes_ok(1) [OF assms(1)])
  then have "scan_ok (fold (scan_wants_dirs K) kUnitSearchPaths (fold (scan_dir K) kUnitSearchPaths
      (log K Info ''scanner'' ''Scanning for unit files'' s)))"
    by (rule fold_inv [where P = scan_ok, rotated]) (rule scan_passes_ok(2) [OF assms(1)])
  then show ?thesis by (simp add: execute_UnitDiscovery_def Let_def scan_ok_def unit_names_def)
qed

text \<open>Discovery finds every unit name at most once: no two discovered paths have the same
  supported base name, so the parse phase never overwrites one unit with another of the same
  name, and every such name is known to \<open>has_unit\<close>.\<close>

theorem discovery_unique_names:
  assumes "plain_listing K" and "discovered_paths s = []"
  shows "fst (execute_UnitDiscovery K s) = 0 \<and>
    distinct (filter is_supported (map path_basename (discovered_paths (snd (execute_UnitDiscovery K s))))) \<and>
    list_all (\<lambda>p. is_supported (path_basename p) \<longrightarrow> has_unit (path_basename p) (snd (execute_UnitDiscovery K s)))
      (discovered_paths (snd (execute_UnitDiscovery K s)))"
proof -
  have "fst (execute_UnitDiscovery K s) = 0" by (simp add: execute_UnitDiscovery_def Let_def)
  with discovery_scan_ok [OF assms] show ?thesis
    by (auto simp: scan_ok_def unit_names_def list_all_iff has_unit_def)
qed

definition demo_scan_os :: osview where
  "demo_scan_os = no_os\<lparr>
     os_stat := (\<lambda>p. Some \<lparr>st_dev = 0, st_kind = (if ends_with p ''.service'' then Regular else Directory), st_size = 1\<rparr>),
     os_dir := (\<lambda>d. if d = ''/etc/systemd/system'' \<or> d = ''/lib/systemd/system'' then Some [''.'', ''..'', ''a.service''] else None)\<rparr>"

definition demo_scan_kernel :: "kernel \<Rightarrow> kernel" where
  "demo_scan_kernel K = K\<lparr>k_view := (\<lambda>_. demo_scan_os)\<rparr>"

lemma demo_scan_plain: "plain_listing (demo_scan_kernel K)"
  by (auto simp: plain_listing_def demo_scan_kernel_def demo_scan_os_def split: if_splits)

theorem discovery_unique_names_witness:
  "\<forall>K. distinct (filter is_supported (map path_basename
     (discovered_paths (snd (execute_UnitDiscovery (demo_scan_kernel K) init_system_new)))))"
  using discovery_unique_names [OF demo_scan_plain, of init_system_new] by (simp add: init_system_new_def)

section \<open>Priority of the search directories\<close>

definition eligible :: "osview \<Rightarrow> string \<Rightarrow> string \<Rightarrow> bool" where
  "eligible os d n \<longleftrightarrow> (is_regular_file os (path_join d n) \<or> is_symlink os (path_join d n)) \<and> is_supported n"

definition listed :: "osview \<Rightarrow> string \<Rightarrow> string \<Rightarrow> bool" where
  "listed os d n \<longleftrightarrow> fs_exists os d \<and> n \<in> set (dir_entries os d) \<and> eligible os d n"

lemma scan_file_step:
  assumes "\<forall>n. k_view K n = os"
  shows "discovered_names (scan_file K d f s) = discovered_names s \<union> (if eligible os d f then {f} else {})"
    "set (discovered_paths (scan_file K d f s)) = set (discovered_paths s) \<union>
       (if eligible os d f \<and> f \<notin> discovered_names s then {path_join d f} else {})"
  using assms by (auto simp: scan_file_def eligible_def view_def Let_def)

lemma scan_files:
  assumes "\<forall>n. k_view K n = os"
  shows "discovered_names (fold (scan_file K d) fs s) = discovered_names s \<union> {n \<in> set fs. eligible os d n} \<and>
    set (discovered_paths (fold (scan_file K d) fs s)) = set (discovered_paths s) \<union>
      path_join d ` {n \<in> set fs. n \<notin> discovered_names s \<and> eligible os d n}"
proof (induction fs arbitrary: s)
  case (Cons f fs)
  from Cons.IH [of "scan_file K d f s"] scan_file_step [OF assms, of d f s] show ?case
    by (cases "eligible os d f"; cases "f \<in> discovered_names s") auto
qed simp

lemma scan_dir_listed:
  assumes "\<forall>n. k_view K n = os"
  shows "discovered_names (scan_dir K d s) = discovered_names s \<union> {n. listed os d n}"
    "set (discovered_paths (scan_dir K d s)) =
       set (discovered_paths s) \<union> path_join d ` {n. n \<notin> discovered_names s \<and> listed os d n}"
  using assms scan_files [OF assms, of d "dir_entries os d" s]
  by (auto simp: scan_dir_def listed_def view_def)

lemma fold_grows:
  assumes "\<And>x t. g t \<subseteq> g (f x t)"
  shows "g t \<subseteq> g (fold f xs t)"
proof (induction xs arbitrary: t)
  case (Cons x xs)
  then show ?case using assms [of t x] Cons.IH [of "f x t"] by (simp add: subset_trans)
qed simp

lemma scan_dirs_first:
  assumes "\<forall>n. k_view K n = os" "ds = pre @ d # post" "listed os d n" "list_all (\<lambda>d'. \<not> listed os d' n) pre"
    and "n \<notin> discovered_names s"
  shows "path_join d n \<in> set (discovered_paths (fold (scan_dir K) ds s))"
proof -
  have "n \<notin> discovered_names (fold (scan_dir K) pre s)"
    using assms(4,5)
  proof (induction pre arbitrary: s)
    case (Cons d' pre)
    then show ?case using Cons.IH [of "scan_dir K d' s"] scan_dir_listed(1) [OF assms(1), of d' s] by auto
  qed simp
  with assms(3) have "path_join d n \<in> set (discovered_paths (scan_dir K d (fold (scan_dir K) pre s)))"
    by (auto simp: scan_dir_listed [OF assms(1)])
  moreover have "set (discovered_paths t) \<subseteq> set (discovered_paths (fold (scan_dir K) post t))"
    for t :: "'a unit_scan_st_scheme"
    by (rule fold_grows [where g = "set \<circ> discovered_paths", unfolded comp_def]) (auto simp: scan_dir_listed [OF assms(1)])
  ultimately show ?thesis using assms(2) by auto
qed

lemma scan_link_keeps: "set (discovered_paths t) \<subseteq> set (discovered_paths (scan_link K w l t))"
  by (auto simp: scan_link_def Let_def split: option.split)

lemma scan_wants_keeps: "set (discovered_paths t) \<subseteq> set (discovered_paths (fold (scan_wants_dirs K) ds t))"
proof -
  note grows = fold_grows [where g = "set \<circ> discovered_paths", unfolded comp_def]
  have l: "set (discovered_paths t) \<subseteq> set (discovered_paths (fold (scan_link K w) ls t))" for w ls and t :: "'a unit_scan_st_scheme"
    by (rule grows) (rule scan_link_keeps)
  have w: "set (discovered_paths t) \<subseteq> set (discovered_paths (fold (scan_wants K d) ns t))" for d ns and t :: "'a unit_scan_st_scheme"
    by (rule grows) (use l in \<open>simp add: scan_wants_def Let_def\<close>)
  show ?thesis
    by (rule grows) (use w in \<open>simp add: scan_wants_dirs_def\<close>)
qed

lemma distinct_map_filter_one:
  assumes "distinct (filter Q (map g xs))" "Q n" "x \<in> set xs" "g x = n"
  shows "filter (\<lambda>x. g x = n) xs = [x]"
proof -
  have one: "length (filter (\<lambda>x. g x = n) xs) \<le> 1"
  proof -
    have "map g (filter (\<lambda>x. g x = n) xs) = filter (\<lambda>y. y = n) (filter Q (map g xs))"
      using assms(2) by (induction xs) auto
    moreover have "distinct (filter (\<lambda>y. y = n) (filter Q (map g xs)))" using assms(1) by (rule distinct_filter)
    moreover have "set (filter (\<lambda>y. y = n) (filter Q (map g xs))) \<subseteq> {n}" by auto
    ultimately show ?thesis
      by (metis card_mono distinct_card finite.emptyI finite.insertI is_singletonI is_singleton_altdef length_map)
  qed
  have "x \<in> set (filter (\<lambda>x. g x = n) xs)" using assms(3,4) by simp
  with one show ?thesis by (cases "filter (\<lambda>x. g x = n) xs") auto
qed

text \<open>C36: earlier search directories win. On an unchanging file system, a unit file that a search
  directory lists and no earlier one does (\<open>/etc\<close> before \<open>/run\<close> before \<open>/usr/lib\<close>) is
  discovered at that directory's path, and at no other.\<close>

theorem discovery_priority:
  assumes os: "\<forall>n. k_view K n = os" and plain: "plain_listing K"
    and new: "discovered_paths s = []" "discovered_names s = {}"
    and dirs: "kUnitSearchPaths = pre @ d # post" "listed os d n" "list_all (\<lambda>d'. \<not> listed os d' n) pre"
  shows "filter (\<lambda>p. path_basename p = n) (discovered_paths (snd (execute_UnitDiscovery K s))) = [path_join d n]"
proof -
  let ?t = "snd (execute_UnitDiscovery K s)"
  have "path_join d n \<in> set (discovered_paths (fold (scan_dir K) kUnitSearchPaths (log K Info ''scanner'' ''Scanning for unit files'' s)))"
    by (rule scan_dirs_first [OF os dirs]) (simp add: new)
  then have mem: "path_join d n \<in> set (discovered_paths ?t)"
    using scan_wants_keeps by (fastforce simp: execute_UnitDiscovery_def Let_def)
  have n: "is_supported n" using dirs(2) by (simp add: listed_def eligible_def)
  have b: "path_basename (path_join d n) = n"
    using dirs(2) dir_entries_plain [OF plain, of n s d] os by (auto simp: listed_def view_def intro: path_basename_join)
  have "distinct (filter is_supported (map path_basename (discovered_paths ?t)))"
    using discovery_scan_ok [OF plain new(1)] by (simp add: scan_ok_def unit_names_def)
  from distinct_map_filter_one [OF this n mem b] show ?thesis .
qed

theorem discovery_priority_witness:
  "\<forall>K. filter (\<lambda>p. path_basename p = ''a.service'')
     (discovered_paths (snd (execute_UnitDiscovery (demo_scan_kernel K) init_system_new))) =
   [''/etc/systemd/system/a.service'']"
proof
  fix K
  let ?K = "demo_scan_kernel K"
  have os: "\<forall>n. k_view ?K n = demo_scan_os" by (simp add: demo_scan_kernel_def)
  have s: "discovered_paths init_system_new = []" "discovered_names init_system_new = {}"
    by (simp_all add: init_system_new_def)
  have d: "kUnitSearchPaths = [] @ ''/etc/systemd/system'' #
      [''/run/systemd/system'', ''/usr/lib/systemd/system'', ''/lib/systemd/system'']"
    by (simp add: kUnitSearchPaths_def)
  have l: "listed demo_scan_os ''/etc/systemd/system'' ''a.service''" by code_simp
  have "list_all (\<lambda>d'. \<not> listed demo_scan_os d' ''a.service'') []" by simp
  from discovery_priority [OF os demo_scan_plain s d l this]
  show "filter (\<lambda>p. path_basename p = ''a.service'') (discovered_paths (snd (execute_UnitDiscovery ?K init_system_new))) =
      [''/etc/systemd/system/a.service'']" by (simp add: path_join_def)
qed

end
