(* ===== verification/Signals.thy ===== *)
theory Signals
  imports Restart
begin

text \<open>
  \<open>SignalMixin\<close> (\<open>src/include/trivialInit/mixins/signal_handler.hpp\<close>): signals arrive through
  a signalfd watched by epoll.
\<close>

definition execute_SignalSetup :: "kernel \<Rightarrow> 'a signal_st_scheme \<Rightarrow> int \<times> 'a signal_st_scheme" where
  "execute_SignalSetup K s =
     (let s = log K Info ''signal'' ''Setting up signal handling'' s;
          (r, s) = sys K Sigprocmask_block_all s
      in if r < 0 then (1, log_fmt K Crit ''signal'' ''sigprocmask: {}'' [strerror K r] s)
         else
           (let (sfd, s) = sys K (Signalfd [SIGCHLD, SIGTERM, SIGINT, SIGUSR1]) s;
                s = s\<lparr>signal_fd := (if sfd < 0 then -1 else sfd)\<rparr>
            in if sfd < 0 then (1, log_fmt K Crit ''signal'' ''signalfd: {}'' [strerror K sfd] s)
               else
                 (let (efd, s) = sys K Epoll_create s;
                      s = s\<lparr>epoll_fd := (if efd < 0 then -1 else efd)\<rparr>
                  in if efd < 0 then (1, log_fmt K Crit ''signal'' ''epoll_create1: {}'' [strerror K efd] s)
                     else
                       (let s = sys_do K (Epoll_add (epoll_fd s) (signal_fd s)) s
                        in (0, log K Info ''signal'' ''Signal handling ready (signalfd + epoll)'' s)))))"

text \<open>One record read from the signalfd.\<close>

definition handle_signal :: "kernel \<Rightarrow> int \<Rightarrow> int \<times> 'a socket_st_scheme \<Rightarrow> int \<times> 'a socket_st_scheme" where
  "handle_signal K sig cs =
     (let (count, s) = cs
      in if sig = SIGCHLD then (count + 1, reap_children K s)
         else if sig = SIGTERM \<or> sig = SIGINT then
           (count + 1, (log K Notice ''signal'' ''Shutdown signal received'' s)\<lparr>shutdown_requested := True\<rparr>)
         else if sig = SIGUSR1 then (count + 1, s)
         else (count, s))"

definition drain_signals :: "kernel \<Rightarrow> 'a socket_st_scheme \<Rightarrow> int \<times> 'a socket_st_scheme" where
  "drain_signals K s = fold (handle_signal K) (k_signals K (ticks s)) (0, tick s)"

text \<open>One descriptor epoll reports.\<close>

definition poll_event :: "kernel \<Rightarrow> fd \<Rightarrow> 'a socket_st_scheme \<Rightarrow> 'a socket_st_scheme" where
  "poll_event K fd s = (if fd = signal_fd s then snd (drain_signals K s) else s)"

text \<open>The answer of \<open>epoll_wait\<close>, for at most \<open>m\<close> events.\<close>

definition epoll_wait :: "kernel \<Rightarrow> nat \<Rightarrow> 'a kst_scheme \<Rightarrow> int \<times> fd list \<times> 'a kst_scheme" where
  "epoll_wait K m s =
     (let (n, fds) = k_epoll K (ticks s)
      in (min n (int m), take (nat (min n (int m))) fds, tick s))"

definition poll_once :: "kernel \<Rightarrow> 'a socket_st_scheme \<Rightarrow> int \<times> 'a socket_st_scheme" where
  "poll_once K s =
     (let (n, fds, s) = epoll_wait K 8 s
      in if n < 0 \<and> n \<noteq> - EINTR then (-1, s)
         else (max n (-1), fold (poll_event K) fds s))"

section \<open>What draining does\<close>

lemma reap_one_flags [simp]:
  "shutdown_requested (reap_one K ps s) = shutdown_requested s"
  "signal_fd (reap_one K ps s) = signal_fd s"
  "epoll_fd (reap_one K ps s) = epoll_fd s"
  "units (reap_one K ps s) = units s"
  "fd_to_socket (reap_one K ps s) = fd_to_socket s"
  "mounted (reap_one K ps s) = mounted s"
  "runtime_dirs_chowned (reap_one K ps s) = runtime_dirs_chowned s"
  "trace (reap_one K ps s) = trace s"
  by (simp_all add: reap_one_def Let_def reap_untrack_def schedule_restart_def reap_callback_def
       run_exit_callback_def tick_def split: option.split exit_callback.split)

lemma reap_children_flags [simp]:
  "shutdown_requested (reap_children K s) = shutdown_requested s"
  "signal_fd (reap_children K s) = signal_fd s"
  "epoll_fd (reap_children K s) = epoll_fd s"
  "units (reap_children K s) = units s"
  "fd_to_socket (reap_children K s) = fd_to_socket s"
  "mounted (reap_children K s) = mounted s"
  "trace (reap_children K s) = trace s"
  by (simp_all add: reap_children_def fold_keeps)

lemma handle_signal_state:
  "trace (snd (handle_signal K sig cs)) = trace (snd cs)"
  "signal_fd (snd (handle_signal K sig cs)) = signal_fd (snd cs)"
  "mounted (snd (handle_signal K sig cs)) = mounted (snd cs)"
  "shutdown_requested (snd (handle_signal K sig cs)) \<longleftrightarrow>
     shutdown_requested (snd cs) \<or> sig = SIGTERM \<or> sig = SIGINT"
  "fst (handle_signal K sig cs) = fst cs + (if sig \<in> {SIGCHLD, SIGTERM, SIGINT, SIGUSR1} then 1 else 0)"
  by (auto simp: handle_signal_def Let_def split_def SIGCHLD_def SIGTERM_def SIGINT_def SIGUSR1_def)

lemma drain_signals_fold:
  "shutdown_requested (snd (fold (handle_signal K) sigs cs)) \<longleftrightarrow>
     shutdown_requested (snd cs) \<or> SIGTERM \<in> set sigs \<or> SIGINT \<in> set sigs"
  "fst (fold (handle_signal K) sigs cs) =
     fst cs + int (length (filter (\<lambda>x. x \<in> {SIGCHLD, SIGTERM, SIGINT, SIGUSR1}) sigs))"
  "trace (snd (fold (handle_signal K) sigs cs)) = trace (snd cs)"
  "signal_fd (snd (fold (handle_signal K) sigs cs)) = signal_fd (snd cs)"
  "mounted (snd (fold (handle_signal K) sigs cs)) = mounted (snd cs)"
  by (induction sigs arbitrary: cs) (auto simp: handle_signal_state)

text \<open>C37: draining the signalfd counts exactly the four handled signals, requests shutdown exactly
  when \<open>SIGTERM\<close> or \<open>SIGINT\<close> is among them (a request is never taken back), and makes no
  request to the system besides waiting for children.\<close>

theorem drain_signals_effect:
  "fst (drain_signals K s) =
     int (length (filter (\<lambda>x. x \<in> {SIGCHLD, SIGTERM, SIGINT, SIGUSR1}) (k_signals K (ticks s)))) \<and>
   (shutdown_requested (snd (drain_signals K s)) \<longleftrightarrow>
      shutdown_requested s \<or> SIGTERM \<in> set (k_signals K (ticks s)) \<or> SIGINT \<in> set (k_signals K (ticks s))) \<and>
   trace (snd (drain_signals K s)) = trace s"
  by (simp add: drain_signals_def drain_signals_fold)

lemma handle_signal_inv: "process_inv (snd cs) \<Longrightarrow> process_inv (snd (handle_signal K sig cs))"
  by (auto simp: handle_signal_def Let_def split_def intro: reap_children_inv process_inv_frame)

lemma drain_signals_inv:
  assumes "process_inv s"
  shows "process_inv (snd (drain_signals K s))"
  unfolding drain_signals_def
  by (rule fold_inv [where P = "\<lambda>cs. process_inv (snd cs)"])
     (use assms in \<open>auto intro: handle_signal_inv process_inv_frame\<close>)

lemma poll_once_keeps:
  "trace (snd (poll_once K s)) = trace s"
  "mounted (snd (poll_once K s)) = mounted s"
  by (simp_all add: poll_once_def epoll_wait_def split_def Let_def poll_event_def fold_keeps
       drain_signals_def drain_signals_fold)

lemma poll_once_inv:
  assumes "process_inv s"
  shows "process_inv (snd (poll_once K s))"
proof -
  have t: "process_inv (tick s)" by (rule process_inv_frame [OF assms]) simp_all
  have "process_inv (fold (poll_event K) fds (tick s))" for fds
    by (rule fold_inv [where P = process_inv, OF _ t]) (simp add: poll_event_def drain_signals_inv)
  with t show ?thesis by (simp add: poll_once_def epoll_wait_def split_def Let_def)
qed

text \<open>Signal set-up succeeds exactly when the three system calls do; then the signalfd is registered
  with epoll, and both descriptors are recorded.\<close>

theorem signal_setup_result:
  "let r = execute_SignalSetup K s; s0 = log K Info ''signal'' ''Setting up signal handling'' s;
       a = k_ret K (ticks s0) Sigprocmask_block_all;
       b = k_ret K (ticks s0 + 1) (Signalfd [SIGCHLD, SIGTERM, SIGINT, SIGUSR1]);
       c = k_ret K (ticks s0 + 2) Epoll_create
   in if 0 \<le> a \<and> 0 \<le> b \<and> 0 \<le> c
      then fst r = 0 \<and> signal_fd (snd r) = b \<and> epoll_fd (snd r) = c \<and>
           trace (snd r) = trace s @ [Sigprocmask_block_all, Signalfd [SIGCHLD, SIGTERM, SIGINT, SIGUSR1],
             Epoll_create, Epoll_add c b]
      else fst r = 1 \<and> Epoll_add c b \<notin> set (drop (length (trace s)) (trace (snd r)))"
  by (auto simp: execute_SignalSetup_def Let_def split_def not_less)

end
