(* ===== verification/Tui.thy ===== *)
theory Tui
  imports Restart Unit_Parse
begin

text \<open>
  \<open>TuiMixin\<close> (\<open>src/include/trivialInit/mixins/tui.hpp\<close>): the windows, keyboard handling, the
  viewport of the unit list and what each tab draws. The answers of ncurses are parameters
  (\<open>k_getch\<close>, \<open>k_winsize\<close>, \<open>k_newwin\<close>), the calls are appended to \<open>tui_calls\<close> in the order
  the code makes them. The rows a loop draws are values of their own (position, colour, text).
\<close>

section \<open>Windows\<close>

text \<open>Logging and requests do not touch the members of the mixin.\<close>

lemma tui_frame [simp]:
  "main_win (log K l src m s) = main_win s"
  "status_win (log K l src m s) = status_win s"
  "log_win (log K l src m s) = log_win s"
  "header_win (log K l src m s) = header_win s"
  "tui_calls (log K l src m s) = tui_calls s"
  "tui_active (log K l src m s) = tui_active s"
  "current_tab (log K l src m s) = current_tab s"
  "scroll_offset (log K l src m s) = scroll_offset s"
  "selected_row (log K l src m s) = selected_row s"
  "svc_scroll (log K l src m s) = svc_scroll s"
  "main_win (log_fmt K l src f as s) = main_win s"
  "status_win (log_fmt K l src f as s) = status_win s"
  "log_win (log_fmt K l src f as s) = log_win s"
  "header_win (log_fmt K l src f as s) = header_win s"
  "tui_calls (log_fmt K l src f as s) = tui_calls s"
  "tui_active (log_fmt K l src f as s) = tui_active s"
  "current_tab (log_fmt K l src f as s) = current_tab s"
  "scroll_offset (log_fmt K l src f as s) = scroll_offset s"
  "selected_row (log_fmt K l src f as s) = selected_row s"
  "svc_scroll (log_fmt K l src f as s) = svc_scroll s"
  "main_win (snd (sys K c s)) = main_win s"
  "status_win (snd (sys K c s)) = status_win s"
  "log_win (snd (sys K c s)) = log_win s"
  "header_win (snd (sys K c s)) = header_win s"
  "tui_calls (snd (sys K c s)) = tui_calls s"
  "tui_active (snd (sys K c s)) = tui_active s"
  "current_tab (snd (sys K c s)) = current_tab s"
  "scroll_offset (snd (sys K c s)) = scroll_offset s"
  "selected_row (snd (sys K c s)) = selected_row s"
  "svc_scroll (snd (sys K c s)) = svc_scroll s"
  "main_win (sys_do K c s) = main_win s"
  "status_win (sys_do K c s) = status_win s"
  "log_win (sys_do K c s) = log_win s"
  "header_win (sys_do K c s) = header_win s"
  "tui_calls (sys_do K c s) = tui_calls s"
  "tui_active (sys_do K c s) = tui_active s"
  "current_tab (sys_do K c s) = current_tab s"
  "scroll_offset (sys_do K c s) = scroll_offset s"
  "selected_row (sys_do K c s) = selected_row s"
  "svc_scroll (sys_do K c s) = svc_scroll s"
  "main_win (tick s) = main_win s"
  "status_win (tick s) = status_win s"
  "log_win (tick s) = log_win s"
  "header_win (tick s) = header_win s"
  "tui_calls (tick s) = tui_calls s"
  "tui_active (tick s) = tui_active s"
  "current_tab (tick s) = current_tab s"
  "scroll_offset (tick s) = scroll_offset s"
  "selected_row (tick s) = selected_row s"
  "svc_scroll (tick s) = svc_scroll s"
  by (simp_all add: log_def log_fmt_def sys_def sys_do_def tick_def)

lemma tui_fields_more:
  fixes s t :: "'a tui_st_scheme"
  assumes "unit_exec_st.more t = unit_exec_st.more s"
  shows "main_win t = main_win s" "status_win t = status_win s" "header_win t = header_win s"
    "tui_calls t = tui_calls s" "tui_active t = tui_active s" "current_tab t = current_tab s"
    "scroll_offset t = scroll_offset s" "selected_row t = selected_row s" "svc_scroll t = svc_scroll s"
  using assms by (cases s; cases t; simp)+

definition curses :: "curses_call list \<Rightarrow> 'a tui_st_scheme \<Rightarrow> 'a tui_st_scheme" where
  "curses cs s = s\<lparr>tui_calls := tui_calls s @ cs\<rparr>"

definition newwin :: "kernel \<Rightarrow> int \<Rightarrow> int \<Rightarrow> int \<Rightarrow> int \<Rightarrow> 'a tui_st_scheme \<Rightarrow> window \<times> 'a tui_st_scheme" where
  "newwin K h w y x s =
     (let win = (if k_newwin K (ticks s) then Some (ticks s) else None)
      in (win, curses [Newwin h w y x win] (tick s)))"

definition create_windows :: "kernel \<Rightarrow> 'a tui_st_scheme \<Rightarrow> 'a tui_st_scheme" where
  "create_windows K s =
     (let (h, w) = k_winsize K (ticks s);
          (win, s) = newwin K 3 w 0 0 (tick s); s = s\<lparr>header_win := win\<rparr>;
          (win, s) = newwin K (h - 6) w 3 0 s; s = s\<lparr>main_win := win\<rparr>;
          (win, s) = newwin K 3 w (h - 3) 0 s
      in s\<lparr>status_win := win\<rparr>)"

definition init_tui :: "kernel \<Rightarrow> 'a tui_st_scheme \<Rightarrow> int \<times> 'a tui_st_scheme" where
  "init_tui K s =
     (let s = curses [Initscr, Cbreak, Noecho, Curs_set 0, Keypad True, Nodelay True,
                Start_color, Use_default_colors,
                Init_pair 1 COLOR_GREEN (-1), Init_pair 2 COLOR_RED (-1),
                Init_pair 3 COLOR_YELLOW (-1), Init_pair 4 COLOR_CYAN (-1),
                Init_pair 5 COLOR_WHITE (-1), Init_pair 6 COLOR_MAGENTA (-1),
                Init_pair 7 COLOR_BLACK COLOR_CYAN] s;
          s = create_windows K s
      in (0, s\<lparr>tui_active := True\<rparr>))"

definition execute_TuiStart :: "kernel \<Rightarrow> 'a tui_st_scheme \<Rightarrow> int \<times> 'a tui_st_scheme" where
  "execute_TuiStart K s =
     (if k_ret K (ticks s) Getpid = 1 then (0, tick s)
      else init_tui K (log K Info ''tui'' ''Initializing TUI'' (tick s)))"

definition delete_windows :: "'a tui_st_scheme \<Rightarrow> 'a tui_st_scheme" where
  "delete_windows s = curses [Delwin (header_win s), Delwin (main_win s), Delwin (status_win s)] s"

definition shutdown_tui :: "'a tui_st_scheme \<Rightarrow> 'a tui_st_scheme" where
  "shutdown_tui s =
     (if tui_active s then (curses [Endwin] (delete_windows s))\<lparr>tui_active := False\<rparr> else s)"

lemmas window_defs = create_windows_def newwin_def delete_windows_def curses_def Let_def split_def

section \<open>Keys\<close>

definition KEY_DOWN :: int where "KEY_DOWN = 258"
definition KEY_UP :: int where "KEY_UP = 259"
definition KEY_RESIZE :: int where "KEY_RESIZE = 410"

text \<open>\<open>handle_input\<close> for the key \<open>ch\<close>: \<open>False\<close> asks to quit.\<close>

definition handle_key :: "kernel \<Rightarrow> int \<Rightarrow> 'a tui_st_scheme \<Rightarrow> bool \<times> 'a tui_st_scheme" where
  "handle_key K ch s =
     (let total_units = int (length (units s))
      in if ch = -1 then (True, s)
         else if ch = 113 \<or> ch = 81 then (False, s)
         else if ch = 49 then (True, s\<lparr>current_tab := Tab_Overview\<rparr>)
         else if ch = 50 then (True, s\<lparr>current_tab := Tab_Services\<rparr>)
         else if ch = 51 then (True, s\<lparr>current_tab := Tab_Journal\<rparr>)
         else if ch = 106 \<or> ch = KEY_DOWN then
           (True, if current_tab s = Tab_Journal then s\<lparr>scroll_offset := max 0 (scroll_offset s - 1)\<rparr>
                  else s\<lparr>selected_row := min (selected_row s + 1) (max 0 (total_units - 1))\<rparr>)
         else if ch = 107 \<or> ch = KEY_UP then
           (True, if current_tab s = Tab_Journal then s\<lparr>scroll_offset := scroll_offset s + 1\<rparr>
                  else s\<lparr>selected_row := max 0 (selected_row s - 1)\<rparr>)
         else if ch = KEY_RESIZE then
           (True, create_windows K (delete_windows (curses [Endwin, Refresh] s)))
         else (True, s))"

definition handle_input :: "kernel \<Rightarrow> 'a tui_st_scheme \<Rightarrow> bool \<times> 'a tui_st_scheme" where
  "handle_input K s = handle_key K (k_getch K (ticks s)) (tick s)"

section \<open>Drawing\<close>

text \<open>One line of a loop: \<open>wattron(color); mvwprintw(y, x, text); wattroff(color)\<close>.\<close>

record draw =
  dr_y :: int
  dr_x :: int
  dr_color :: nat
  dr_text :: string

definition mk_draw :: "int \<Rightarrow> int \<Rightarrow> nat \<Rightarrow> string \<Rightarrow> draw" where
  "mk_draw y x c t = \<lparr>dr_y = y, dr_x = x, dr_color = c, dr_text = t\<rparr>"

definition draw_calls :: "window \<Rightarrow> draw \<Rightarrow> curses_call list" where
  "draw_calls win d =
     [Wattron win [COLOR_PAIR (dr_color d)], Mvwprintw win (dr_y d) (dr_x d) (dr_text d),
      Wattroff win [COLOR_PAIR (dr_color d)]]"

text \<open>A heading: \<open>wattron(COLOR_PAIR(4) | A_BOLD); mvwprintw; wattroff(A_BOLD)\<close>.\<close>

definition heading :: "window \<Rightarrow> int \<Rightarrow> int \<Rightarrow> string \<Rightarrow> curses_call list" where
  "heading win y x t = [Wattron win [COLOR_PAIR 4, A_BOLD], Mvwprintw win y x t, Wattroff win [A_BOLD]]"

definition finish_window :: "window \<Rightarrow> curses_call list" where
  "finish_window win = [Box win, Wnoutrefresh win]"

text \<open>\<open>%-<n>s\<close> and \<open>%.*s\<close> of \<open>printf\<close>; a negative precision counts as none.\<close>

definition pad :: "nat \<Rightarrow> string \<Rightarrow> string" where
  "pad n t = t @ replicate (n - length t) (CHR '' '')"

definition prec :: "int \<Rightarrow> string \<Rightarrow> string" where
  "prec p t = (if p < 0 then t else take (nat p) t)"

primrec tab_index :: "tui_tab \<Rightarrow> int" where
  "tab_index Tab_Overview = 0"
| "tab_index Tab_Services = 1"
| "tab_index Tab_Journal = 2"

text \<open>The tab bar; the current tab is shown in reverse.\<close>

fun tab_bar :: "window \<Rightarrow> int \<Rightarrow> int \<Rightarrow> int \<Rightarrow> string list \<Rightarrow> curses_call list" where
  "tab_bar win cur i x [] = []"
| "tab_bar win cur i x (t # ts) =
     (if cur = i then [Wattron win [A_REVERSE]] else []) @ [Mvwprintw win 1 x t] @
     (if cur = i then [Wattroff win [A_REVERSE]] else []) @ tab_bar win cur (i + 1) (x + int (length t) + 3) ts"

definition render_header :: "window \<Rightarrow> tui_tab \<Rightarrow> curses_call list" where
  "render_header win tab =
     [Werase win] @ heading win 0 1 ''trivialInit v0.1'' @
     tab_bar win (tab_index tab) 0 2 [''[1] Overview'', ''[2] Services'', ''[3] Journal''] @ finish_window win"

definition log_color :: "journal_entry \<Rightarrow> nat" where
  "log_color e = (if Error \<le> je_level e then 2 else if Warning \<le> je_level e then 3 else 5)"

text \<open>The loop over the log entries from \<open>start\<close> on, while \<open>y < h - 1\<close>.\<close>

fun log_rows :: "int \<Rightarrow> int \<Rightarrow> int \<Rightarrow> journal_entry list \<Rightarrow> draw list" where
  "log_rows h w y [] = []"
| "log_rows h w y (e # es) =
     (if y < h - 1 then
        mk_draw y 2 (log_color e) (''['' @ c_str (je_source e) @ ''] '' @
          prec (min (w - 20) (int (length (je_message e)))) (c_str (je_message e))) # log_rows h w (y + 1) es
      else [])"

definition render_overview :: "int \<Rightarrow> int \<Rightarrow> int \<Rightarrow> 'a tui_st_scheme \<Rightarrow> curses_call list" where
  "render_overview pid h w s =
     (let win = main_win s;
          y = 10; \<comment> \<open>after the lines above it\<close>
          es = entries s;
          start = max 0 (int (length es) - (h - y - 1))
      in [Werase win] @ heading win 1 2 ''System Status'' @
         [Mvwprintw win 3 2 (''Units loaded:   '' @ show_int (int (length (units s))))] @
         draw_calls win (mk_draw 4 2 1 (''Active:         '' @ show_int (active_count s))) @
         [Mvwprintw win 5 2 (''PID:            '' @ show_int pid)] @
         heading win 8 2 ''Recent Log'' @
         concat (map (draw_calls win) (log_rows h w y (drop (nat start) es))) @ finish_window win)"

text \<open>\<open>render_services\<close> first moves the viewport so that it contains the selected row.\<close>

definition scroll_services :: "int \<Rightarrow> 'a tui_st_scheme \<Rightarrow> 'a tui_st_scheme" where
  "scroll_services h s =
     (let visible_rows = h - 3;
          s = (if selected_row s < svc_scroll s then s\<lparr>svc_scroll := selected_row s\<rparr> else s)
      in if selected_row s \<ge> svc_scroll s + visible_rows
         then s\<lparr>svc_scroll := selected_row s - visible_rows + 1\<rparr> else s)"

definition unit_state_text :: "'a process_st_scheme \<Rightarrow> string \<Rightarrow> unit_file \<Rightarrow> string \<times> nat" where
  "unit_state_text s name unit =
     (if um_get (unit_to_pid s) name \<noteq> None then (''running'', 1)
      else if uf_type unit = UT_Target then (''reached'', 1) else (''inactive'', 5))"

definition type_text :: "unit_file \<Rightarrow> string" where
  "type_text unit =
     (case uf_type unit of UT_Service \<Rightarrow> ''service'' | UT_Target \<Rightarrow> ''target'' | UT_Mount \<Rightarrow> ''mount'' | _ \<Rightarrow> ''unknown'')"

fun service_rows :: "int \<Rightarrow> int \<Rightarrow> 'a process_st_scheme \<Rightarrow> int \<Rightarrow> int \<Rightarrow> int \<Rightarrow> int \<Rightarrow> (string \<times> unit_file) list \<Rightarrow>
    (int \<times> draw) list" where
  "service_rows h w s selected scroll row y [] = []"
| "service_rows h w s selected scroll row y ((name, unit) # us) =
     (if row < scroll then service_rows h w s selected scroll (row + 1) y us
      else if y \<ge> h - 1 then []
      else
        (let (state, color) = unit_state_text s name unit
         in (row, mk_draw y 2 (if row = selected then 7 else color)
               (pad 30 (c_str name) @ '' '' @ pad 10 (type_text unit) @ '' '' @ pad 10 state @ '' '' @
                prec (min (w - 56) (int (length (uf_description unit)))) (c_str (uf_description unit)))) #
            service_rows h w s selected scroll (row + 1) (y + 1) us))"

definition render_services :: "int \<Rightarrow> int \<Rightarrow> 'a tui_st_scheme \<Rightarrow> 'a tui_st_scheme" where
  "render_services h w s =
     (let win = main_win s;
          s = scroll_services h s;
          total = int (length (units s))
      in curses
           ([Werase win] @
            heading win 1 2 (pad 30 ''UNIT'' @ '' '' @ pad 10 ''TYPE'' @ '' '' @ pad 10 ''STATE'' @ '' DESCRIPTION'') @
            concat (map (draw_calls win \<circ> snd) (service_rows h w s (selected_row s) (svc_scroll s) 0 2 (units s))) @
            (if total > h - 3
             then [Mvwprintw win (h - 2) (w - 12) ('' '' @ show_int (selected_row s + 1) @ ''/'' @ show_int total @ '' '')]
             else []) @ finish_window win) s)"

definition journal_window :: "int \<Rightarrow> 'a tui_st_scheme \<Rightarrow> int \<times> int" where
  "journal_window h s =
     (let visible = h - 2;
          total = int (length (entries s));
          start = max 0 (total - visible - scroll_offset s)
      in (start, min total (start + visible)))"

definition journal_rows :: "int \<Rightarrow> int \<Rightarrow> 'a tui_st_scheme \<Rightarrow> draw list" where
  "journal_rows h w s =
     (let (start, stop) = journal_window h s
      in map (\<lambda>i. let e = entries s ! nat i
                  in mk_draw (1 + i - start) 1 (log_color e)
                       ('' '' @ lvl_str (je_level e) @ '' '' @ pad 12 (c_str (je_source e)) @ '' '' @
                        prec (min (w - 20) (int (length (je_message e)))) (c_str (je_message e))))
           [start..stop - 1])"

definition render_journal :: "int \<Rightarrow> int \<Rightarrow> 'a tui_st_scheme \<Rightarrow> curses_call list" where
  "render_journal h w s =
     (let win = main_win s
      in [Werase win] @ concat (map (draw_calls win) (journal_rows h w s)) @ finish_window win)"

definition render_status_bar :: "window \<Rightarrow> curses_call list" where
  "render_status_bar win =
     [Werase win] @
     draw_calls win (mk_draw 1 2 4 ''q:Quit  1-3:Tabs  j/k:Scroll  s:Start  x:Stop  r:Restart'') @ finish_window win"

definition render :: "kernel \<Rightarrow> 'a tui_st_scheme \<Rightarrow> 'a tui_st_scheme" where
  "render K s =
     (if \<not> tui_active s then s
      else
        (let (h, w) = k_winsize K (ticks s);
             pid = k_ret K (ticks s) Getpid;
             s = curses (render_header (header_win s) (current_tab s)) (tick s);
             s = (case current_tab s of
                    Tab_Overview \<Rightarrow> curses (render_overview pid (h - 6) w s) s
                  | Tab_Services \<Rightarrow> render_services (h - 6) w s
                  | Tab_Journal \<Rightarrow> curses (render_journal (h - 6) w s) s)
         in curses (render_status_bar (status_win s) @ [Doupdate]) s))"

lemma render_active: "tui_active (render K s) = tui_active s"
  by (auto simp: render_def render_services_def scroll_services_def curses_def Let_def split_def split: tui_tab.split)

section \<open>The build without ncurses\<close>

text \<open>With \<open>TINIT_NO_TUI\<close> the mixin has only the flag, which stays false, and no-ops.\<close>

definition no_tui_execute_TuiStart :: "'a tui_st_scheme \<Rightarrow> int \<times> 'a tui_st_scheme" where
  "no_tui_execute_TuiStart s = (0, s)"

definition no_tui_init_tui :: "'a tui_st_scheme \<Rightarrow> int \<times> 'a tui_st_scheme" where
  "no_tui_init_tui s = (0, s)"

definition no_tui_render :: "'a tui_st_scheme \<Rightarrow> 'a tui_st_scheme" where
  "no_tui_render s = s"

definition no_tui_handle_input :: "'a tui_st_scheme \<Rightarrow> bool \<times> 'a tui_st_scheme" where
  "no_tui_handle_input s = (True, s)"

definition no_tui_shutdown_tui :: "'a tui_st_scheme \<Rightarrow> 'a tui_st_scheme" where
  "no_tui_shutdown_tui s = s"

section \<open>Selection and viewport\<close>

definition tui_ok :: "'a tui_st_scheme \<Rightarrow> bool" where
  "tui_ok s \<longleftrightarrow> 0 \<le> selected_row s \<and> selected_row s \<le> max 0 (int (length (units s)) - 1) \<and>
     0 \<le> scroll_offset s \<and> 0 \<le> svc_scroll s"

text \<open>No sequence of keys moves the selection out of the unit list or scrolls the journal before its
  start, and only \<open>q\<close> asks to quit.\<close>

theorem keys_keep_selection:
  assumes "tui_ok s"
  shows "tui_ok (fold (\<lambda>ch t. snd (handle_key K ch t)) chs s) \<and>
    (fst (handle_key K ch s) \<longleftrightarrow> ch \<notin> {113, 81})"
proof
  have k: "tui_ok (snd (handle_key K c t))" if "tui_ok t" for c and t :: "'a tui_st_scheme"
    using that by (auto simp: tui_ok_def handle_key_def window_defs)
  show "tui_ok (fold (\<lambda>ch t. snd (handle_key K ch t)) chs s)"
    by (rule fold_inv [where P = tui_ok]) (use k assms in auto)
  show "fst (handle_key K ch s) \<longleftrightarrow> ch \<notin> {113, 81}"
    by (auto simp: handle_key_def Let_def)
qed

theorem keys_keep_selection_witness:
  "tui_ok (fold (\<lambda>ch t. snd (handle_key demo_kernel ch t)) [50, 106, 106, 51, 107]
     (init_system_new\<lparr>units := [(''a'', unit_file_init), (''b'', unit_file_init)]\<rparr>))"
proof -
  have "tui_ok (init_system_new\<lparr>units := [(''a'', unit_file_init), (''b'', unit_file_init)]\<rparr>)"
    by (simp add: tui_ok_def init_system_new_def)
  from keys_keep_selection [OF this, of demo_kernel] show ?thesis by blast
qed

lemma scroll_services_spec:
  assumes "tui_ok s" "3 < h"
  shows "tui_ok (scroll_services h s)" "selected_row (scroll_services h s) = selected_row s"
    "svc_scroll (scroll_services h s) \<le> selected_row s" "selected_row s < svc_scroll (scroll_services h s) + (h - 3)"
    "units (scroll_services h s) = units s"
  using assms by (auto simp: tui_ok_def scroll_services_def Let_def)

text \<open>The rows that are drawn: \<open>h - 3\<close> of them at most, from the scroll position on, one below the
  other inside the frame.\<close>

lemma service_rows_spec:
  "map (\<lambda>rd. (fst rd, dr_y (snd rd))) (service_rows h w s sel scroll row y us) =
     map (\<lambda>i. (i, y + (i - max row scroll)))
       [max row scroll .. min (row + int (length us)) (max row scroll + max 0 (h - 1 - y)) - 1]"
proof (induction h w s sel scroll row y us rule: service_rows.induct)
  case (2 h w s sel scroll row y name unit us)
  show ?case
  proof (cases "row < scroll")
    case True
    then have "max (row + 1) scroll = max row scroll" by simp
    with True 2(1) [OF True] show ?thesis by (simp add: algebra_simps)
  next
    case F: False
    show ?thesis
    proof (cases "y \<ge> h - 1")
      case False
      let ?b = "min (row + 1 + int (length us)) (row + 1 + max 0 (h - 1 - (y + 1)))"
      have "row \<le> ?b - 1" using False by (simp add: max_def)
      then have "[row .. ?b - 1] = row # [row + 1 .. ?b - 1]" by (simp add: upto_rec1)
      moreover have "min (row + int (length ((name, unit) # us))) (max row scroll + max 0 (h - 1 - y)) = ?b"
        using F False by (simp add: max_def min_def)
      moreover have "max row scroll = row" "max (row + 1) scroll = row + 1" using F by simp_all
      ultimately show ?thesis
        using 2(2) [OF F False refl prod.collapse] F False by (simp add: mk_draw_def split_def Let_def algebra_simps)
    qed (use F in simp)
  qed
qed simp



text \<open>The journal tab shows existing entries only: the window of indices lies within the journal,
  is at most \<open>h - 2\<close> long, ends with the newest entry when nothing is scrolled back, and every
  row lies inside the frame.\<close>

theorem journal_window_in_range:
  assumes "0 \<le> scroll_offset s" "2 \<le> h"
  shows "let (start, stop) = journal_window h s; n = int (length (entries s))
    in 0 \<le> start \<and> start \<le> stop \<and> stop \<le> n \<and> stop - start \<le> h - 2 \<and> (scroll_offset s = 0 \<longrightarrow> stop = n) \<and>
       length (journal_rows h w s) = nat (stop - start) \<and>
       list_all (\<lambda>d. 1 \<le> dr_y d \<and> dr_y d \<le> h - 2) (journal_rows h w s)"
proof -
  obtain start stop where w: "journal_window h s = (start, stop)" by (cases "journal_window h s")
  then have b: "0 \<le> start" "start \<le> stop" "stop \<le> int (length (entries s))" "stop - start \<le> h - 2"
    "scroll_offset s = 0 \<longrightarrow> stop = int (length (entries s))"
    using assms by (auto simp: journal_window_def Let_def)
  moreover have "length (journal_rows h w s) = nat (stop - start)"
    by (simp add: journal_rows_def w)
  moreover have "list_all (\<lambda>d. 1 \<le> dr_y d \<and> dr_y d \<le> h - 2) (journal_rows h w s)"
    using b by (auto simp: journal_rows_def w list_all_iff mk_draw_def Let_def)
  ultimately show ?thesis by (simp add: w)
qed

theorem journal_window_in_range_witness:
  "snd (journal_window 10 init_system_new) = int (length (entries init_system_new))"
proof -
  have "0 \<le> scroll_offset init_system_new" "scroll_offset init_system_new = 0" by (simp_all add: init_system_new_def)
  with journal_window_in_range [of init_system_new 10] show ?thesis by (simp add: Let_def split_def)
qed

end
