(* ===== verification/Init_System.thy ===== *)
theory Init_System
  imports Unit_Exec Filesystem Unit_Scan Signals Tui
begin

text \<open>
  \<open>InitSystem\<close> (\<open>src/include/trivialInit/init_system.hpp\<close>): the boot phases in order, the main
  loop, and the shutdown sequence. \<open>run\<close> is the program: \<open>main\<close> only prints a line and
  calls it.
\<close>

section \<open>The main loop\<close>

text \<open>One descriptor of \<open>poll_once_with_sockets\<close>.\<close>

definition socket_event :: "kernel \<Rightarrow> fd \<Rightarrow> 'a socket_st_scheme \<Rightarrow> flow \<times> 'a socket_st_scheme" where
  "socket_event K fd s =
     (if fd = signal_fd s then (Returns, snd (drain_signals K s))
      else if um_get (fd_to_socket s) fd \<noteq> None then accept_ready K fd s
      else (Returns, s))"

definition poll_once_with_sockets :: "kernel \<Rightarrow> 'a socket_st_scheme \<Rightarrow> flow \<times> 'a socket_st_scheme" where
  "poll_once_with_sockets K s =
     (let (n, fds, s) = epoll_wait K 16 s
      in if n < 0 \<and> n \<noteq> - EINTR then (Returns, s) else flow_loop (socket_event K) fds s)"

definition sysusers :: string where
  "sysusers = ''systemd-sysusers.service''"

definition maybe_fix_runtime_dirs :: "kernel \<Rightarrow> 'a unit_exec_st_scheme \<Rightarrow> 'a unit_exec_st_scheme" where
  "maybe_fix_runtime_dirs K s =
     (if runtime_dirs_chowned s then s
      else if sysusers \<notin> set (exec_order s) then s
      else if um_get (unit_to_pid s) sysusers \<noteq> None then s
      else fix_runtime_dir_ownership K
             (log K Info ''fs'' ''Applying deferred runtime directory ownership'' s))"

text \<open>\<open>render(); if (!handle_input()) { if (getpid() != 1) break; }\<close>: \<open>True\<close> is \<open>break\<close>.\<close>

definition tui_turn :: "kernel \<Rightarrow> 'a tui_st_scheme \<Rightarrow> bool \<times> 'a tui_st_scheme" where
  "tui_turn K s =
     (if tui_active s then
        (let s = render K s;
             (go_on, s) = handle_input K s
         in if \<not> go_on then (k_ret K (ticks s) Getpid \<noteq> 1, tick s) else (False, s))
      else (False, s))"

datatype loop_end = Next | Break | Ended flow

text \<open>One iteration of the main loop.\<close>

definition loop_body :: "kernel \<Rightarrow> 'a tui_st_scheme \<Rightarrow> loop_end \<times> 'a tui_st_scheme" where
  "loop_body K s =
     (case poll_once_with_sockets K s of
        (Returns, s) \<Rightarrow>
          (case process_restarts K s of
             (Returns, s) \<Rightarrow>
               (let s = maybe_fix_runtime_dirs K s;
                    (quit, s) = tui_turn K s
                in (if quit then Break else Next, s))
           | (fl, s) \<Rightarrow> (Ended fl, s))
      | (fl, s) \<Rightarrow> (Ended fl, s))"

text \<open>
  \<open>while (!shutdown_requested_)\<close>: the loop of a running system has no bound, so it takes fuel;
  \<open>None\<close> says that it is still running after that many iterations.
\<close>

fun main_loop :: "nat \<Rightarrow> kernel \<Rightarrow> 'a tui_st_scheme \<Rightarrow> (flow \<times> 'a tui_st_scheme) option" where
  "main_loop n K s =
     (if shutdown_requested s then Some (Returns, s)
      else case n of
             0 \<Rightarrow> None
           | Suc m \<Rightarrow>
               (case loop_body K s of
                  (Next, s) \<Rightarrow> main_loop m K s
                | (Break, s) \<Rightarrow> Some (Returns, s)
                | (Ended fl, s) \<Rightarrow> Some (fl, s)))"

section \<open>Shutdown\<close>

text \<open>\<open>for (i = 0; i < 50 && active_count() > 0; ++i) poll_once(100)\<close>\<close>

fun grace_polls :: "nat \<Rightarrow> kernel \<Rightarrow> 'a socket_st_scheme \<Rightarrow> 'a socket_st_scheme" where
  "grace_polls 0 K s = s"
| "grace_polls (Suc n) K s = (if active_count s > 0 then grace_polls n K (snd (poll_once K s)) else s)"

definition stop_all :: "kernel \<Rightarrow> string list \<Rightarrow> 'a process_st_scheme \<Rightarrow> 'a process_st_scheme" where
  "stop_all K names s = fold (\<lambda>n t. snd (stop_unit K n t)) names s"

definition kill_all :: "kernel \<Rightarrow> 'a process_st_scheme \<Rightarrow> 'a process_st_scheme" where
  "kill_all K s = fold (\<lambda>(pid, _). sys_do K (Kill pid SIGKILL)) (processes s) s"

definition shutdown :: "kernel \<Rightarrow> 'a tui_st_scheme \<Rightarrow> 'a tui_st_scheme" where
  "shutdown K s =
     (let s = log K Info ''init'' ''Shutting down'' s;
          s = shutdown_tui s;
          s = stop_all K (rev (exec_order s)) s;
          s = grace_polls 50 K s;
          s = kill_all K s;
          s = snd (poll_once K s);
          s = close_all_sockets K s;
          s = snd (execute_Shutdown K s)
      in log K Info ''init'' ''Goodbye.'' s)"

section \<open>Boot\<close>

text \<open>
  \<open>if ((rc = phase)) return rc;\<close>. \<open>it\<close> is the walk over the in-degree table in
  \<open>DependencyResolve\<close>, a function of the units.
\<close>

definition or_return :: "int \<times> 's \<Rightarrow> ('s \<Rightarrow> (flow \<times> int) \<times> 's) \<Rightarrow> (flow \<times> int) \<times> 's" where
  "or_return rs k = (let (rc, s) = rs in if rc \<noteq> 0 then ((Returns, rc), s) else k s)"

definition boot :: "kernel \<Rightarrow> (string \<Rightarrow> nat \<Rightarrow> bool) \<Rightarrow> ((string, unit_file) umap \<Rightarrow> string list) \<Rightarrow>
    'a tui_st_scheme \<Rightarrow> (flow \<times> int) \<times> 'a tui_st_scheme" where
  "boot K junk it s =
     (let s = log K Info ''init'' ''trivialInit starting'' s
      in or_return (execute_EarlyMount K s) (\<lambda>s.
         or_return (execute_SignalSetup K s) (\<lambda>s.
         or_return (execute_UnitDiscovery K s) (\<lambda>s.
         or_return (execute_UnitParse K junk s) (\<lambda>s.
         or_return (execute_SocketBind K s) (\<lambda>s.
         or_return (execute_DependencyResolve K (it (units s)) s) (\<lambda>s.
           let (fl, s) = execute_UnitExecute K s in ((fl, 0), s))))))))"

text \<open>\<open>run()\<close>; \<open>None\<close> while the main loop is still running.\<close>

definition run :: "nat \<Rightarrow> kernel \<Rightarrow> (string \<Rightarrow> nat \<Rightarrow> bool) \<Rightarrow> ((string, unit_file) umap \<Rightarrow> string list) \<Rightarrow>
    init_system \<Rightarrow> ((flow \<times> int) \<times> init_system) option" where
  "run n K junk it s =
     (case boot K junk it s of
        ((Returns, rc), s) \<Rightarrow>
          if rc \<noteq> 0 then Some ((Returns, rc), s)
          else
            (let s = register_accept_sockets K (epoll_fd s) s;
                 s = snd (execute_TuiStart K s);
                 s = log K Info ''init'' ''Entering main loop'' s
             in case main_loop n K s of
                  None \<Rightarrow> None
                | Some (Returns, s) \<Rightarrow> Some ((Returns, 0), shutdown K s)
                | Some (fl, s) \<Rightarrow> Some ((fl, 0), s))
      | ((fl, rc), s) \<Rightarrow> Some ((fl, rc), s))"

text \<open>\<open>run_monitor()\<close> of the build with ncurses: scan, parse, resolve, then draw until \<open>q\<close>.\<close>

fun monitor_loop :: "nat \<Rightarrow> kernel \<Rightarrow> 'a tui_st_scheme \<Rightarrow> 'a tui_st_scheme option" where
  "monitor_loop 0 K s = None"
| "monitor_loop (Suc n) K s =
     (let (go_on, s) = handle_input K (render K s) in if \<not> go_on then Some s else monitor_loop n K s)"

definition run_monitor :: "nat \<Rightarrow> kernel \<Rightarrow> (string \<Rightarrow> nat \<Rightarrow> bool) \<Rightarrow> ((string, unit_file) umap \<Rightarrow> string list) \<Rightarrow>
    init_system \<Rightarrow> (int \<times> init_system) option" where
  "run_monitor n K junk it s =
     (let s = log K Info ''monitor'' ''trivialInit monitor starting'' s;
          s = snd (execute_UnitDiscovery K s);
          s = snd (execute_UnitParse K junk s);
          s = snd (execute_DependencyResolve K (it (units s)) s);
          s = snd (init_tui K s)
      in case monitor_loop n K s of
           None \<Rightarrow> None
         | Some s \<Rightarrow> Some (0, shutdown_tui s))"

text \<open>The format of a line of the plain monitor: the dash is the UTF-8 encoding of U+2014.\<close>

definition monitor_line :: string where
  "monitor_line = ''  {} '' @ [CHR 0xE2, CHR 0x80, CHR 0x94] @ '' {}''"

text \<open>\<open>run_monitor()\<close> of the build without ncurses prints the execution order instead.\<close>

definition run_monitor_no_tui :: "kernel \<Rightarrow> (string \<Rightarrow> nat \<Rightarrow> bool) \<Rightarrow> ((string, unit_file) umap \<Rightarrow> string list) \<Rightarrow>
    init_system \<Rightarrow> int \<times> init_system" where
  "run_monitor_no_tui K junk it s =
     (let s = log K Info ''monitor'' ''trivialInit monitor starting'' s;
          s = snd (execute_UnitDiscovery K s);
          s = snd (execute_UnitParse K junk s);
          s = snd (execute_DependencyResolve K (it (units s)) s)
      in (0, fold (\<lambda>name s. case find_unit name s of
                     None \<Rightarrow> s
                   | Some u \<Rightarrow> log_fmt K Info ''monitor'' monitor_line [name, uf_description u] s)
               (exec_order s) s))"

text \<open>
  The destructor of \<open>InitSystem\<close>: the bases that have one, in reverse order of declaration
  (\<open>~TuiMixin\<close>, then \<open>~SignalMixin\<close>).
\<close>

definition destroy_InitSystem :: "kernel \<Rightarrow> 'a tui_st_scheme \<Rightarrow> 'a tui_st_scheme" where
  "destroy_InitSystem K s =
     (let s = shutdown_tui s;
          s = (if signal_fd s \<ge> 0 then sys_do K (Close (signal_fd s)) s else s)
      in if epoll_fd s \<ge> 0 then sys_do K (Close (epoll_fd s)) s else s)"

definition print_stderr :: "string \<Rightarrow> 'a journal_st_scheme \<Rightarrow> 'a journal_st_scheme" where
  "print_stderr l s = s\<lparr>console := console s @ [l @ [CHR 0x0A]]\<rparr>"

text \<open>
  \<open>main.cpp\<close>. An exception that leaves \<open>run\<close> terminates the process, and a forked child has
  left it: neither runs the destructor.
\<close>

definition main_init :: "nat \<Rightarrow> kernel \<Rightarrow> (string \<Rightarrow> nat \<Rightarrow> bool) \<Rightarrow> ((string, unit_file) umap \<Rightarrow> string list) \<Rightarrow>
    ((flow \<times> int) \<times> init_system) option" where
  "main_init n K junk it =
     (let s = tick init_system_new;
          s = (if k_ret K 0 Getpid = 1 then print_stderr ''trivialInit: running as PID 1'' s
               else print_stderr (''trivialInit: running as PID '' @ show_int (k_ret K 1 Getpid) @ '' (test mode)'') (tick s))
      in case run n K junk it s of
           None \<Rightarrow> None
         | Some ((Returns, rc), s) \<Rightarrow> Some ((Returns, rc), destroy_InitSystem K s)
         | Some ((fl, rc), s) \<Rightarrow> Some ((fl, rc), s))"

text \<open>\<open>trivialctl.cpp\<close>\<close>

definition main_trivialctl :: "nat \<Rightarrow> kernel \<Rightarrow> (string \<Rightarrow> nat \<Rightarrow> bool) \<Rightarrow> ((string, unit_file) umap \<Rightarrow> string list) \<Rightarrow>
    (int \<times> init_system) option" where
  "main_trivialctl n K junk it =
     (case run_monitor n K junk it (print_stderr ''trivialctl: unit file monitor'' init_system_new) of
        None \<Rightarrow> None
      | Some (rc, s) \<Rightarrow> Some (rc, destroy_InitSystem K s))"

declare main_loop.simps [simp del]

section \<open>Shutdown in order\<close>

lemma stop_unit_frame [simp]:
  "unit_to_pid (snd (stop_unit K u s)) = unit_to_pid s"
  "mounted (snd (stop_unit K u s)) = mounted s"
  by (auto simp: stop_unit_def Let_def split: option.split)

lemma stop_unit_sockets [simp]:
  "socket_units (snd (stop_unit K u s)) = socket_units s"
  by (auto simp: stop_unit_def Let_def split: option.split)

text \<open>The processes of the named units, in that order.\<close>

definition unit_pids :: "'a process_st_scheme \<Rightarrow> string list \<Rightarrow> pid list" where
  "unit_pids s names = List.map_filter (um_get (unit_to_pid s)) names"

lemma stop_unit_trace:
  "trace (snd (stop_unit K u s)) = trace s @ map (\<lambda>p. Kill p SIGTERM) (unit_pids s [u])"
  by (auto simp: stop_unit_def Let_def unit_pids_def List.map_filter_def split: option.split)

lemma stop_unit_keys: "set (um_keys (processes (snd (stop_unit K u s)))) = set (um_keys (processes s))"
proof -
  have "insert p (set (um_keys m)) = set (um_keys m)" if "um_get m p = Some tp" for p tp and m :: "(pid, tracked_process) umap"
    using that by (auto simp: um.keys_get)
  then show ?thesis by (auto simp: stop_unit_def Let_def split: option.split)
qed

lemma stop_all_spec:
  "trace (stop_all K names s) = trace s @ map (\<lambda>p. Kill p SIGTERM) (unit_pids s names)"
  "set (um_keys (processes (stop_all K names s))) = set (um_keys (processes s))"
  "mounted (stop_all K names s) = mounted s"
proof (induction names arbitrary: s)
  case (Cons n names)
  have u: "unit_pids (snd (stop_unit K n s)) names = unit_pids s names" for s :: "'a process_st_scheme"
    by (simp add: unit_pids_def)
  have c: "unit_pids s (n # names) = unit_pids s [n] @ unit_pids s names" for s :: "'a process_st_scheme"
    by (simp add: unit_pids_def List.map_filter_simps split: option.split)
  { case 1 show ?case
      using Cons.IH(1) [of "snd (stop_unit K n s)"] stop_unit_trace [of K n s] c [of s]
      by (simp add: stop_all_def u) }
  { case 2 show ?case
      using Cons.IH(2) [of "snd (stop_unit K n s)"] stop_unit_keys [of K n s] by (simp add: stop_all_def) }
  { case 3 show ?case
      using Cons.IH(3) [of "snd (stop_unit K n s)"] by (simp add: stop_all_def) }
qed (simp_all add: stop_all_def unit_pids_def List.map_filter_simps)

lemma reap_one_keys: "set (um_keys (processes (reap_one K ps s))) \<subseteq> set (um_keys (processes s))"
proof (cases ps)
  case (Pair p st)
  then show ?thesis
    by (cases "um_get (processes s) p") (auto simp: reap_one_untracked reap_one_tracked)
qed

lemma reap_children_keys: "set (um_keys (processes (reap_children K s))) \<subseteq> set (um_keys (processes s))"
proof -
  have "set (um_keys (processes (fold (reap_one K) xs t))) \<subseteq> set (um_keys (processes t))" for xs and t :: "'a socket_st_scheme"
    by (rule fold_inv [where P = "\<lambda>u. set (um_keys (processes u)) \<subseteq> set (um_keys (processes t))"])
       (use reap_one_keys in blast)+
  from this [of "k_reap K (ticks s)" "tick s"] show ?thesis by (simp add: reap_children_def)
qed

lemma poll_once_keys: "set (um_keys (processes (snd (poll_once K s)))) \<subseteq> set (um_keys (processes s))"
proof -
  have d: "set (um_keys (processes (snd (drain_signals K t)))) \<subseteq> set (um_keys (processes t))" for t :: "'a socket_st_scheme"
    unfolding drain_signals_def
    by (rule fold_inv [where P = "\<lambda>cs. set (um_keys (processes (snd cs))) \<subseteq> set (um_keys (processes t))"])
       (auto simp: handle_signal_def Let_def split_def dest: subsetD [OF reap_children_keys])
  have "set (um_keys (processes (fold (poll_event K) fds t))) \<subseteq> set (um_keys (processes t))" for fds and t :: "'a socket_st_scheme"
    by (rule fold_inv [where P = "\<lambda>u. set (um_keys (processes u)) \<subseteq> set (um_keys (processes t))"])
       (use d in \<open>auto simp: poll_event_def\<close>)
  from this [of _ "tick s"] show ?thesis by (simp add: poll_once_def epoll_wait_def split_def Let_def)
qed

lemma grace_polls_spec:
  "trace (grace_polls n K s) = trace s" "mounted (grace_polls n K s) = mounted s"
  "set (um_keys (processes (grace_polls n K s))) \<subseteq> set (um_keys (processes s))"
proof (induction n arbitrary: s)
  case (Suc n)
  { case 1 show ?case using Suc.IH(1) by (simp add: poll_once_keeps) }
  { case 2 show ?case using Suc.IH(2) by (simp add: poll_once_keeps) }
  { case 3 show ?case using Suc.IH(3) [of "snd (poll_once K s)"] poll_once_keys [of K s] by auto }
qed simp_all

lemma kill_all_spec:
  "trace (kill_all K s) = trace s @ map (\<lambda>p. Kill p SIGKILL) (um_keys (processes s))"
  "processes (kill_all K s) = processes s" "mounted (kill_all K s) = mounted s"
proof -
  have "trace (fold (\<lambda>(pid, _). sys_do K (Kill pid SIGKILL)) ps t) = trace t @ map (\<lambda>p. Kill p SIGKILL) (um_keys ps)"
    for ps :: "(pid, tracked_process) umap" and t :: "'a process_st_scheme"
    by (induction ps arbitrary: t) (auto simp: um_keys_def)
  then show "trace (kill_all K s) = trace s @ map (\<lambda>p. Kill p SIGKILL) (um_keys (processes s))"
    by (simp add: kill_all_def)
  show "processes (kill_all K s) = processes s" "mounted (kill_all K s) = mounted s"
    by (simp_all add: kill_all_def fold_keeps split_def)
qed

lemma close_all_frame [simp]:
  "mounted (close_all_sockets K s) = mounted s" "processes (close_all_sockets K s) = processes s"
proof -
  have "mounted (snd (close_entries K les t)) = mounted t \<and> processes (snd (close_entries K les t)) = processes t"
    for les and t :: "'a socket_st_scheme"
    by (induction les arbitrary: t) (auto simp: close_entry_def Let_def split_def)
  then have "mounted (snd (close_units K m t)) = mounted t \<and> processes (snd (close_units K m t)) = processes t"
    for m and t :: "'a socket_st_scheme"
    by (induction m arbitrary: t) (auto simp: Let_def split_def)
  then show "mounted (close_all_sockets K s) = mounted s" "processes (close_all_sockets K s) = processes s"
    by (simp_all add: close_all_sockets_def split_def Let_def)
qed

lemma close_all_trace:
  "trace (close_all_sockets K s) =
     trace s @ concat (map close_requests (concat (map (su_listen \<circ> snd) (socket_units s))))"
  by (simp add: close_all_sockets_def split_def close_units_spec Let_def)

lemma execute_Shutdown_spec:
  "trace (snd (execute_Shutdown K s)) = trace s @ map Umount2_detach (rev (mounted s))"
  by (simp add: execute_Shutdown_def Let_def unmount_trace)

lemma execute_Shutdown_processes [simp]: "processes (snd (execute_Shutdown K s)) = processes s"
  by (simp add: execute_Shutdown_def Let_def fold_keeps unmount_one_def split_def)

lemma shutdown_tui_frame [simp]:
  "trace (shutdown_tui s) = trace s" "processes (shutdown_tui s) = processes s" "mounted (shutdown_tui s) = mounted s"
  "exec_order (shutdown_tui s) = exec_order s" "unit_to_pid (shutdown_tui s) = unit_to_pid s"
  by (simp_all add: shutdown_tui_def window_defs)

text \<open>The listening entries of all socket units. Reaping only changes connection counters.\<close>

definition listeners :: "'a socket_st_scheme \<Rightarrow> listen_entry list" where
  "listeners s = concat (map (su_listen \<circ> snd) (socket_units s))"

lemma um_put_map: "um_get m k = Some v \<Longrightarrow> g v' = g v \<Longrightarrow> map (g \<circ> snd) (um_put k v' m) = map (g \<circ> snd) m"
  by (induction m) (auto simp: um_get_def um_put_def split: if_splits)

lemma reap_one_listeners: "listeners (reap_one K ps s) = listeners s"
proof -
  have "listeners (reap_callback p s) = listeners s" for p
    by (auto simp: listeners_def reap_callback_def run_exit_callback_def Let_def um_put_map [where g = su_listen]
          split: option.split exit_callback.split)
  then show ?thesis by (cases ps) (simp add: listeners_def reap_one_sockets)
qed

lemma poll_once_listeners: "listeners (snd (poll_once K s)) = listeners s"
proof -
  have 1: "listeners (snd (handle_signal K sig cs)) = listeners (snd cs)" for sig and cs :: "int \<times> 'a socket_st_scheme"
  proof -
    have "listeners (reap_children K t) = listeners t" for t :: "'a socket_st_scheme"
      unfolding reap_children_def by (simp add: fold_keeps [where g = listeners] reap_one_listeners) (simp add: listeners_def)
    then show ?thesis by (simp add: handle_signal_def Let_def split_def) (simp add: listeners_def)
  qed
  have 2: "listeners (snd (drain_signals K t)) = listeners t" for t :: "'a socket_st_scheme"
    using fold_keeps [where g = "\<lambda>cs. listeners (snd cs)" and f = "handle_signal K", OF 1]
    by (simp add: drain_signals_def) (simp add: listeners_def)
  show ?thesis
    by (simp add: poll_once_def epoll_wait_def split_def Let_def poll_event_def 2 fold_keeps [where g = listeners])
       (simp add: listeners_def)
qed

lemma grace_polls_listeners: "listeners (grace_polls n K s) = listeners s"
  by (induction n arbitrary: s) (simp_all add: poll_once_listeners)

lemma stop_all_listeners: "listeners (stop_all K names s) = listeners s"
  unfolding stop_all_def by (rule fold_keeps) (simp add: listeners_def)

lemma kill_all_listeners: "listeners (kill_all K s) = listeners s"
  unfolding kill_all_def by (rule fold_keeps) (auto simp: listeners_def split_def)

text \<open>The shutdown sequence. The requests are, in this order and nothing else: \<open>SIGTERM\<close> to the
  process of every unit in reverse start order, \<open>SIGKILL\<close> to every process still tracked
  after the grace period, the closing of every listening socket, and the unmounting in
  reverse mount order. In particular nothing is started any more, and whatever is still
  tracked at the end has been sent \<open>SIGKILL\<close>.\<close>

lemma shutdown_sequence:
  "\<exists>killed.
     trace (shutdown K s) = trace s @ map (\<lambda>p. Kill p SIGTERM) (unit_pids s (rev (exec_order s))) @
       map (\<lambda>p. Kill p SIGKILL) killed @ concat (map close_requests (listeners s)) @
       map Umount2_detach (rev (mounted s)) \<and>
     set killed \<subseteq> set (um_keys (processes s)) \<and> set (um_keys (processes (shutdown K s))) \<subseteq> set killed"
proof -
  let ?s0 = "shutdown_tui (log K Info ''init'' ''Shutting down'' s)"
  let ?s1 = "stop_all K (rev (exec_order s)) ?s0"
  let ?s2 = "grace_polls 50 K ?s1"
  let ?s3 = "snd (poll_once K (kill_all K ?s2))"
  let ?s4 = "close_all_sockets K ?s3"
  have sh: "shutdown K s = log K Info ''init'' ''Goodbye.'' (snd (execute_Shutdown K ?s4))"
    by (simp add: shutdown_def Let_def)
  have p: "unit_pids ?s0 ns = unit_pids s ns" for ns by (simp add: unit_pids_def)
  have m: "mounted ?s4 = mounted s"
    by (simp add: poll_once_keeps kill_all_spec grace_polls_spec stop_all_spec)
  have "listeners ?s3 = listeners ?s0"
    by (simp add: poll_once_listeners kill_all_listeners grace_polls_listeners stop_all_listeners)
  then have l: "listeners ?s3 = listeners s" by (simp add: listeners_def shutdown_tui_def window_defs)
  have "trace ?s4 = trace ?s3 @ concat (map close_requests (listeners s))"
    using l by (simp add: close_all_trace listeners_def)
  then have "trace (shutdown K s) = trace s @ map (\<lambda>p. Kill p SIGTERM) (unit_pids s (rev (exec_order s))) @
       map (\<lambda>p. Kill p SIGKILL) (um_keys (processes ?s2)) @ concat (map close_requests (listeners s)) @
       map Umount2_detach (rev (mounted s))"
    using m by (simp add: sh execute_Shutdown_spec poll_once_keeps kill_all_spec grace_polls_spec stop_all_spec p)
  moreover have "set (um_keys (processes ?s2)) \<subseteq> set (um_keys (processes s))"
    using grace_polls_spec(3) [of 50 K ?s1] stop_all_spec(2) [of K "rev (exec_order s)" ?s0] by simp
  moreover have "set (um_keys (processes (shutdown K s))) \<subseteq> set (um_keys (processes ?s2))"
    using poll_once_keys [of K "kill_all K ?s2"] by (simp add: sh kill_all_spec)
  ultimately show ?thesis by blast
qed

section \<open>Boot failures\<close>

text \<open>The request that mounts \<open>/proc\<close>, and the state in which the early mounts begin.\<close>

definition mount_proc :: syscall where
  "mount_proc = Mount ''proc'' ''/proc'' (Some ''proc'') (MS_NOSUID OR MS_NODEV OR MS_NOEXEC) None"

definition at_early_mounts :: "kernel \<Rightarrow> 'a journal_st_scheme \<Rightarrow> 'a journal_st_scheme" where
  "at_early_mounts K s =
     log K Info ''fs'' ''Mounting early virtual filesystems'' (log K Info ''init'' ''trivialInit starting'' s)"

lemma mount_early_refused:
  fixes s :: "'a filesystem_st_scheme"
  assumes "k_ret K (Suc (ticks s)) mount_proc \<notin> {0, - EBUSY}"
  shows "\<exists>t. mount_early K kEarlyMounts s = (1, t) \<and> trace t = trace s @ [Mkdir ''/proc'' 493, mount_proc] \<and> mounted t = mounted s"
proof -
  obtain mps where e: "kEarlyMounts = mk_mount ''proc'' ''/proc'' ''proc'' (MS_NOSUID OR MS_NODEV OR MS_NOEXEC) None # mps"
    by (simp add: kEarlyMounts_def)
  show ?thesis
    unfolding e using assms by (simp add: mk_mount_def mount_proc_def split_def Let_def)
qed

text \<open>C25: without \<open>/proc\<close> there is no boot. When mounting it fails other than by \<open>EBUSY\<close>, \<open>run\<close> returns 1
  at once, whatever the fuel, having asked the kernel for nothing but that directory and that
  mount, and with nothing recorded as mounted.\<close>

theorem no_proc_no_boot:
  assumes "k_ret K (Suc (ticks (at_early_mounts K s))) mount_proc \<notin> {0, - EBUSY}"
  shows "\<exists>t. run n K junk it s = Some ((Returns, 1), t) \<and>
    trace t = trace s @ [Mkdir ''/proc'' 493, mount_proc] \<and> mounted t = mounted s"
proof -
  have "trace (at_early_mounts K s) = trace s" "mounted (at_early_mounts K s) = mounted s"
    by (simp_all add: at_early_mounts_def)
  with mount_early_refused [OF assms] show ?thesis
    by (auto simp: run_def boot_def or_return_def execute_EarlyMount_def at_early_mounts_def)
qed

text \<open>A kernel on which every request fails with \<open>EPERM\<close>.\<close>

definition refusing :: kernel where
  "refusing = demo_kernel\<lparr>k_ret := \<lambda>_ _. -1\<rparr>"

theorem no_proc_no_boot_witness:
  "\<exists>t. run 7 refusing (\<lambda>_ _. False) um_keys init_system_new = Some ((Returns, 1), t) \<and>
     trace t = [Mkdir ''/proc'' 493, mount_proc] \<and> mounted t = []"
  using no_proc_no_boot [of refusing init_system_new 7 "\<lambda>_ _. False" um_keys]
  by (simp add: refusing_def EBUSY_def init_system_new_def)

end
