(* ===== verification/Contracts.thy ===== *)
theory Contracts
  imports Init_System
begin

text \<open>
  Contracts over the whole program. A contract is a relation between the state before and the
  state after an operation (locale \<open>op_contract\<close> of the Prelude). The locales below say which
  elementary operations a contract has to hold for, and prove inside that it then holds for
  everything the program composes from them: the boot phases, one turn of the main loop, the
  loop, the shutdown, and a complete run of \<open>main\<close>. A property of the whole program is then an
  interpretation: only the elementary operations have to be looked at.
\<close>

section \<open>Requests and messages\<close>

locale base_contract = op_contract R for R :: "'a tui_st_scheme \<Rightarrow> 'a tui_st_scheme \<Rightarrow> bool" +
  fixes K :: kernel
  assumes keeps_log: "R s (log K l src m s)"
    and keeps_sys: "R s (snd (sys K c s))"
    and keeps_tick: "R s (tick s)"
begin

lemma keeps_log_fmt: "R s (log_fmt K l src f as s)"
  unfolding log_fmt_def by (rule keeps_log)

lemma keeps_sys_do: "R s (sys_do K c s)"
  unfolding sys_do_def by (rule keeps_sys)

lemmas steps = keeps_trans [OF _ keeps_log] keeps_trans [OF _ keeps_log_fmt]
  keeps_trans [OF _ keeps_sys] keeps_trans [OF _ keeps_sys_do] keeps_trans [OF _ keeps_tick]

lemma keeps_fold_sys: "R s (fold (sys_do K) cs s)"
  by (rule keeps_fold) (rule keeps_sys_do)

lemma keeps_run_child: "R s (run_child K r s)"
  unfolding run_child_def by (rule keeps_fold_sys)

lemma keeps_flags: "R s (set_cloexec K fd b s)" "R s (set_nonblock K fd b s)"
  unfolding set_cloexec_def set_nonblock_def Let_def split_def by (auto intro!: steps keeps_refl)

lemmas flag_steps = keeps_trans [OF _ keeps_flags(1)] keeps_trans [OF _ keeps_flags(2)]

lemma keeps_cloexec: "R s (set_cloexec_all K b fds s)"
  unfolding set_cloexec_all_def by (rule keeps_fold) (rule keeps_flags)

lemma keeps_flow_loop: "(\<And>x t. x \<in> set xs \<Longrightarrow> R t (snd (f x t))) \<Longrightarrow> R s (snd (flow_loop f xs s))"
proof (induction xs arbitrary: s)
  case (Cons x xs)
  obtain fl t where f: "f x s = (fl, t)" by (cases "f x s")
  have "R s t" using Cons.prems [of x s] f by simp
  moreover have "R t (snd (flow_loop f xs t))" by (rule Cons.IH) (simp add: Cons.prems)
  ultimately show ?case using f by (auto split: flow.split intro: keeps_trans)
qed (simp add: keeps_refl)

lemma keeps_run_start_pre: "R s (snd (run_start_pre K name unit cmds s))"
proof (induction cmds arbitrary: s)
  case (Cons c cmds)
  have "R s (snd (run_start_pre K name unit cmds (sys_do K d (snd (sys K e s)))))"
    "R s (snd (run_start_pre K name unit cmds (snd (sys K e s))))" for d e
    by (rule keeps_trans [OF _ Cons.IH], intro steps keeps_refl)+
  moreover have "R s (run_child K r (snd (sys K e s)))" for r e
    by (rule keeps_trans [OF keeps_sys keeps_run_child])
  ultimately show ?case
    using Cons.IH [of s] by (auto simp: Let_def split_def intro!: steps keeps_refl split: option.split)
qed (simp add: keeps_refl)

lemma keeps_start_mount: "R s (start_mount K name unit s)"
  unfolding start_mount_def Let_def split_def by (auto intro!: steps keeps_refl)

lemma keeps_kill_all: "R s (kill_all K s)"
  unfolding kill_all_def by (rule keeps_fold) (auto simp: split_def keeps_sys_do)

lemma keeps_close_units: "R s (snd (close_units K m s))"
proof -
  have e: "R t (snd (close_entry K le t))" for le t
    by (auto simp: close_entry_def Let_def intro!: steps keeps_refl)
  have es: "R t (snd (close_entries K les t))" for les t
    by (induction les arbitrary: t) (auto simp: Let_def split_def keeps_refl intro: keeps_trans [OF e])
  show ?thesis
  proof (induction m arbitrary: s)
    case (Cons nu m)
    have "R s (snd (close_units K m (snd (close_entries K (su_listen (snd nu)) s))))"
      by (rule keeps_trans [OF es Cons.IH])
    then show ?case by (cases nu) (simp add: Let_def split_def)
  qed (simp add: keeps_refl)
qed

lemma keeps_close_sockets:
  "(\<And>t m. R t (t\<lparr>socket_units := m\<rparr>)) \<Longrightarrow> R s (close_all_sockets K s)"
  unfolding close_all_sockets_def split_def Let_def
  by (rule keeps_trans [OF keeps_close_units])

lemma keeps_execute_Shutdown: "R s (snd (execute_Shutdown K s))"
proof -
  have "R t (unmount_one K m t)" for m t
    unfolding unmount_one_def Let_def split_def by (auto intro!: steps keeps_refl)
  then show ?thesis
    unfolding execute_Shutdown_def Let_def snd_conv by (intro keeps_trans [OF keeps_log keeps_fold])
qed

end

text \<open>A contract that does not speak about the terminal interface.\<close>

locale screen_contract = base_contract +
  assumes keeps_header: "R s (s\<lparr>header_win := w\<rparr>)" and keeps_main: "R s (s\<lparr>main_win := w\<rparr>)"
    and keeps_status: "R s (s\<lparr>status_win := w\<rparr>)" and keeps_calls: "R s (s\<lparr>tui_calls := cs\<rparr>)"
    and keeps_active: "R s (s\<lparr>tui_active := b\<rparr>)" and keeps_tab: "R s (s\<lparr>current_tab := t\<rparr>)"
    and keeps_scroll: "R s (s\<lparr>scroll_offset := i\<rparr>)" and keeps_row: "R s (s\<lparr>selected_row := i\<rparr>)"
    and keeps_svc: "R s (s\<lparr>svc_scroll := i\<rparr>)"
begin

lemmas screen_steps = keeps_trans [OF _ keeps_header] keeps_trans [OF _ keeps_main] keeps_trans [OF _ keeps_status]
  keeps_trans [OF _ keeps_calls] keeps_trans [OF _ keeps_active] keeps_trans [OF _ keeps_tab]
  keeps_trans [OF _ keeps_scroll] keeps_trans [OF _ keeps_row] keeps_trans [OF _ keeps_svc]

lemma keeps_curses: "R s (curses cs s)"
  unfolding curses_def by (rule keeps_calls)

lemma keeps_create_windows: "R s (create_windows K s)"
  unfolding create_windows_def newwin_def Let_def split_def fst_conv snd_conv
  by (intro screen_steps steps keeps_trans [OF _ keeps_curses] keeps_refl)

lemma keeps_any_render: "R s (render K s)"
proof -
  have r: "R t (render_services h w t)" for h w t
    unfolding render_services_def scroll_services_def Let_def
    by (auto intro!: screen_steps keeps_trans [OF _ keeps_curses] keeps_refl)
  show ?thesis
    unfolding render_def Let_def split_def
    by (auto split: tui_tab.split intro!: keeps_trans [OF _ keeps_curses] keeps_trans [OF _ r] steps keeps_refl)
qed

lemma keeps_any_input: "R s (snd (handle_input K s))"
proof -
  have "R t (snd (handle_key K ch t))" for ch t
    unfolding handle_key_def Let_def delete_windows_def
    by (auto intro!: screen_steps keeps_trans [OF _ keeps_create_windows] keeps_trans [OF _ keeps_curses] keeps_refl)
  then show ?thesis unfolding handle_input_def by (rule keeps_trans [OF keeps_tick])
qed

lemma keeps_any_shutdown_tui: "R s (shutdown_tui s)"
  unfolding shutdown_tui_def delete_windows_def
  by (auto intro!: screen_steps keeps_trans [OF _ keeps_curses] keeps_refl)

lemma keeps_any_TuiStart: "R s (snd (execute_TuiStart K s))"
  unfolding execute_TuiStart_def init_tui_def Let_def
  by (auto intro!: screen_steps keeps_trans [OF _ keeps_create_windows] keeps_trans [OF _ keeps_curses] steps keeps_refl)

lemmas keeps_any_tui = keeps_any_render keeps_any_input keeps_any_shutdown_tui keeps_any_TuiStart

end

section \<open>Starting services\<close>

locale service_contract = base_contract +
  assumes keeps_spawn: "R s (snd (spawn K u path args pol bl bi ctx s))"
    and keeps_spawn_sockets: "R s (snd (spawn_with_socket_fds K u path args env restart ctx s))"
    and keeps_restart_count: "R s (apply_restart_count p u s)"
    and keeps_policy: "R s (set_policy p pol bl bi s)"
    and keeps_drain: "R s (snd (drain_pending_restarts K s))"
begin

lemmas spawn_steps = steps keeps_trans [OF _ keeps_spawn] keeps_trans [OF _ keeps_spawn_sockets]
  keeps_trans [OF _ keeps_restart_count] keeps_trans [OF _ keeps_policy] keeps_trans [OF _ keeps_run_child]

lemma keeps_launch: "R s (snd (launch_service K name unit ign path args s))"
  unfolding launch_service_def Let_def split_def
  by (auto split: option.split intro!: spawn_steps keeps_refl)

lemma keeps_start_main: "R s (snd (start_main K name unit s))"
  by (auto simp: start_main_def Let_def split_def split: option.split
        intro: keeps_launch keeps_log_fmt keeps_refl)

lemma keeps_start_service: "R s (snd (start_service K name unit s))"
proof -
  obtain cs exc where c: "runtime_dir_calls (view K s) unit = (cs, exc)"
    by (cases "runtime_dir_calls (view K s) unit")
  obtain o1 s2 where p: "run_start_pre K name unit (uf_exec_start_pre unit) (fold (sys_do K) cs s) = (o1, s2)"
    by (cases "run_start_pre K name unit (uf_exec_start_pre unit) (fold (sys_do K) cs s)")
  have 2: "R s s2"
    using keeps_trans [OF keeps_fold_sys [of s cs] keeps_run_start_pre [of _ name unit "uf_exec_start_pre unit"]] p by simp
  from keeps_trans [OF this keeps_start_main] 2 keeps_fold_sys [of s cs] show ?thesis
    by (simp add: start_service_def c p Let_def split: option.split pre_outcome.split)
qed

lemma keeps_execute_unit: "R s (snd (execute_unit K name s))"
  by (auto simp: execute_unit_def split: option.split sum.split unit_type.split
        intro: keeps_refl keeps_log_fmt keeps_start_service keeps_start_mount)

lemma keeps_execute_UnitExecute: "R s (snd (execute_UnitExecute K s))"
  unfolding execute_UnitExecute_def Let_def
  by (rule keeps_trans [OF keeps_log keeps_flow_loop]) (rule keeps_execute_unit)

lemma keeps_restart_one: "R s (snd (restart_one K name s))"
  by (auto simp: restart_one_def split: option.split
        intro: keeps_refl keeps_trans [OF keeps_log_fmt keeps_start_service])

lemma keeps_process_restarts: "R s (snd (process_restarts K s))"
  unfolding process_restarts_def Let_def split_def
  by (rule keeps_trans [OF keeps_drain keeps_flow_loop]) (rule keeps_restart_one)

end

text \<open>A contract that does not speak about the process table holds for starting services.\<close>

locale table_contract = base_contract +
  assumes keeps_table: "R s (s\<lparr>processes := ps, unit_to_pid := us, pending_restarts := rs, restart_counts := cs\<rparr>)"
begin

lemma keeps_tables:
  "R s (s\<lparr>processes := ps\<rparr>)" "R s (s\<lparr>unit_to_pid := us\<rparr>)" "R s (s\<lparr>restart_counts := cs\<rparr>)"
  "R s (s\<lparr>pending_restarts := rs\<rparr>)"
  using keeps_table [of s "restart_counts s" "pending_restarts s" "unit_to_pid s" ps]
    keeps_table [of s "restart_counts s" "pending_restarts s" us "processes s"]
    keeps_table [of s cs "pending_restarts s" "unit_to_pid s" "processes s"]
    keeps_table [of s "restart_counts s" rs "unit_to_pid s" "processes s"] by simp_all

lemma keeps_table_after:
  "R s t \<Longrightarrow> R s (t\<lparr>processes := ps\<rparr>)" "R s t \<Longrightarrow> R s (t\<lparr>unit_to_pid := us\<rparr>)"
  "R s t \<Longrightarrow> R s (t\<lparr>restart_counts := cs\<rparr>)" "R s t \<Longrightarrow> R s (t\<lparr>pending_restarts := rs\<rparr>)"
  by (blast intro: keeps_trans keeps_tables)+

lemma keeps_track: "R s (track_process p u restart s)" "R s (spawn_track pol bl bi p u s)"
  unfolding track_process_def spawn_track_def Let_def by (intro keeps_table_after keeps_refl)+

lemma keeps_stop_unit: "R s (snd (stop_unit K u s))"
  unfolding stop_unit_def Let_def
  by (auto split: option.split intro!: steps keeps_table_after keeps_refl)

end

sublocale table_contract \<subseteq> service_contract
proof
  show "R s (snd (spawn K u path args pol bl bi ctx s))" for u path args pol bl bi ctx s
    unfolding spawn_result Let_def
    by (auto intro!: steps keeps_trans [OF _ keeps_run_child] keeps_trans [OF _ keeps_track(2)] keeps_refl)
  show "R s (snd (spawn_with_socket_fds K u path args env restart ctx s))" for u path args env restart ctx s
    unfolding spawn_with_socket_fds_def Let_def split_def
    by (auto intro!: steps keeps_trans [OF _ keeps_cloexec] keeps_trans [OF _ keeps_run_child]
          keeps_trans [OF _ keeps_track(1)] keeps_refl)
  show "R s (apply_restart_count p u s)" for p u s
    unfolding apply_restart_count_def Let_def
    by (auto split: option.split intro!: keeps_table_after keeps_refl)
  show "R s (set_policy p pol bl bi s)" for p pol bl bi s
    unfolding set_policy_def by (auto split: option.split intro!: keeps_table_after keeps_refl)
  show "R s (snd (drain_pending_restarts K s))" for s
    unfolding drain_pending_restarts_def Let_def split_def snd_conv
    by (intro keeps_table_after keeps_tick)
qed

lemma run_exit_callback_bump:
  "run_exit_callback cb s =
     (case cb of Dec_connections n \<Rightarrow>
        if um_get (socket_units s) n = None then s else s\<lparr>socket_units := bump_conn n (-1) (socket_units s)\<rparr>)"
  by (auto simp: run_exit_callback_def bump_conn_def um_at_def Let_def split: exit_callback.split option.split)

text \<open>What \<open>accept_ready\<close> does to connections, if a contract holds for its two tables.\<close>

locale connection_contract = service_contract +
  assumes keeps_callbacks: "R s (s\<lparr>exit_callbacks := cbs\<rparr>)"
    and keeps_counter: "R s (s\<lparr>socket_units := bump_conn n d (socket_units s)\<rparr>)"
begin

lemma keeps_add_connections: "R s (add_connections n d s)"
  unfolding add_connections_bump by (rule keeps_counter)

lemma keeps_on_child_exit: "R s (on_child_exit p cb s)"
  unfolding on_child_exit_def by (rule keeps_callbacks)

lemma keeps_reap_callback: "R s (reap_callback p s)"
  unfolding reap_callback_def run_exit_callback_bump Let_def
  by (auto split: option.split exit_callback.split
        intro!: keeps_trans [OF _ keeps_callbacks] keeps_counter keeps_refl)

lemma keeps_serve_connection: "R s (snd (serve_connection K n c s))"
proof -
  have "R t (snd (drop_connection K n c t))" for t
    unfolding drop_connection_def snd_conv by (intro keeps_trans [OF _ keeps_add_connections] keeps_sys_do)
  then show ?thesis
    unfolding serve_connection_def Let_def split_def
    by (auto split: option.split list.split intro!: spawn_steps keeps_trans [OF _ keeps_add_connections]
          keeps_trans [OF _ keeps_on_child_exit] keeps_refl)
qed

lemma keeps_connection: "R s (snd (accept_ready K fd s))"
  unfolding accept_ready_def Let_def split_def
  by (auto split: option.split intro!: steps keeps_trans [OF _ keeps_serve_connection]
        keeps_trans [OF _ keeps_add_connections] keeps_refl)

end

section \<open>The main loop and the shutdown\<close>

text \<open>One turn.\<close>

locale turn_contract = service_contract +
  assumes keeps_reap_one: "R s (reap_one K ps s)"
    and keeps_shutdown_request: "R s (s\<lparr>shutdown_requested := True\<rparr>)"
    and keeps_chowned: "R s (s\<lparr>runtime_dirs_chowned := True\<rparr>)"
    and keeps_accept_ready: "R s (snd (accept_ready K fd s))"
    and keeps_render: "R s (render K s)"
    and keeps_handle_input: "tui_active s \<Longrightarrow> R s (snd (handle_input K s))"
begin

lemma keeps_reap_children: "R s (reap_children K s)"
  unfolding reap_children_def by (rule keeps_trans [OF keeps_tick keeps_fold]) (rule keeps_reap_one)

lemma keeps_handle_signal: "R (snd cs) (snd (handle_signal K sig cs))"
  by (auto simp: handle_signal_def Let_def split_def
        intro: keeps_refl keeps_reap_children keeps_trans [OF keeps_log keeps_shutdown_request])

lemma keeps_drain_signals: "R s (snd (drain_signals K s))"
  unfolding drain_signals_def
  by (intro fold_inv [where P = "\<lambda>cs. R s (snd cs)"]) (auto intro: keeps_trans keeps_handle_signal keeps_tick)

lemma keeps_poll_once: "R s (snd (poll_once K s))"
proof -
  have "R t (poll_event K fd t)" for fd t
    by (simp add: poll_event_def keeps_drain_signals keeps_refl)
  then have "R s (fold (poll_event K) fds (tick s))" for fds
    by (intro keeps_trans [OF keeps_tick keeps_fold])
  then show ?thesis by (simp add: poll_once_def epoll_wait_def split_def Let_def keeps_tick)
qed

lemma keeps_socket_event: "R s (snd (socket_event K fd s))"
  by (auto simp: socket_event_def intro: keeps_drain_signals keeps_accept_ready keeps_refl)

lemma keeps_poll_with_sockets: "R s (snd (poll_once_with_sockets K s))"
proof -
  have "R s (snd (flow_loop (socket_event K) fds (tick s)))" for fds
    by (rule keeps_trans [OF keeps_tick keeps_flow_loop]) (rule keeps_socket_event)
  then show ?thesis by (simp add: poll_once_with_sockets_def epoll_wait_def split_def Let_def keeps_tick)
qed

lemma keeps_maybe_fix: "R s (maybe_fix_runtime_dirs K s)"
proof -
  have "R t (fold (\<lambda>rd u. fold (sys_do K) (runtime_dir_chown (view K u) rd) u) rds t)" for rds t
    by (rule keeps_fold) (rule keeps_fold_sys)
  then show ?thesis
    by (auto simp: maybe_fix_runtime_dirs_def fix_runtime_dir_ownership_def
          intro: keeps_refl keeps_trans [OF keeps_trans [OF keeps_log keeps_chowned]])
qed

lemma keeps_tui_turn: "R s (snd (tui_turn K s))"
proof -
  have "R s (snd (handle_input K (render K s)))" if "tui_active s"
    using that by (intro keeps_trans [OF keeps_render keeps_handle_input]) (simp add: render_active)
  then show ?thesis
    unfolding tui_turn_def Let_def split_def by (auto intro!: steps keeps_refl)
qed

lemma keeps_loop_body: "R s (snd (loop_body K s))"
proof -
  obtain f1 s1 where 1: "poll_once_with_sockets K s = (f1, s1)" by (cases "poll_once_with_sockets K s")
  obtain f2 s2 where 2: "process_restarts K s1 = (f2, s2)" by (cases "process_restarts K s1")
  have a: "R s s1" using keeps_poll_with_sockets [of s] 1 by simp
  have b: "R s s2" using keeps_trans [OF a keeps_process_restarts] 2 by simp
  have "R s (snd (tui_turn K (maybe_fix_runtime_dirs K s2)))"
    by (rule keeps_trans [OF keeps_trans [OF b keeps_maybe_fix] keeps_tui_turn])
  with a b show ?thesis by (simp add: loop_body_def 1 2 Let_def split_def split: flow.split)
qed

lemma keeps_main_loop: "main_loop n K s = Some (fl, t) \<Longrightarrow> R s t"
proof (induction n arbitrary: s)
  case 0
  then show ?case by (auto simp: main_loop.simps [of 0] intro: keeps_refl split: if_splits)
next
  case (Suc n)
  obtain e s1 where b: "loop_body K s = (e, s1)" by (cases "loop_body K s")
  have 1: "R s s1" using keeps_loop_body [of s] b by simp
  show ?case
    using Suc.prems 1 Suc.IH [of s1] b
    by (auto simp: main_loop.simps [of "Suc n"] intro: keeps_refl keeps_trans split: if_splits loop_end.splits)
qed

end

text \<open>The turns and the shutdown after them.\<close>

locale loop_contract = turn_contract +
  assumes keeps_stop: "R s (snd (stop_unit K u s))"
    and keeps_close_all: "R s (close_all_sockets K s)"
    and keeps_shutdown_tui: "R s (shutdown_tui s)"
begin

lemma keeps_grace_polls: "R s (grace_polls n K s)"
  by (induction n arbitrary: s) (auto intro: keeps_refl keeps_trans [OF keeps_poll_once])

lemma keeps_stop_all: "R s (stop_all K names s)"
  unfolding stop_all_def by (rule keeps_fold) (rule keeps_stop)

lemma keeps_shutdown: "R s (shutdown K s)"
  unfolding shutdown_def Let_def
  by (intro steps(1) keeps_trans [OF _ keeps_execute_Shutdown] keeps_trans [OF _ keeps_close_all]
        keeps_trans [OF _ keeps_poll_once] keeps_trans [OF _ keeps_kill_all] keeps_trans [OF _ keeps_grace_polls]
        keeps_trans [OF _ keeps_stop_all] keeps_trans [OF _ keeps_shutdown_tui] keeps_log)

lemma keeps_destroy: "R s (destroy_InitSystem K s)"
  unfolding destroy_InitSystem_def Let_def
  by (auto intro!: steps keeps_shutdown_tui)

end

text \<open>
  A contract that speaks neither about processes nor about connections only has to look at the
  terminal interface and a few assignments.
\<close>

locale plain_turn_contract = table_contract + connection_contract +
  assumes keeps_request_flag: "R s (s\<lparr>shutdown_requested := True\<rparr>)"
    and keeps_chowned_flag: "R s (s\<lparr>runtime_dirs_chowned := True\<rparr>)"
    and keeps_drawing: "R s (render K s)"
    and keeps_key: "tui_active s \<Longrightarrow> R s (snd (handle_input K s))"
begin

lemma keeps_schedule_restart: "R s (schedule_restart K tp s)"
  unfolding schedule_restart_def Let_def by (auto intro!: keeps_table_after steps keeps_refl)

lemma keeps_reap_untrack: "R s (reap_untrack K p c tp s)"
  unfolding reap_untrack_def Let_def by (intro keeps_table_after keeps_log_fmt)

end

sublocale plain_turn_contract \<subseteq> turn_contract
proof
  show "R s (reap_one K ps s)" for ps s
    unfolding reap_one_def Let_def
    by (auto split: option.split intro!: steps keeps_trans [OF _ keeps_schedule_restart]
          keeps_trans [OF _ keeps_reap_untrack] keeps_reap_callback)
qed (rule keeps_request_flag keeps_chowned_flag keeps_connection keeps_drawing keeps_key | assumption)+

locale plain_contract = plain_turn_contract +
  assumes keeps_leave_tui: "R s (shutdown_tui s)"
    and keeps_closing: "R s (close_all_sockets K s)"

sublocale plain_contract \<subseteq> loop_contract
  by unfold_locales (rule keeps_stop_unit keeps_closing keeps_leave_tui)+

section \<open>The boot phases\<close>

lemma if_set_active:
  "(\<And>v x. su_active_connections (f v x) = su_active_connections x) \<Longrightarrow>
   su_active_connections (if_set sec k f u) = su_active_connections u"
  by (simp add: if_set_def Let_def)

lemma parsed_socket_idle: "su_active_connections (expand_specifiers os (parse_socket_unit unit)) = 0"
proof -
  have "su_active_connections (add_listen raw lt u) = su_active_connections u" for raw lt u
    by (simp add: add_listen_def Let_def)
  then have "su_active_connections (apply_socket_section sec u) = su_active_connections u" for sec u
    by (simp add: apply_socket_section_def Let_def if_set_active)
  then show ?thesis
    by (simp add: expand_specifiers_def parse_socket_unit_def Let_def socket_unit_init_def split: option.split)
qed

locale mount_contract = base_contract +
  assumes keeps_mounted: "R s (s\<lparr>mounted := ms\<rparr>)"
begin

lemma keeps_execute_EarlyMount: "R s (snd (execute_EarlyMount K s))"
proof -
  have m: "R t (snd (mount_early K mps t))" for mps t
  proof (induction mps arbitrary: t)
    case (Cons mp mps)
    show ?case
      by (auto simp: Let_def split_def intro!: steps keeps_trans [OF _ Cons.IH] keeps_trans [OF _ keeps_mounted] keeps_refl)
  qed (simp add: keeps_refl)
  have d: "R t (fold (make_runtime_dir K) rds t)" for rds t
    by (rule keeps_fold) (auto simp: make_runtime_dir_def Let_def split_def intro!: steps keeps_refl)
  show ?thesis
    unfolding execute_EarlyMount_def Let_def split_def
    by (auto intro!: steps keeps_trans [OF _ d] keeps_trans [OF _ m] keeps_refl)
qed

end

locale discovery_contract = base_contract +
  assumes keeps_discovered: "R s (s\<lparr>discovered_names := ns, discovered_paths := ps\<rparr>)"
begin

lemma keeps_execute_UnitDiscovery: "R s (snd (execute_UnitDiscovery K s))"
proof -
  have 1: "R t (scan_file K d f t)" "R t (scan_link K d f t)" for d f t
    unfolding scan_file_def scan_link_def Let_def
    by (auto split: option.split intro!: steps keeps_discovered keeps_refl)
  then have 2: "R t (scan_dir K d t)" "R t (scan_wants K d f t)" for d f t
    by (auto simp: scan_dir_def scan_wants_def Let_def intro: keeps_refl keeps_fold)
  then have "R t (scan_wants_dirs K d t)" for d t
    by (auto simp: scan_wants_dirs_def intro: keeps_refl keeps_fold)
  then show ?thesis
    unfolding execute_UnitDiscovery_def Let_def snd_conv
    by (intro steps keeps_trans [OF _ keeps_fold] 2 keeps_refl)
qed

end

locale bind_contract = base_contract +
  assumes keeps_put_socket: "su_active_connections u = 0 \<Longrightarrow> R s (s\<lparr>socket_units := um_put n u (socket_units s)\<rparr>)"
begin

lemma keeps_create_and_bind: "R s (snd (create_and_bind K sock le s))"
proof -
  have a: "R t (apply_opts K fd sock t)" for fd t
    unfolding apply_opts_def by (rule keeps_fold) (auto intro: keeps_sys_do)
  have oc: "R t (snd (or_close K fd c k t))" if "\<And>u. R u (snd (k u))" for fd c t
    and k :: "'a tui_st_scheme \<Rightarrow> int \<times> 'a tui_st_scheme"
    using that unfolding or_close_def Let_def split_def
    by (auto intro: keeps_trans keeps_sys keeps_sys_do)
  have fl: "R t (snd (finish_listen K fd sock le t))" for fd t
    by (auto simp: finish_listen_def keeps_refl intro!: oc)
  have u: "R s (snd (bind_unix K sock le s))"
    unfolding bind_unix_def Let_def split_def
    by (auto split: option.split intro!: steps keeps_refl keeps_trans [OF _ a] keeps_trans [OF _ oc]
          keeps_trans [OF keeps_sys_do fl] fl)
  have i: "R s (snd (bind_inet K sock le s))"
    unfolding bind_inet_def Let_def split_def
    by (auto intro!: steps keeps_refl keeps_trans [OF _ a] keeps_trans [OF _ oc] fl)
  have n: "R s (snd (bind_netlink K le s))"
    unfolding bind_netlink_def Let_def split_def
    by (auto simp: keeps_refl intro!: steps keeps_trans [OF _ oc])
  show ?thesis
    using u i n
    by (auto simp: create_and_bind_def create_fifo_def open_special_def open_mqueue_def Let_def split_def
          split: listen_type.split intro!: steps keeps_refl)
qed

lemma keeps_bind_entries: "R s (snd (bind_entries K sock les s))"
proof (induction les arbitrary: s)
  case (Cons le les)
  have "R s (snd (bind_entries K sock les (log_fmt K l src f as (snd (create_and_bind K sock le s)))))"
    "R s (snd (bind_entries K sock les (log_fmt K l src f as (set_cloexec K fd b (snd (create_and_bind K sock le s))))))"
    for l src f as fd b
    by (intro keeps_trans [OF _ Cons.IH] flag_steps steps keeps_create_and_bind)+
  with Cons.IH [of s] show ?case by (simp add: Let_def split_def)
qed (simp add: keeps_refl)

lemma keeps_socket_bind_one: "R (snd bs) (snd (socket_bind_one K nu bs))"
proof -
  have p: "R t (v\<lparr>socket_units := um_put n u m\<rparr>)"
    if "R t v" "socket_units v = m" "su_active_connections u = 0" for t v n u m
    using keeps_trans [OF that(1) keeps_put_socket [OF that(3)], of n] that(2) by simp
  show ?thesis
    unfolding socket_bind_one_def bind_socket_unit_def Let_def split_def
    by (auto simp: parsed_socket_idle intro!: p steps keeps_trans [OF _ keeps_bind_entries] keeps_refl)
qed

lemma keeps_execute_SocketBind: "R s (snd (execute_SocketBind K s))"
proof -
  have "R t (snd (fold (socket_bind_one K) us (b, t)))" for us b t
    by (intro fold_inv [where P = "\<lambda>bs. R t (snd bs)"]) (auto intro: keeps_trans keeps_socket_bind_one keeps_refl)
  then show ?thesis
    unfolding execute_SocketBind_def Let_def split_def snd_conv
    by (intro steps(2)) (rule keeps_trans [OF keeps_log])
qed

end

locale early_contract = mount_contract + discovery_contract + bind_contract
begin

lemma keeps_or_return: "\<lbrakk>R s (snd rs); \<And>t. R t (snd (k t))\<rbrakk> \<Longrightarrow> R s (snd (or_return rs k))"
  by (cases rs) (auto simp: or_return_def intro: keeps_trans)

end

locale setup_contract = early_contract +
  assumes keeps_units: "R s (s\<lparr>units := us\<rparr>)"
    and keeps_exec_order: "R s (s\<lparr>exec_order := ns\<rparr>)"
begin

lemma keeps_execute_UnitParse: "R s (snd (execute_UnitParse K junk s))"
proof -
  have "R t (parse_path K junk p t)" for p t
    unfolding parse_path_def Let_def by (intro keeps_trans [OF _ keeps_units] steps keeps_refl)
  then show ?thesis
    unfolding execute_UnitParse_def Let_def snd_conv by (intro steps keeps_trans [OF _ keeps_fold] keeps_refl)
qed

lemma keeps_execute_DependencyResolve: "R s (snd (execute_DependencyResolve K it s))"
  unfolding execute_DependencyResolve_def Let_def
  by (auto intro!: steps keeps_trans [OF _ keeps_exec_order] keeps_refl)

end

locale boot_contract = setup_contract + service_contract +
  assumes keeps_signal_fd: "R s (s\<lparr>signal_fd := fd\<rparr>)"
    and keeps_epoll_fd: "R s (s\<lparr>epoll_fd := fd\<rparr>)"
begin

lemma keeps_execute_SignalSetup: "R s (snd (execute_SignalSetup K s))"
  unfolding execute_SignalSetup_def Let_def split_def
  by (auto intro!: steps keeps_trans [OF _ keeps_signal_fd] keeps_trans [OF _ keeps_epoll_fd] keeps_refl)

lemma keeps_phases: "R (log K Info ''init'' ''trivialInit starting'' s) (snd (boot K junk it s))"
  unfolding boot_def Let_def split_def
  by (intro keeps_or_return keeps_execute_EarlyMount keeps_execute_SignalSetup keeps_execute_UnitDiscovery
        keeps_execute_UnitParse keeps_execute_SocketBind keeps_execute_DependencyResolve)
     (simp add: keeps_execute_UnitExecute)

lemma keeps_boot: "R s (snd (boot K junk it s))"
  by (rule keeps_trans [OF keeps_log keeps_phases])

end

section \<open>A whole run\<close>

text \<open>The states at the head of the main loop: after the boot, and after every turn.\<close>

definition main_start :: "kernel \<Rightarrow> init_system" where
  "main_start K =
     (let s = tick init_system_new
      in if k_ret K 0 Getpid = 1 then print_stderr ''trivialInit: running as PID 1'' s
         else print_stderr (''trivialInit: running as PID '' @ show_int (k_ret K 1 Getpid) @ '' (test mode)'') (tick s))"

definition enter_loop :: "kernel \<Rightarrow> 'a tui_st_scheme \<Rightarrow> 'a tui_st_scheme" where
  "enter_loop K s =
     log K Info ''init'' ''Entering main loop''
       (snd (execute_TuiStart K (register_accept_sockets K (epoll_fd s) s)))"

lemma main_init_run:
  "main_init n K junk it =
     (case run n K junk it (main_start K) of
        None \<Rightarrow> None
      | Some ((Returns, rc), s) \<Rightarrow> Some ((Returns, rc), destroy_InitSystem K s)
      | Some ((fl, rc), s) \<Rightarrow> Some ((fl, rc), s))"
  unfolding main_init_def main_start_def Let_def by simp

lemma run_loop:
  "run n K junk it s =
     (case boot K junk it s of
        ((Returns, rc), s) \<Rightarrow>
          if rc \<noteq> 0 then Some ((Returns, rc), s)
          else (case main_loop n K (enter_loop K s) of
                  None \<Rightarrow> None
                | Some (Returns, s) \<Rightarrow> Some ((Returns, 0), shutdown K s)
                | Some (fl, s) \<Rightarrow> Some ((fl, 0), s))
      | ((fl, rc), s) \<Rightarrow> Some ((fl, rc), s))"
  unfolding run_def enter_loop_def Let_def by simp

text \<open>How a complete run of \<open>main\<close> ends: before the loop, out of it, or after the shutdown.\<close>

lemma main_init_cases [consumes 1, case_names boot_ends loop_leaves shuts_down]:
  assumes "main_init n K junk it = Some ((fl, rc), t)"
  obtains u where "boot K junk it (main_start K) = ((fl, rc), u)" "fl \<noteq> Returns \<or> rc \<noteq> 0"
      "t = (if fl = Returns then destroy_InitSystem K u else u)"
  | u where "boot K junk it (main_start K) = ((Returns, 0), u)" "main_loop n K (enter_loop K u) = Some (fl, t)"
      "fl \<noteq> Returns" "rc = 0"
  | u v where "boot K junk it (main_start K) = ((Returns, 0), u)" "main_loop n K (enter_loop K u) = Some (Returns, v)"
      "fl = Returns" "rc = 0" "t = destroy_InitSystem K (shutdown K v)"
proof -
  obtain f1 r1 u where b: "boot K junk it (main_start K) = ((f1, r1), u)"
    by (cases "boot K junk it (main_start K)") auto
  show thesis
  proof (cases "f1 = Returns \<and> r1 = 0")
    case False
    then have "fl = f1" "rc = r1" "t = (if fl = Returns then destroy_InitSystem K u else u)"
      using assms b by (auto simp: main_init_run run_loop split: flow.splits if_splits)
    with b False that(1) show thesis by auto
  next
    case True
    then obtain f2 v where l: "main_loop n K (enter_loop K u) = Some (f2, v)"
      using assms b by (auto simp: main_init_run run_loop split: option.splits)
    show thesis
    proof (cases "f2 = Returns")
      case True
      then show thesis
        using that(3) [of u v] assms b l \<open>f1 = Returns \<and> r1 = 0\<close> by (auto simp: main_init_run run_loop)
    next
      case False
      then have "fl = f2" "rc = 0" "t = v"
        using assms b l True by (auto simp: main_init_run run_loop split: flow.splits)
      with that(2) b l True False show thesis by auto
    qed
  qed
qed

locale accept_contract = base_contract +
  assumes keeps_fd_table: "R s (s\<lparr>fd_to_socket := m\<rparr>)"
begin

lemma keeps_register_accept: "R s (register_accept_sockets K epfd s)"
proof -
  have "R t (register_fd K epfd n fd t)" for n fd t
    unfolding register_fd_def Let_def by (intro keeps_trans [OF _ keeps_fd_table] flag_steps steps keeps_refl)
  then show ?thesis
    unfolding register_accept_sockets_def
    by (intro keeps_fold) (auto simp: split_def intro!: keeps_fold intro: keeps_refl)
qed

end

locale entry_contract = accept_contract +
  assumes keeps_TuiStart: "R s (snd (execute_TuiStart K s))"
begin

lemma keeps_enter_loop: "R s (enter_loop K s)"
  unfolding enter_loop_def by (intro steps keeps_trans [OF _ keeps_TuiStart] keeps_register_accept)

end

text \<open>
  The states at the head of the main loop, with the number of turns made: what \<open>main\<close> can
  ever be in between two polls.
\<close>

inductive loop_head :: "kernel \<Rightarrow> (string \<Rightarrow> nat \<Rightarrow> bool) \<Rightarrow> ((string, unit_file) umap \<Rightarrow> string list) \<Rightarrow>
    nat \<Rightarrow> init_system \<Rightarrow> bool" for K junk it where
  first_turn: "boot K junk it (main_start K) = ((Returns, 0), s) \<Longrightarrow> loop_head K junk it 0 (enter_loop K s)"
| next_turn: "\<lbrakk>loop_head K junk it n s; \<not> shutdown_requested s; loop_body K s = (Next, t)\<rbrakk> \<Longrightarrow>
    loop_head K junk it (Suc n) t"

text \<open>From the end of the boot on: at the head of the loop, and when the program ends.\<close>

locale later_contract = entry_contract R K + loop_contract R K
  for R :: "init_system \<Rightarrow> init_system \<Rightarrow> bool" and K
begin

lemma keeps_turns: "loop_head K junk it n t \<Longrightarrow> \<exists>u. boot K junk it (main_start K) = ((Returns, 0), u) \<and> R u t"
proof (induction rule: loop_head.induct)
  case (first_turn s)
  then show ?case using keeps_enter_loop by blast
next
  case (next_turn n s t)
  then show ?case using keeps_loop_body [of s] by (auto intro: keeps_trans)
qed

lemma keeps_to_end:
  "main_init n K junk it = Some ((fl, rc), t) \<Longrightarrow> \<exists>x u. boot K junk it (main_start K) = (x, u) \<and> R u t"
proof (induction rule: main_init_cases)
  case (boot_ends u)
  then show ?case using keeps_refl [of u] keeps_destroy [of u] by (cases fl) auto
next
  case (loop_leaves u)
  from loop_leaves(1) keeps_trans [OF keeps_enter_loop keeps_main_loop [OF loop_leaves(2)]] show ?case by blast
next
  case (shuts_down u v)
  have "R u (destroy_InitSystem K (shutdown K v))"
    by (intro keeps_trans [OF _ keeps_destroy] keeps_trans [OF _ keeps_shutdown]
          keeps_trans [OF keeps_enter_loop keeps_main_loop [OF shuts_down(2)]])
  with shuts_down show ?case by blast
qed

lemma keeps_after_boot:
  assumes "loop_head K junk it n t \<or> main_init n K junk it = Some ((fl, rc), t)"
  obtains x u where "boot K junk it (main_start K) = (x, u)" "R u t"
  using assms keeps_turns keeps_to_end by blast

end

text \<open>The contract of a complete run, from the state in which \<open>main\<close> starts it.\<close>

locale program_contract = boot_contract R K + later_contract R K
  for R :: "init_system \<Rightarrow> init_system \<Rightarrow> bool" and K
begin

lemma keeps_run:
  assumes "loop_head K junk it n t \<or> main_init n K junk it = Some ((fl, rc), t)"
  shows "R (main_start K) t"
proof -
  obtain x u where u: "boot K junk it (main_start K) = (x, u)" "R u t" using assms by (rule keeps_after_boot)
  with keeps_boot [of "main_start K" junk it] show ?thesis by (auto intro: keeps_trans)
qed

lemmas keeps_program = keeps_run [OF disjI2]

end

end
