(* ===== verification/Supervisor.thy ===== *)
theory Supervisor
  imports Contracts
begin

text \<open>
  An abstract supervisor, and the operations of the program as implementations of it. The
  abstract state has the processes that run, each with its unit and restart policy, and the
  units that wait for a restart. A process enters with a pid that is not in use, leaves only by
  exiting, and a unit is put on the waiting list only by the exit of one of its processes
  whose policy asks for a restart after that exit.
\<close>

section \<open>The abstract machine\<close>

record supervisor =
  sup_running :: "pid \<Rightarrow> (string \<times> restart_policy) option"
  sup_waiting :: "string multiset"

inductive sup_step :: "supervisor \<Rightarrow> supervisor \<Rightarrow> bool" where
  sup_start: "\<lbrakk>0 < p; sup_running a p = None\<rbrakk> \<Longrightarrow>
    sup_step a (a\<lparr>sup_running := (sup_running a)(p \<mapsto> (u, pol))\<rparr>)"
| sup_exit: "sup_running a p = Some (u, pol) \<Longrightarrow>
    sup_step a (a\<lparr>sup_running := (sup_running a)(p := None)\<rparr>)"
| sup_exit_restart: "\<lbrakk>sup_running a p = Some (u, pol); should_restart pol code signaled\<rbrakk> \<Longrightarrow>
    sup_step a (a\<lparr>sup_running := (sup_running a)(p := None), sup_waiting := add_mset u (sup_waiting a)\<rparr>)"
| sup_due: "due \<subseteq># sup_waiting a \<Longrightarrow> sup_step a (a\<lparr>sup_waiting := sup_waiting a - due\<rparr>)"
| sup_configure: "sup_running a p = Some (u, pol) \<Longrightarrow>
    sup_step a (a\<lparr>sup_running := (sup_running a)(p \<mapsto> (u, pol'))\<rparr>)"

text \<open>What the tables of the program stand for.\<close>

definition sup_abs :: "'a process_st_scheme \<Rightarrow> supervisor" where
  "sup_abs s = \<lparr>sup_running = (\<lambda>p. map_option (\<lambda>tp. (tp_unit_name tp, tp_restart_policy tp)) (um_get (processes s) p)),
     sup_waiting = mset (map pr_unit_name (pending_restarts s))\<rparr>"

lemma sup_abs_simps [simp]:
  "sup_running (sup_abs s) p = map_option (\<lambda>tp. (tp_unit_name tp, tp_restart_policy tp)) (um_get (processes s) p)"
  "sup_waiting (sup_abs s) = mset (map pr_unit_name (pending_restarts s))"
  by (simp_all add: sup_abs_def)

text \<open>
  The kernel's promise about process ids, up to request number \<open>N\<close>: \<open>fork\<close> returns no pid that
  is tracked now, and no pid twice.
\<close>

definition pids_fresh :: "kernel \<Rightarrow> nat \<Rightarrow> 'a process_st_scheme \<Rightarrow> bool" where
  "pids_fresh K N s \<longleftrightarrow>
     (\<forall>n. ticks s \<le> n \<and> n < N \<and> 0 < k_ret K n Fork \<longrightarrow>
        um_get (processes s) (k_ret K n Fork) = None \<and>
        (\<forall>m. n < m \<and> m < N \<longrightarrow> k_ret K m Fork \<noteq> k_ret K n Fork))"

text \<open>
  The contract of the program: requests are only added, a request to shut down is never
  withdrawn, and while the kernel keeps its promise, the invariant of the process table is
  kept and what happened to the tables is a sequence of steps of the abstract supervisor.
\<close>

definition refines :: "kernel \<Rightarrow> 'a process_st_scheme \<Rightarrow> 'a process_st_scheme \<Rightarrow> bool" where
  "refines K s t \<longleftrightarrow>
     ticks s \<le> ticks t \<and> (shutdown_requested s \<longrightarrow> shutdown_requested t) \<and>
     (\<forall>N. ticks t \<le> N \<longrightarrow> process_inv s \<longrightarrow> pids_fresh K N s \<longrightarrow>
        process_inv t \<and> pids_fresh K N t \<and> sup_step\<^sup>*\<^sup>* (sup_abs s) (sup_abs t))"

interpretation refines: op_contract "refines K" for K
proof
  show "refines K s s" for s :: "'a process_st_scheme" by (simp add: refines_def)
  show "refines K s u" if "refines K s t" "refines K t u" for s t u :: "'a process_st_scheme"
    using that unfolding refines_def by (meson le_trans rtranclp_trans)
qed

text \<open>Every operation but the set-up of signals also keeps the descriptors signals arrive on.\<close>

definition keeps_fds :: "'a signal_st_scheme \<Rightarrow> 'a signal_st_scheme \<Rightarrow> bool" where
  [simp]: "keeps_fds s t \<longleftrightarrow> signal_fd t = signal_fd s \<and> epoll_fd t = epoll_fd s"

definition supervised :: "kernel \<Rightarrow> 'a process_st_scheme \<Rightarrow> 'a process_st_scheme \<Rightarrow> bool" where
  "supervised K s t \<longleftrightarrow> refines K s t \<and> keeps_fds s t"

interpretation supervised: op_contract "supervised K" for K
proof
  show "supervised K s s" for s :: "'a process_st_scheme"
    by (simp add: supervised_def refines.keeps_refl)
  show "supervised K s u" if "supervised K s t" "supervised K t u" for s t u :: "'a process_st_scheme"
    using that unfolding supervised_def by (auto intro: refines.keeps_trans)
qed

lemma refinesI:
  fixes s t :: "'a process_st_scheme"
  assumes mono: "ticks s \<le> ticks t" and flag: "shutdown_requested s \<Longrightarrow> shutdown_requested t"
    and keys: "\<And>p. um_get (processes t) p \<noteq> None \<Longrightarrow>
        um_get (processes s) p \<noteq> None \<or> (\<exists>n. ticks s \<le> n \<and> n < ticks t \<and> p = k_ret K n Fork)"
    and sim: "\<And>N. \<lbrakk>ticks t \<le> N; process_inv s; pids_fresh K N s\<rbrakk> \<Longrightarrow>
        process_inv t \<and> sup_step\<^sup>*\<^sup>* (sup_abs s) (sup_abs t)"
  shows "refines K s t"
proof -
  have "pids_fresh K N t" if f: "pids_fresh K N s" for N
    unfolding pids_fresh_def
  proof (intro allI impI conjI)
    fix n assume n: "ticks t \<le> n \<and> n < N \<and> 0 < k_ret K n Fork"
    with f mono show "\<And>m. n < m \<and> m < N \<Longrightarrow> k_ret K m Fork \<noteq> k_ret K n Fork"
      unfolding pids_fresh_def by (meson le_trans)
    show "um_get (processes t) (k_ret K n Fork) = None"
    proof (rule ccontr)
      assume "um_get (processes t) (k_ret K n Fork) \<noteq> None"
      from keys [OF this] show False
      proof
        assume "um_get (processes s) (k_ret K n Fork) \<noteq> None"
        with f n mono show False unfolding pids_fresh_def by (meson le_trans)
      next
        assume "\<exists>m\<ge>ticks s. m < ticks t \<and> k_ret K n Fork = k_ret K m Fork"
        then obtain m where "ticks s \<le> m" "m < ticks t" "k_ret K n Fork = k_ret K m Fork" by blast
        with f n show False unfolding pids_fresh_def
          by (metis less_le_trans less_trans)
      qed
    qed
  qed
  with mono flag sim show ?thesis by (auto simp: refines_def)
qed

lemma supervisedI:
  fixes s t :: "'a process_st_scheme"
  assumes "ticks s \<le> ticks t" and "shutdown_requested s \<Longrightarrow> shutdown_requested t" and "keeps_fds s t"
    and "\<And>p. um_get (processes t) p \<noteq> None \<Longrightarrow>
        um_get (processes s) p \<noteq> None \<or> (\<exists>n. ticks s \<le> n \<and> n < ticks t \<and> p = k_ret K n Fork)"
    and "\<And>N. \<lbrakk>ticks t \<le> N; process_inv s; pids_fresh K N s\<rbrakk> \<Longrightarrow>
        process_inv t \<and> sup_step\<^sup>*\<^sup>* (sup_abs s) (sup_abs t)"
  shows "supervised K s t"
  unfolding supervised_def using assms refinesI [of s t K] by blast

text \<open>Operations that leave the tables alone.\<close>

definition untouched :: "'a process_st_scheme \<Rightarrow> 'a process_st_scheme \<Rightarrow> bool" where
  "untouched s t \<longleftrightarrow> ticks s \<le> ticks t \<and> (shutdown_requested s \<longrightarrow> shutdown_requested t) \<and>
     processes t = processes s \<and> unit_to_pid t = unit_to_pid s \<and>
     pending_restarts t = pending_restarts s \<and> restart_counts t = restart_counts s"

lemma untouched_refines:
  assumes q: "untouched s t"
  shows "refines K s t"
proof (rule refinesI)
  have "sup_abs t = sup_abs s" using q by (simp add: untouched_def sup_abs_def)
  with q show "process_inv t \<and> sup_step\<^sup>*\<^sup>* (sup_abs s) (sup_abs t)" if "process_inv s"
    using process_inv_frame [OF that, of t] by (simp add: untouched_def)
qed (use q in \<open>auto simp: untouched_def\<close>)

definition quiet :: "'a process_st_scheme \<Rightarrow> 'a process_st_scheme \<Rightarrow> bool" where
  "quiet s t \<longleftrightarrow> ticks s \<le> ticks t \<and> (shutdown_requested s \<longrightarrow> shutdown_requested t) \<and> keeps_fds s t \<and>
     processes t = processes s \<and> unit_to_pid t = unit_to_pid s \<and>
     pending_restarts t = pending_restarts s \<and> restart_counts t = restart_counts s"

interpretation quiet: op_contract quiet
  by unfold_locales (auto simp: quiet_def)

lemma quiet_supervised: "quiet s t \<Longrightarrow> supervised K s t"
  unfolding supervised_def by (auto simp: quiet_def untouched_def intro: untouched_refines)

section \<open>The operations on the tables\<close>

lemma log_ticks [simp]:
  "ticks (log K l src m s) = ticks s + (if l < min_level s then 0 else 1)"
  "ticks (log_fmt K l src f as s) = ticks s + (if l < min_level s then 0 else 1)"
  by (simp_all add: log_def log_fmt_def)

lemma reap_one_ticks: "ticks s \<le> ticks (reap_one K ps s)"
proof -
  have c: "ticks (reap_callback p t) = ticks t" for p and t :: "'a socket_st_scheme"
    by (simp add: reap_callback_def Let_def split: option.split)
  have u: "ticks t \<le> ticks (reap_untrack K p code tp t)" "ticks t \<le> ticks (schedule_restart K tp t)"
    for p code tp and t :: "'a socket_st_scheme"
    by (simp_all add: reap_untrack_def schedule_restart_def Let_def)
  show ?thesis
    unfolding reap_one_def Let_def
    by (auto simp: c split: option.split intro: u order_trans [OF _ u(1)] order_trans [OF u(1) u(2)])
       (metis c order_trans u)+
qed

lemma restart_entry_Some:
  "restart_entry now code signaled tp = Some e \<Longrightarrow>
   should_restart (tp_restart_policy tp) code signaled \<and> pr_unit_name e = tp_unit_name tp"
  by (auto simp: restart_entry_def Let_def split: if_splits)

lemma reap_one_supervised: "supervised K s (reap_one K ps s)"
proof (rule supervisedI)
  obtain p st where ps: "ps = (p, st)" by (cases ps)
  show "um_get (processes s) q \<noteq> None \<or> (\<exists>n. ticks s \<le> n \<and> n < ticks (reap_one K ps s) \<and> q = k_ret K n Fork)"
    if "um_get (processes (reap_one K ps s)) q \<noteq> None" for q
    using that by (cases "um_get (processes s) p") (auto simp: ps reap_one_untracked reap_one_tracked split: if_splits)
  assume inv: "process_inv s"
  have "sup_step\<^sup>*\<^sup>* (sup_abs s) (sup_abs (reap_one K ps s))"
  proof (cases "um_get (processes s) p")
    case None
    then have "sup_abs (reap_one K ps s) = sup_abs s" by (simp add: sup_abs_def ps reap_one_untracked)
    then show ?thesis by simp
  next
    case (Some tp)
    let ?e = "restart_entry (reap_now K p (exit_code_of st) tp s) (exit_code_of st) (WIFSIGNALED st) tp"
    have wf: "um_wf (processes s)" by (rule process_invD(1) [OF inv])
    have run: "sup_running (sup_abs (reap_one K ps s)) = (sup_running (sup_abs s))(p := None)"
      using wf by (auto simp: ps reap_one_tracked [OF Some] fun_eq_iff)
    have r: "sup_running (sup_abs s) p = Some (tp_unit_name tp, tp_restart_policy tp)" using Some by simp
    show ?thesis
    proof (cases ?e)
      case None
      with run have "sup_abs (reap_one K ps s) = (sup_abs s)\<lparr>sup_running := (sup_running (sup_abs s))(p := None)\<rparr>"
        by (simp add: ps reap_one_tracked [OF Some] del: sup_abs_simps(1))
      with sup_exit [OF r] show ?thesis by simp
    next
      case e: (Some e)
      note re = restart_entry_Some [OF e]
      from run e re have "sup_abs (reap_one K ps s) = (sup_abs s)\<lparr>sup_running := (sup_running (sup_abs s))(p := None),
          sup_waiting := add_mset (tp_unit_name tp) (sup_waiting (sup_abs s))\<rparr>"
        by (simp add: ps reap_one_tracked [OF Some] del: sup_abs_simps(1))
      with sup_exit_restart [OF r] re show ?thesis by (metis r_into_rtranclp)
    qed
  qed
  with reap_one_inv [OF inv] show "process_inv (reap_one K ps s) \<and> sup_step\<^sup>*\<^sup>* (sup_abs s) (sup_abs (reap_one K ps s))"
    by (simp add: ps)
qed (simp_all add: reap_one_ticks)

lemma reap_children_supervised: "supervised K s (reap_children K s)"
proof -
  have "quiet s (tick s)" by (simp add: quiet_def)
  then have "supervised K s (tick s)" by (rule quiet_supervised)
  then show ?thesis
    unfolding reap_children_def
    by (rule supervised.keeps_then) (rule supervised.keeps_fold, rule reap_one_supervised)
qed

text \<open>Replacing the record of a tracked process by one of the same unit.\<close>

lemma update_supervised:
  fixes s t :: "'a process_st_scheme"
  assumes mono: "ticks s \<le> ticks t" and flag: "shutdown_requested t = shutdown_requested s" "keeps_fds s t"
    and p: "um_get (processes s) p = Some tp"
    and t: "processes t = um_put p tp' (processes s)" "pending_restarts t = pending_restarts s"
    and inv: "process_inv s \<Longrightarrow> process_inv t" and u: "tp_unit_name tp' = tp_unit_name tp"
  shows "supervised K s t"
proof (rule supervisedI [OF mono])
  show "shutdown_requested s \<Longrightarrow> shutdown_requested t" "keeps_fds s t" using flag by simp_all
  show "um_get (processes s) q \<noteq> None \<or> (\<exists>n. ticks s \<le> n \<and> n < ticks t \<and> q = k_ret K n Fork)"
    if "um_get (processes t) q \<noteq> None" for q
    using that p by (auto simp: t split: if_splits)
  assume "process_inv s"
  have "sup_abs t = (sup_abs s)\<lparr>sup_running := (sup_running (sup_abs s))(p \<mapsto> (tp_unit_name tp, tp_restart_policy tp'))\<rparr>"
    by (simp add: sup_abs_def t u fun_eq_iff)
  moreover have "sup_running (sup_abs s) p = Some (tp_unit_name tp, tp_restart_policy tp)" using p by simp
  ultimately have "sup_step (sup_abs s) (sup_abs t)" by (metis sup_configure)
  with inv [OF \<open>process_inv s\<close>] show "process_inv t \<and> sup_step\<^sup>*\<^sup>* (sup_abs s) (sup_abs t)" by simp
qed

lemma unchanged_supervised:
  fixes s t :: "'a process_st_scheme"
  assumes "ticks s \<le> ticks t" "shutdown_requested t = shutdown_requested s" "keeps_fds s t" "processes t = processes s" "pending_restarts t = pending_restarts s"
    and inv: "process_inv s \<Longrightarrow> process_inv t"
  shows "supervised K s t"
proof -
  have "sup_abs t = sup_abs s" using assms by (simp add: sup_abs_def)
  with assms show ?thesis by (intro supervisedI) auto
qed

lemma stop_unit_supervised: "supervised K s (snd (stop_unit K u s))"
proof (cases "um_get (unit_to_pid s) u")
  case None
  then show ?thesis by (simp add: stop_unit_def supervised.keeps_refl)
next
  case u: (Some p)
  show ?thesis
  proof (cases "um_get (processes s) p")
    case None
    with u show ?thesis
      by (intro unchanged_supervised) (auto simp: stop_unit_def Let_def intro: process_inv_frame)
  next
    case (Some tp)
    show ?thesis
      by (rule update_supervised [OF _ _ _ Some, where tp' = "tp\<lparr>tp_restart_policy := RP_No\<rparr>"])
         (use stop_unit_inv [of s K u] in \<open>simp_all add: stop_unit_tracked [OF u Some]\<close>)
  qed
qed

lemma apply_restart_count_supervised: "supervised K s (apply_restart_count p u s)"
proof (cases "um_get (restart_counts s) u")
  case None
  then show ?thesis by (simp add: apply_restart_count_def supervised.keeps_refl)
next
  case m: (Some m)
  show ?thesis
  proof (cases "um_get (processes s) p")
    case None
    with m show ?thesis
      by (intro unchanged_supervised apply_restart_count_inv) (simp_all add: apply_restart_count_def Let_def)
  next
    case (Some tp)
    with m show ?thesis
      by (intro update_supervised [OF _ _ _ Some, where tp' = "tp\<lparr>tp_restart_count := rm_restart_count m,
            tp_burst_count := rm_burst_count m, tp_burst_window_start := rm_burst_window_start m\<rparr>"] apply_restart_count_inv)
         (simp_all add: apply_restart_count_def Let_def)
  qed
qed

lemma set_policy_supervised: "supervised K s (set_policy p pol bl bi s)"
proof (cases "um_get (processes s) p")
  case None
  then show ?thesis by (simp add: set_policy_def supervised.keeps_refl)
next
  case (Some tp)
  let ?tp = "tp\<lparr>tp_restart_policy := pol, tp_burst_limit := bl, tp_burst_interval_s := bi\<rparr>"
  have "process_inv (s\<lparr>processes := um_put p ?tp (processes s)\<rparr>)" if "process_inv s"
    by (rule processes_update_inv [OF that Some]) (use process_invD(3) [OF that Some] in \<open>simp_all add: tracked_ok_def\<close>)
  then show ?thesis
    by (intro update_supervised [OF _ _ _ Some, where tp' = ?tp]) (use Some in \<open>simp_all add: set_policy_def\<close>)
qed

lemma drain_supervised: "supervised K s (snd (drain_pending_restarts K s))"
proof (rule supervisedI)
  let ?t = "snd (drain_pending_restarts K s)" and ?due = "\<lambda>pr. pr_when pr \<le> k_mono K (ticks s)"
  show "ticks s \<le> ticks ?t" "shutdown_requested s \<Longrightarrow> shutdown_requested ?t" "keeps_fds s ?t"
    by (simp_all add: drain_pending_restarts_def Let_def split_def)
  show "um_get (processes s) q \<noteq> None \<or> (\<exists>n. ticks s \<le> n \<and> n < ticks ?t \<and> q = k_ret K n Fork)"
    if "um_get (processes ?t) q \<noteq> None" for q using that by (simp add: drain_result)
  assume inv: "process_inv s"
  let ?d = "mset (map pr_unit_name (filter ?due (pending_restarts s)))"
  have split: "mset (pending_restarts s) = mset (filter ?due (pending_restarts s)) + mset (filter (\<lambda>pr. \<not> ?due pr) (pending_restarts s))"
    using multiset_partition [of "mset (pending_restarts s)" ?due] by (simp add: mset_filter)
  then have "mset (map pr_unit_name (pending_restarts s)) = ?d + mset (map pr_unit_name (filter (\<lambda>pr. \<not> ?due pr) (pending_restarts s)))"
    by (metis image_mset_union mset_map)
  then have w: "sup_waiting (sup_abs s) = ?d + sup_waiting (sup_abs ?t)"
    by (simp add: drain_result)
  then have "sup_abs ?t = (sup_abs s)\<lparr>sup_waiting := sup_waiting (sup_abs s) - ?d\<rparr>"
    by (simp add: sup_abs_def drain_result)
  moreover have "?d \<subseteq># sup_waiting (sup_abs s)" using w by simp
  ultimately have "sup_step (sup_abs s) (sup_abs ?t)" by (metis sup_due)
  with drain_inv [OF inv] show "process_inv ?t \<and> sup_step\<^sup>*\<^sup>* (sup_abs s) (sup_abs ?t)" by simp
qed

text \<open>Entering a child under a pid that \<open>fork\<close> returned at request \<open>n\<close>.\<close>

lemma track_supervised:
  fixes s t :: "'a process_st_scheme"
  assumes n: "ticks s \<le> n" "n < ticks t" "0 < k_ret K n Fork" and flag: "shutdown_requested t = shutdown_requested s" "keeps_fds s t"
    and t: "processes t = um_put (k_ret K n Fork) tp (processes s)" "pending_restarts t = pending_restarts s"
    and inv: "process_inv s \<Longrightarrow> um_get (processes s) (k_ret K n Fork) = None \<Longrightarrow> process_inv t"
  shows "supervised K s t"
proof (rule supervisedI)
  show "ticks s \<le> ticks t" using n by simp
  show "shutdown_requested s \<Longrightarrow> shutdown_requested t" "keeps_fds s t" using flag by simp_all
  show "um_get (processes s) q \<noteq> None \<or> (\<exists>n. ticks s \<le> n \<and> n < ticks t \<and> q = k_ret K n Fork)"
    if "um_get (processes t) q \<noteq> None" for q
    using that n by (auto simp: t split: if_splits)
  fix N assume "ticks t \<le> N" "process_inv s" "pids_fresh K N s"
  then have none: "um_get (processes s) (k_ret K n Fork) = None" using n by (auto simp: pids_fresh_def)
  have "sup_abs t = (sup_abs s)\<lparr>sup_running := (sup_running (sup_abs s))(k_ret K n Fork \<mapsto> (tp_unit_name tp, tp_restart_policy tp))\<rparr>"
    by (simp add: sup_abs_def t fun_eq_iff)
  then have "sup_step (sup_abs s) (sup_abs t)"
    using sup_start [of "k_ret K n Fork" "sup_abs s"] n(3) none by simp
  with inv [OF \<open>process_inv s\<close> none] show "process_inv t \<and> sup_step\<^sup>*\<^sup>* (sup_abs s) (sup_abs t)" by simp
qed

lemma run_child_quiet: "quiet s (run_child K r s)"
proof -
  have "quiet s (fold (sys_do K) cs s)" for cs
    by (rule quiet.keeps_fold) (simp add: quiet_def)
  then show ?thesis by (simp add: run_child_def)
qed

lemma spawn_supervised: "supervised K s (snd (spawn K u path args pol bl bi ctx s))"
proof (cases "0 < k_ret K (ticks s) Fork")
  case True
  let ?p = "k_ret K (ticks s) Fork"
  obtain tp where tp: "processes (spawn_track pol bl bi ?p u (snd (sys K Fork s))) = um_put ?p tp (processes s)"
    using spawn_track.track_processes [of pol bl bi ?p u "snd (sys K Fork s)"] by auto
  have tk: "ticks (spawn_track pol bl bi ?p u t) = ticks t" "min_level (spawn_track pol bl bi ?p u t) = min_level t"
    "shutdown_requested (spawn_track pol bl bi ?p u t) = shutdown_requested t"
    "signal_fd (spawn_track pol bl bi ?p u t) = signal_fd t" "epoll_fd (spawn_track pol bl bi ?p u t) = epoll_fd t"
    for t :: "'a process_st_scheme" by (simp_all add: spawn_track_def Let_def)
  have t: "snd (spawn K u path args pol bl bi ctx s) =
      log_fmt K Info ''process'' ''Started {} (PID {})'' [u, show_int ?p] (spawn_track pol bl bi ?p u (snd (sys K Fork s)))"
    using True by (simp add: spawn_result Let_def)
  show ?thesis
    by (rule track_supervised [where n = "ticks s" and tp = tp])
       (use True spawn_inv [of s K u path args pol bl bi ctx] in \<open>simp_all add: t tp tk spawn_track.track_rest\<close>)
next
  case False
  have "quiet s (snd (sys K Fork s))" by (simp add: quiet_def)
  then have "quiet s (snd (spawn K u path args pol bl bi ctx s))"
    using False by (auto simp: spawn_result Let_def intro: quiet.keeps_trans run_child_quiet) (simp add: quiet_def)
  then show ?thesis by (rule quiet_supervised)
qed

lemma set_cloexec_quiet: "quiet s (set_cloexec_all K b fds s)"
  unfolding set_cloexec_all_def set_cloexec_def by (rule quiet.keeps_fold) (simp add: quiet_def Let_def split_def)

lemma quiet_simps:
  assumes "quiet s t"
  shows "processes t = processes s" "unit_to_pid t = unit_to_pid s" "pending_restarts t = pending_restarts s"
    "restart_counts t = restart_counts s" "ticks s \<le> ticks t"
  using assms by (simp_all add: quiet_def)

lemma spawn_with_socket_fds_supervised:
  fixes s :: "'a socket_st_scheme"
  shows "supervised K s (snd (spawn_with_socket_fds K u path args env restart ctx s))"
proof -
  let ?s1 = "set_cloexec_all K False (env_fds env) s" and ?S = "spawn_with_socket_fds K u path args env restart ctx s"
  let ?s2 = "snd (sys K Fork ?s1)" and ?p = "k_ret K (ticks ?s1) Fork"
  let ?s3 = "set_cloexec_all K True (env_fds env) ?s2"
  have q12: "quiet ?s1 ?s2" by (simp add: quiet_def)
  then have q: "quiet s ?s2" by (rule quiet.keeps_trans [OF set_cloexec_quiet])
  have q3: "quiet s ?s3" by (rule quiet.keeps_trans [OF q set_cloexec_quiet])
  show ?thesis
  proof (cases "0 < ?p")
    case True
    let ?l = "log_fmt K Info ''socket'' ''Socket-activated {} (PID {}, {} fd(s))''
        [u, show_int ?p, show_nat (length (env_fds env))] ?s3"
    have t: "snd ?S = track_process ?p u restart ?l"
      using True by (simp add: spawn_with_socket_fds_def Let_def split_def)
    have l: "quiet s ?l" using q3 by (simp add: quiet_def)
    obtain tp where tp: "processes (track_process ?p u restart ?l) = um_put ?p tp (processes s)"
      using track_process.track_processes [of ?p u restart ?l] quiet_simps(1) [OF l] by auto
    have tk: "ticks (track_process q u restart t) = ticks t"
      "shutdown_requested (track_process q u restart t) = shutdown_requested t"
      "signal_fd (track_process q u restart t) = signal_fd t" "epoll_fd (track_process q u restart t) = epoll_fd t"
      for q and t :: "'a socket_st_scheme"
      by (simp_all add: track_process_def Let_def)
    have cl: "shutdown_requested (set_cloexec_all K b fds t) = shutdown_requested t"
      "signal_fd (set_cloexec_all K b fds t) = signal_fd t" "epoll_fd (set_cloexec_all K b fds t) = epoll_fd t"
      for b fds and t :: "'a socket_st_scheme"
      by (simp_all add: set_cloexec_all_def set_cloexec_def fold_keeps Let_def split_def)
    have n: "ticks s \<le> ticks ?s1" "Suc (ticks ?s1) \<le> ticks ?s3"
      using quiet_simps(5) [OF set_cloexec_quiet, of s] quiet_simps(5) [OF set_cloexec_quiet, of ?s2] by simp_all
    have "process_inv (snd ?S)" if "process_inv s" "um_get (processes s) ?p = None"
    proof -
      have "process_inv ?l" by (rule process_inv_frame [OF that(1)]) (use quiet_simps [OF l] in auto)
      with that True quiet_simps(1) [OF l] show ?thesis unfolding t by (intro track_process.track_inv) auto
    qed
    then show ?thesis
      by (intro track_supervised [where n = "ticks ?s1" and tp = tp])
         (use True n tp quiet_simps [OF l] in \<open>simp_all add: t tk cl track_process.track_rest\<close>)
  next
    case False
    then have "quiet s (snd ?S)"
      using q q3 by (auto simp: spawn_with_socket_fds_def Let_def split_def intro: quiet.keeps_trans run_child_quiet)
    then show ?thesis by (rule quiet_supervised)
  qed
qed

section \<open>The whole main loop\<close>

lemma log_quiet [simp, intro]: "quiet s (log K l src m s)" "quiet s (log_fmt K l src f as s)"
  "quiet s (snd (sys K c s))" "quiet s (sys_do K c s)" "quiet s (tick s)"
  by (simp_all add: quiet_def)

lemma log_supervised: "supervised K' s (log K l src m s)" "supervised K' s (log_fmt K l src f as s)"
  "supervised K' s (snd (sys K c s))" "supervised K' s (sys_do K c s)" "supervised K' s (tick s)"
  by (rule quiet_supervised, simp)+

interpretation supervised: screen_contract "supervised K" K for K
  by unfold_locales (rule log_supervised | rule quiet_supervised, simp add: quiet_def)+

interpretation supervised: connection_contract "supervised K" K for K
  by unfold_locales
     (rule log_supervised spawn_supervised spawn_with_socket_fds_supervised apply_restart_count_supervised
        set_policy_supervised drain_supervised | rule quiet_supervised, simp add: quiet_def)+

interpretation supervised: loop_contract "supervised K" K for K
  by unfold_locales
     (rule reap_one_supervised stop_unit_supervised supervised.keeps_connection supervised.keeps_any_tui
      | (rule supervised.keeps_close_sockets)?, rule quiet_supervised, simp add: quiet_def)+

interpretation supervised: setup_contract "supervised K" K for K
  by unfold_locales (rule quiet_supervised, simp add: quiet_def)+

interpretation supervised: entry_contract "supervised K" K for K
  by unfold_locales (rule supervised.keeps_any_tui | rule quiet_supervised, simp add: quiet_def)+

end
