(* ===== verification/Whole_System.thy ===== *)
theory Whole_System
  imports Init_System Supervisor
begin

text \<open>
  Properties of the whole program: every phase of \<open>run\<close> keeps the supervisor's contract, so a
  complete run, from the first log line to the last, is a run of the abstract supervisor; and
  a shutdown signal ends the main loop.
\<close>

section \<open>A whole run\<close>

lemma supervised_refines: "supervised K s t \<Longrightarrow> refines K s t"
  by (simp add: supervised_def)

lemma quiet_refines: "quiet s t \<Longrightarrow> refines K s t"
  by (rule supervised_refines [OF quiet_supervised])

lemmas loop_refines = log_supervised supervised.keeps_spawn supervised.keeps_spawn_sockets supervised.keeps_restart_count
  supervised.keeps_policy supervised.keeps_drain supervised.keeps_reap_one supervised.keeps_stop
  supervised.keeps_shutdown_request supervised.keeps_chowned supervised.keeps_accept_ready supervised.keeps_close_all

interpretation refines: program_contract "refines K" K for K
  by unfold_locales
     (rule loop_refines [THEN supervised_refines] supervised.keeps_any_tui [THEN supervised_refines]
      | rule untouched_refines, simp add: untouched_def)+

lemma main_start_refines: "refines K init_system_new (main_start K)"
  by (rule quiet_refines) (simp add: main_start_def print_stderr_def quiet_def Let_def)

lemma run_refines:
  assumes "loop_head K junk it n t \<or> main_init n K junk it = Some ((fl, rc), t)"
  shows "refines K init_system_new t"
  by (rule refines.keeps_trans [OF main_start_refines refines.keeps_run [OF assms]])

section \<open>A shutdown signal ends the program\<close>

text \<open>
  At request \<open>i\<close>, \<open>epoll_wait\<close> reports the descriptor \<open>fd\<close>, and a read of the signalfd finds
  \<open>SIGTERM\<close> or \<open>SIGINT\<close>.
\<close>

definition signal_pending :: "kernel \<Rightarrow> fd \<Rightarrow> nat \<Rightarrow> bool" where
  "signal_pending K fd i \<longleftrightarrow>
     fd \<in> set (take (nat (min (fst (k_epoll K i)) 16)) (snd (k_epoll K i))) \<and>
     (SIGTERM \<in> set (k_signals K i) \<or> SIGINT \<in> set (k_signals K i))"

lemma supervisedD:
  assumes "supervised K s t"
  shows "ticks s \<le> ticks t" "shutdown_requested s \<Longrightarrow> shutdown_requested t"
    "signal_fd t = signal_fd s" "epoll_fd t = epoll_fd s"
  using assms by (simp_all add: supervised_def refines_def)

lemma events_shutdown:
  fixes s t :: "'a tui_st_scheme"
  assumes "flow_loop (socket_event K) fds s = (Returns, t)" and "signal_fd s \<in> set fds"
    and "\<forall>i\<ge>ticks s. SIGTERM \<in> set (k_signals K i) \<or> SIGINT \<in> set (k_signals K i)"
  shows "shutdown_requested t"
  using assms
proof (induction fds arbitrary: s)
  case (Cons fd fds)
  obtain fl s1 where e: "socket_event K fd s = (fl, s1)" by (cases "socket_event K fd s")
  have r: "fl = Returns" "flow_loop (socket_event K) fds s1 = (Returns, t)"
    using Cons.prems(1) e by (auto split: flow.splits)
  have s1: "supervised K s s1" using supervised.keeps_socket_event [of K s fd] e by simp
  show ?case
  proof (cases "fd = signal_fd s")
    case True
    then have "shutdown_requested s1"
      using e Cons.prems(3) by (auto simp: socket_event_def drain_signals_def drain_signals_fold)
    moreover have "supervised K s1 t"
      using supervised.keeps_flow_loop [of fds K "socket_event K" s1, OF supervised.keeps_socket_event] r by simp
    ultimately show ?thesis by (simp add: supervisedD)
  next
    case False
    with Cons.IH [OF r(2)] Cons.prems(2,3) supervisedD [OF s1] show ?thesis by auto
  qed
qed simp

lemma poll_shutdown:
  fixes s t :: "'a tui_st_scheme"
  assumes "poll_once_with_sockets K s = (Returns, t)" and "signal_pending K (signal_fd s) (ticks s)"
    and "\<forall>i\<ge>ticks s. SIGTERM \<in> set (k_signals K i) \<or> SIGINT \<in> set (k_signals K i)"
  shows "shutdown_requested t"
proof -
  obtain n fds where k: "k_epoll K (ticks s) = (n, fds)" by (cases "k_epoll K (ticks s)")
  have in_fds: "signal_fd s \<in> set (take (nat (min n 16)) fds)"
    using assms(2) k by (simp add: signal_pending_def)
  then have "0 < n" by (cases "0 < n") auto
  then have "flow_loop (socket_event K) (take (nat (min n 16)) fds) (tick s) = (Returns, t)"
    using assms(1) k by (simp add: poll_once_with_sockets_def epoll_wait_def min_less_iff_disj)
  then show ?thesis
    by (rule events_shutdown) (use in_fds assms(3) in auto)
qed

lemma turn_supervised: "supervised K s (snd (tui_turn K (maybe_fix_runtime_dirs K s)))"
  by (rule supervised.keeps_trans [OF supervised.keeps_maybe_fix supervised.keeps_tui_turn])

lemma loop_body_ticks: "ticks s < ticks (snd (loop_body K s))"
proof -
  obtain f1 s1 where 1: "poll_once_with_sockets K s = (f1, s1)" by (cases "poll_once_with_sockets K s")
  obtain f2 s2 where 2: "process_restarts K s1 = (f2, s2)" by (cases "process_restarts K s1")
  have "supervised K (tick s) (snd (flow_loop (socket_event K) fds (tick s)))" for fds
    by (rule supervised.keeps_flow_loop) (rule supervised.keeps_socket_event)
  then have "ticks (tick s) \<le> ticks (snd (flow_loop (socket_event K) fds (tick s)))" for fds
    by (rule supervisedD(1))
  then have "ticks s < ticks (snd (poll_once_with_sockets K s))"
    by (simp add: poll_once_with_sockets_def epoll_wait_def split_def Let_def Suc_le_eq)
  then have a: "ticks s < ticks s1" by (simp add: 1)
  have b: "ticks s1 \<le> ticks s2" using supervised.keeps_process_restarts [of K s1] 2 by (simp add: supervisedD(1))
  have "ticks s2 \<le> ticks (snd (tui_turn K (maybe_fix_runtime_dirs K s2)))"
    by (rule supervisedD(1) [OF turn_supervised])
  with a b show ?thesis
    by (simp add: loop_body_def 1 2 Let_def split_def split: flow.split)
qed

lemma loop_body_shutdown:
  assumes "loop_body K s = (Next, t)" and "signal_pending K (signal_fd s) (ticks s)"
    and "\<forall>i\<ge>ticks s. SIGTERM \<in> set (k_signals K i) \<or> SIGINT \<in> set (k_signals K i)"
  shows "shutdown_requested t"
proof -
  obtain s1 where 1: "poll_once_with_sockets K s = (Returns, s1)"
    using assms(1) by (auto simp: loop_body_def split: prod.splits flow.splits)
  obtain s2 where 2: "process_restarts K s1 = (Returns, s2)"
    using assms(1) 1 by (auto simp: loop_body_def split: prod.splits flow.splits)
  have t: "t = snd (tui_turn K (maybe_fix_runtime_dirs K s2))"
    using assms(1) 1 2 by (auto simp: loop_body_def Let_def split_def)
  have "shutdown_requested s2"
    using poll_shutdown [OF 1 assms(2,3)] supervisedD(2) [OF supervised.keeps_process_restarts [of K s1]] 2 by simp
  then show ?thesis unfolding t by (rule supervisedD(2) [OF turn_supervised])
qed

lemma main_loop_ends:
  assumes "\<forall>i\<ge>N. signal_pending K (signal_fd s) i"
  shows "\<exists>n. main_loop n K s \<noteq> None"
  using assms
proof (induction "N - ticks s" arbitrary: s rule: less_induct)
  case less
  obtain e t where b: "loop_body K s = (e, t)" by (cases "loop_body K s")
  have st: "main_loop (Suc n) K s = (if shutdown_requested s then Some (Returns, s)
      else case e of Next \<Rightarrow> main_loop n K t | Break \<Rightarrow> Some (Returns, t) | Ended fl \<Rightarrow> Some (fl, t))" for n
    by (simp add: main_loop.simps [of "Suc n"] b)
  have "\<exists>n. main_loop n K t \<noteq> None" if e: "e = Next"
  proof (cases "N \<le> ticks s")
    case True
    then have "shutdown_requested t"
      using loop_body_shutdown [of K s t] b e less.prems by (auto simp: signal_pending_def)
    then show ?thesis by (intro exI [of _ 0]) (simp add: main_loop.simps)
  next
    case False
    have "ticks s < ticks t" using loop_body_ticks [of s K] b by simp
    moreover have "signal_fd t = signal_fd s" using supervisedD(3) [OF supervised.keeps_loop_body [of K s]] b by simp
    ultimately show ?thesis using less.hyps [of t] less.prems False by simp
  qed
  then obtain n where "e = Next \<longrightarrow> main_loop n K t \<noteq> None" by blast
  then show ?case by (intro exI [of _ "Suc n"]) (auto simp: st split: loop_end.split)
qed

lemma or_return_ok: "or_return rs k = ((Returns, 0), t) \<Longrightarrow> fst rs = 0 \<and> k (snd rs) = ((Returns, 0), t)"
  by (cases rs) (simp add: or_return_def split: if_splits)

lemma signal_setup_fd:
  assumes "\<forall>n. k_ret K n (Signalfd [SIGCHLD, SIGTERM, SIGINT, SIGUSR1]) = fd" and "fst (execute_SignalSetup K s) = 0"
  shows "signal_fd (snd (execute_SignalSetup K s)) = fd"
  using assms by (auto simp: execute_SignalSetup_def Let_def split_def split: if_splits)

lemma boot_after_setup:
  assumes boot: "boot K junk it s = ((Returns, 0), t)"
  obtains u where "fst (execute_SignalSetup K u) = 0" "supervised K (snd (execute_SignalSetup K u)) t"
proof -
  let ?u = "snd (execute_EarlyMount K (log K Info ''init'' ''trivialInit starting'' s))"
  let ?s1 = "snd (execute_SignalSetup K ?u)"
  let ?s2 = "snd (execute_UnitDiscovery K ?s1)"
  let ?s3 = "snd (execute_UnitParse K junk ?s2)"
  let ?s4 = "snd (execute_SocketBind K ?s3)"
  let ?s5 = "snd (execute_DependencyResolve K (it (units ?s4)) ?s4)"
  have ok: "fst (execute_SignalSetup K ?u) = 0" and t: "t = snd (execute_UnitExecute K ?s5)"
    using boot by (auto simp: boot_def Let_def split_def dest!: or_return_ok)
  have "supervised K ?s1 t"
    unfolding t
    by (intro supervised.keeps_trans [OF _ supervised.keeps_execute_UnitExecute]
          supervised.keeps_trans [OF _ supervised.keeps_execute_DependencyResolve]
          supervised.keeps_trans [OF _ supervised.keeps_execute_SocketBind]
          supervised.keeps_trans [OF _ supervised.keeps_execute_UnitParse] supervised.keeps_execute_UnitDiscovery)
  with ok that show thesis by blast
qed

lemma boot_signal_fd:
  assumes fd: "\<forall>n. k_ret K n (Signalfd [SIGCHLD, SIGTERM, SIGINT, SIGUSR1]) = fd"
    and boot: "boot K junk it s = ((Returns, 0), t)"
  shows "signal_fd t = fd"
  using boot_after_setup [OF boot] signal_setup_fd [OF fd] supervisedD(3) by metis

lemma boot_fds:
  assumes "boot K junk it s = ((Returns, 0), t)"
  shows "0 \<le> signal_fd t \<and> 0 \<le> epoll_fd t"
proof -
  obtain u where u: "fst (execute_SignalSetup K u) = 0" "supervised K (snd (execute_SignalSetup K u)) t"
    using assms by (rule boot_after_setup)
  have "0 \<le> signal_fd (snd (execute_SignalSetup K u)) \<and> 0 \<le> epoll_fd (snd (execute_SignalSetup K u))"
    using u(1) by (auto simp: execute_SignalSetup_def Let_def split_def split: if_splits)
  with supervisedD(3,4) [OF u(2)] show ?thesis by simp
qed

lemma run_ends:
  assumes fd: "\<forall>n. k_ret K n (Signalfd [SIGCHLD, SIGTERM, SIGINT, SIGUSR1]) = fd"
    and sig: "\<forall>i\<ge>N. signal_pending K fd i"
  shows "\<exists>n. run n K junk it s \<noteq> None"
proof -
  obtain f1 r1 s1 where b: "boot K junk it s = ((f1, r1), s1)" by (cases "boot K junk it s") auto
  let ?s2 = "enter_loop K s1"
  have f: "signal_fd ?s2 = signal_fd s1" by (rule supervisedD(3) [OF supervised.keeps_enter_loop])
  have "\<exists>n. main_loop n K ?s2 \<noteq> None" if "f1 = Returns" "r1 = 0"
  proof (rule main_loop_ends [of N])
    have "signal_fd ?s2 = fd" using boot_signal_fd [OF fd, of junk it s s1] b that f by simp
    then show "\<forall>i\<ge>N. signal_pending K (signal_fd ?s2) i" using sig by simp
  qed
  then obtain n where "f1 = Returns \<and> r1 = 0 \<longrightarrow> main_loop n K ?s2 \<noteq> None" by blast
  then show ?thesis
    by (intro exI [of _ n]) (auto simp: run_loop b split: flow.split option.split)
qed

lemma main_init_ends:
  assumes fd: "\<forall>n. k_ret K n (Signalfd [SIGCHLD, SIGTERM, SIGINT, SIGUSR1]) = fd"
    and sig: "\<forall>i\<ge>N. signal_pending K fd i"
  shows "\<exists>n fl rc t. main_init n K junk it = Some ((fl, rc), t)"
proof -
  obtain n fl rc u where r: "run n K junk it (main_start K) = Some ((fl, rc), u)"
    using run_ends [OF fd sig, of junk it "main_start K"] by (auto split: option.splits)
  then have "\<exists>t. main_init n K junk it = Some ((fl, rc), t)"
    unfolding main_init_run by (cases fl) simp_all
  then show ?thesis by blast
qed


text \<open>
  A machine with one service, \<open>a.service\<close>, that is restarted whenever it exits, and a
  \<open>SIGTERM\<close> at the hundredth request.
\<close>

definition demo_machine_os :: osview where
  "demo_machine_os = no_os\<lparr>
     os_dir := (\<lambda>d. if d = ''/etc/systemd/system'' then Some [''a.service''] else None),
     os_stat := (\<lambda>p. if p = ''/etc/systemd/system'' then Some \<lparr>st_dev = 0, st_kind = Directory, st_size = 1\<rparr>
        else if p = ''/etc/systemd/system/a.service'' then Some \<lparr>st_dev = 0, st_kind = Regular, st_size = 1\<rparr> else None),
     os_file := (\<lambda>p. if p = ''/etc/systemd/system/a.service''
        then Some (''[Service]'' @ [CHR 0x0A] @ ''ExecStart=/bin/a -x'' @ [CHR 0x0A] @ ''Restart=always'' @ [CHR 0x0A]) else None)\<rparr>"

definition demo_machine :: kernel where
  "demo_machine = demo_kernel\<lparr>
     k_ret := (\<lambda>n c. case c of Fork \<Rightarrow> 100 + int n | Signalfd _ \<Rightarrow> 3 | Epoll_create \<Rightarrow> 4 | Getpid \<Rightarrow> 1 | _ \<Rightarrow> 0),
     k_view := (\<lambda>_. demo_machine_os), k_epoll := (\<lambda>_. (1, [3])),
     k_signals := (\<lambda>i. if i < 100 then [SIGCHLD] else [SIGCHLD, SIGTERM])\<rparr>"

lemma demo_machine_signal:
  "\<forall>n. k_ret demo_machine n (Signalfd [SIGCHLD, SIGTERM, SIGINT, SIGUSR1]) = 3"
  "\<forall>i\<ge>100. signal_pending demo_machine 3 i"
  by (simp_all add: demo_machine_def signal_pending_def)


section \<open>Refinement\<close>



end
