(* ===== verification/Plan.thy ===== *)
theory Plan
  imports Whole_System
begin

text \<open>
  The plan made at boot: the parsed units and the order in which they are started. Nothing
  after the phase \<open>DependencyResolve\<close> changes it, so the order in which services are stopped
  at shutdown is the reverse of a dependency order.
\<close>

definition same_plan :: "'a unit_exec_st_scheme \<Rightarrow> 'a unit_exec_st_scheme \<Rightarrow> bool" where
  "same_plan s t \<longleftrightarrow> units t = units s \<and> exec_order t = exec_order s"

interpretation same_plan: op_contract same_plan
  by unfold_locales (simp_all add: same_plan_def)

interpretation same_plan: screen_contract same_plan K for K
  by unfold_locales (simp_all add: same_plan_def)

interpretation same_plan: table_contract same_plan K for K
  by unfold_locales (simp add: same_plan_def)

interpretation same_plan: plain_contract same_plan K for K
  by unfold_locales (rule same_plan.keeps_any_tui | (rule same_plan.keeps_close_sockets)?, simp add: same_plan_def)+

interpretation same_plan: early_contract same_plan K for K
  by unfold_locales (simp_all add: same_plan_def)

interpretation same_plan: entry_contract same_plan K for K
  by unfold_locales (rule same_plan.keeps_any_tui | simp add: same_plan_def)+

interpretation same_plan: later_contract same_plan K for K
  by unfold_locales

section \<open>The order is a dependency order throughout\<close>

text \<open>Every unit comes after the units its \<open>After=\<close> and \<open>Requires=\<close> name.\<close>

definition ordered_plan :: "'a unit_exec_st_scheme \<Rightarrow> bool" where
  "ordered_plan s \<longleftrightarrow>
     distinct (exec_order s) \<and> set (exec_order s) \<subseteq> set (um_keys (units s)) \<and>
     (\<forall>i < length (exec_order s). \<forall>u d.
        um_get (units s) (exec_order s ! i) = Some u \<longrightarrow> d \<in> set (uf_after u) \<union> set (uf_requires u) \<longrightarrow>
        um_get (units s) d \<noteq> None \<longrightarrow> d \<in> set (take i (exec_order s)))"

text \<open>A walk over the in-degree table: any order, every name once.\<close>

definition table_walk :: "((string, unit_file) umap \<Rightarrow> string list) \<Rightarrow> bool" where
  "table_walk it \<longleftrightarrow> (\<forall>us. um_wf us \<longrightarrow> distinct (it us) \<and> set (it us) = set (um_keys us))"

lemma parse_order: "exec_order (snd (execute_UnitParse K junk s)) = exec_order s"
proof -
  have "exec_order (parse_path K junk p t) = exec_order t" for p and t :: "'a unit_exec_st_scheme"
    by (simp add: parse_path_def Let_def)
  then show ?thesis by (simp add: execute_UnitParse_def Let_def fold_keeps)
qed

lemma resolve_ordered:
  assumes "um_wf (units s)" "table_walk it"
  shows "ordered_plan (snd (execute_DependencyResolve K (it (units s)) s))"
proof -
  let ?it = "it (units s)" and ?o = "dependency_order (it (units s)) (units s)"
  have it: "distinct ?it" "set ?it = set (um_keys (units s))" using assms by (auto simp: table_walk_def)
  note F = order_facts [OF assms(1) it]
  have "d \<in> set (take i ?o)"
    if "i < length ?o" "um_get (units s) (?o ! i) = Some u" "d \<in> set (uf_after u) \<union> set (uf_requires u)"
      "um_get (units s) d \<noteq> None" for i u d
    by (rule F(3) [OF that(1)]) (use that in \<open>auto simp: dep_rel_def\<close>)
  then show ?thesis
    using F(1,2) by (auto simp: ordered_plan_def execute_DependencyResolve_def Let_def)
qed

lemma ordered_plan_cong: "same_plan s t \<Longrightarrow> ordered_plan t = ordered_plan s"
  by (simp add: same_plan_def ordered_plan_def)

definition plan_ok :: "'a unit_exec_st_scheme \<Rightarrow> bool" where
  "plan_ok s \<longleftrightarrow> ordered_plan s \<and> units_ok s"

lemma plan_ok_cong: "same_plan s t \<Longrightarrow> plan_ok t = plan_ok s"
  by (simp add: same_plan_def ordered_plan_def units_ok_def plan_ok_def)

lemma or_return_keeps: "\<lbrakk>P (snd rs); P (snd (k (snd rs)))\<rbrakk> \<Longrightarrow> P (snd (or_return rs k))"
  by (cases rs) (simp add: or_return_def)

lemma boot_plan:
  assumes it: "table_walk it" and s: "plan_ok s" "exec_order s = []"
  shows "plan_ok (snd (boot K junk it s))"
proof -
  let ?P = "\<lambda>t :: 'a tui_st_scheme. units_ok t \<and> exec_order t = []"
  have ok: "plan_ok t" if "?P t" for t using that by (simp add: plan_ok_def ordered_plan_def)
  let ?s0 = "log K Info ''init'' ''trivialInit starting'' s"
  let ?s1 = "snd (execute_EarlyMount K ?s0)"
  let ?s2 = "snd (execute_SignalSetup K ?s1)"
  let ?s3 = "snd (execute_UnitDiscovery K ?s2)"
  let ?s4 = "snd (execute_UnitParse K junk ?s3)"
  let ?s5 = "snd (execute_SocketBind K ?s4)"
  let ?s6 = "snd (execute_DependencyResolve K (it (units ?s5)) ?s5)"
  have keep: "?P u" if "?P t" "same_plan t u" for t u using that by (simp add: same_plan_def units_ok_def)
  have "?P ?s0" using s by (simp add: plan_ok_def units_ok_def)
  from keep [OF this same_plan.keeps_execute_EarlyMount] have 1: "?P ?s1" .
  then have 2: "?P ?s2" by (auto simp: execute_SignalSetup_def Let_def split_def units_ok_def)
  from keep [OF this same_plan.keeps_execute_UnitDiscovery] have 3: "?P ?s3" .
  have "units_ok (log K Info ''parser'' ''Parsing unit files'' ?s3)" using 3 by (simp add: units_ok_def)
  from parse_paths [OF this] have 4: "?P ?s4"
    using 3 parse_order [of K junk ?s3] by (simp add: execute_UnitParse_def Let_def units_ok_def)
  from keep [OF this same_plan.keeps_execute_SocketBind] have 5: "?P ?s5" .
  have "ordered_plan ?s6" using 5 by (intro resolve_ordered it) (simp add: units_ok_def)
  moreover have "units_ok ?s6" using 5 by (simp add: units_ok_def execute_DependencyResolve_def Let_def)
  ultimately have 6: "plan_ok ?s6" by (simp add: plan_ok_def)
  then have 7: "plan_ok (snd (execute_UnitExecute K ?s6))" by (simp add: plan_ok_cong [OF same_plan.keeps_execute_UnitExecute])
  show ?thesis
    unfolding boot_def Let_def split_def
    by (intro or_return_keeps [where P = plan_ok] ok [OF 1] ok [OF 2] ok [OF 3] ok [OF 4] ok [OF 5] 6) (simp add: 7)
qed



end
