(* ===== verification/Descriptors.thy ===== *)
theory Descriptors
  imports Sockets
begin

text \<open>
  Descriptors are not leaked while sockets are bound (\<open>create_and_bind\<close> and what it calls, in
  \<open>src/include/trivialInit/mixins/socket.hpp\<close>): every descriptor the kernel hands out is either
  the result or has been closed.
\<close>

text \<open>Requests that hand out a descriptor, and what the requests \<open>cs\<close>, made from request number
  \<open>n\<close> on, opened and closed.\<close>

definition hands_out :: "syscall \<Rightarrow> bool" where
  "hands_out c = (case c of Socket_create _ _ _ \<Rightarrow> True | Open_rdwr _ \<Rightarrow> True | Mq_open _ _ \<Rightarrow> True | _ \<Rightarrow> False)"

fun opened :: "kernel \<Rightarrow> nat \<Rightarrow> syscall list \<Rightarrow> fd list" where
  "opened K n [] = []"
| "opened K n (c # cs) =
     (if hands_out c \<and> 0 \<le> k_ret K n c then [k_ret K n c] else []) @ opened K (Suc n) cs"

fun closed :: "syscall list \<Rightarrow> fd list" where
  "closed [] = []"
| "closed (c # cs) = (case c of Close fd \<Rightarrow> [fd] | _ \<Rightarrow> []) @ closed cs"

lemma opened_append: "opened K n (cs @ ds) = opened K n cs @ opened K (n + length cs) ds"
  by (induction cs arbitrary: n) simp_all

lemma closed_append: "closed (cs @ ds) = closed cs @ closed ds"
  by (induction cs) simp_all

text \<open>Between \<open>s\<close> and \<open>t\<close> exactly \<open>os\<close> was opened and \<open>cl\<close> closed.\<close>

definition fd_effect :: "kernel \<Rightarrow> 'a kst_scheme \<Rightarrow> 'a kst_scheme \<Rightarrow> fd list \<Rightarrow> fd list \<Rightarrow> bool" where
  "fd_effect K s t os cl \<longleftrightarrow>
     (\<exists>cs. trace t = trace s @ cs \<and> ticks t = ticks s + length cs \<and> opened K (ticks s) cs = os \<and> closed cs = cl)"

lemma fd_effect_refl: "fd_effect K s s [] []"
  by (auto simp: fd_effect_def intro: exI [of _ "[]"])

lemma fd_effect_trans:
  assumes "fd_effect K s t os cl" "fd_effect K t u os' cl'"
  shows "fd_effect K s u (os @ os') (cl @ cl')"
proof -
  obtain cs ds where "trace t = trace s @ cs" "ticks t = ticks s + length cs" "opened K (ticks s) cs = os" "closed cs = cl"
    "trace u = trace t @ ds" "ticks u = ticks t + length ds" "opened K (ticks t) ds = os'" "closed ds = cl'"
    using assms by (auto simp: fd_effect_def)
  then show ?thesis
    by (auto simp: fd_effect_def opened_append closed_append intro!: exI [of _ "cs @ ds"])
qed

lemma fd_effect_sys:
  "fd_effect K s (snd (sys K c s)) (if hands_out c \<and> 0 \<le> k_ret K (ticks s) c then [k_ret K (ticks s) c] else [])
     (case c of Close fd \<Rightarrow> [fd] | _ \<Rightarrow> [])"
  by (auto simp: fd_effect_def intro!: exI [of _ "[c]"] split: syscall.split)

text \<open>A request about a descriptor that neither opens nor closes one.\<close>

definition plain_request :: "syscall \<Rightarrow> bool" where
  "plain_request c \<longleftrightarrow> \<not> hands_out c \<and> (case c of Close _ \<Rightarrow> False | _ \<Rightarrow> True)"

lemma fd_effect_plain:
  assumes "plain_request c" and "fd_effect K s t os cl"
  shows "fd_effect K s (snd (sys K c t)) os cl" "fd_effect K s (sys_do K c t) os cl"
proof -
  have "(case c of Close fd \<Rightarrow> [fd] | _ \<Rightarrow> []) = []" using assms(1) by (cases c) (auto simp: plain_request_def)
  with fd_effect_trans [OF assms(2) fd_effect_sys [of K t c]] assms(1)
  show "fd_effect K s (snd (sys K c t)) os cl" "fd_effect K s (sys_do K c t) os cl"
    by (simp_all add: plain_request_def sys_do_def)
qed

lemma fd_effect_close: "fd_effect K s t os cl \<Longrightarrow> fd_effect K s (sys_do K (Close fd) t) os (cl @ [fd])"
  using fd_effect_trans [OF _ fd_effect_sys [of K t "Close fd"]] by (fastforce simp: sys_do_def hands_out_def)

lemma fd_effect_open:
  "hands_out c \<Longrightarrow> fd_effect K s t os cl \<Longrightarrow> k_ret K (ticks t) c < 0 \<Longrightarrow> fd_effect K s (snd (sys K c t)) os cl"
  "hands_out c \<Longrightarrow> fd_effect K s t os cl \<Longrightarrow> 0 \<le> k_ret K (ticks t) c \<Longrightarrow>
     fd_effect K s (snd (sys K c t)) (os @ [k_ret K (ticks t) c]) cl"
proof -
  assume c: "hands_out c" and e: "fd_effect K s t os cl"
  have "(case c of Close fd \<Rightarrow> [fd] | _ \<Rightarrow> []) = []" using c by (cases c) (auto simp: hands_out_def)
  with fd_effect_trans [OF e fd_effect_sys [of K t c]] c
  show "k_ret K (ticks t) c < 0 \<Longrightarrow> fd_effect K s (snd (sys K c t)) os cl"
    "0 \<le> k_ret K (ticks t) c \<Longrightarrow> fd_effect K s (snd (sys K c t)) (os @ [k_ret K (ticks t) c]) cl"
    by auto
qed

text \<open>
  What an operation that returns a descriptor promises: on success exactly the result is left
  open, on failure nothing.
\<close>

definition no_leak :: "kernel \<Rightarrow> 'a kst_scheme \<Rightarrow> int \<times> 'a kst_scheme \<Rightarrow> bool" where
  "no_leak K s r \<longleftrightarrow>
     (if 0 \<le> fst r then fd_effect K s (snd r) [fst r] [] else \<exists>os. fd_effect K s (snd r) os os)"

lemma apply_opts_fds: "fd_effect K s t os cl \<Longrightarrow> fd_effect K s (apply_opts K fd u t) os cl"
  unfolding apply_opts_def
  by (rule fold_inv [where P = "\<lambda>t. fd_effect K s t os cl"])
     (auto intro!: fd_effect_plain(2) simp: plain_request_def hands_out_def)

lemma or_close_no_leak:
  assumes t: "fd_effect K s t [fd] []" and c: "plain_request c"
    and k: "\<And>u. fd_effect K s u [fd] [] \<Longrightarrow> no_leak K s (k u)"
  shows "no_leak K s (or_close K fd c k t)"
proof (cases "k_ret K (ticks t) c < 0")
  case True
  have "fd_effect K s (sys_do K (Close fd) (snd (sys K c t))) [fd] ([] @ [fd])"
    by (rule fd_effect_close [OF fd_effect_plain(1) [OF c t]])
  with True show ?thesis by (auto simp: or_close_def no_leak_def split_def Let_def)
next
  case False
  with k [OF fd_effect_plain(1) [OF c t]] show ?thesis by (simp add: or_close_def split_def Let_def)
qed

lemma finish_no_leak:
  assumes "0 \<le> fd" and t: "fd_effect K s t [fd] []"
  shows "no_leak K s (finish_listen K fd sock le t)"
proof -
  have "no_leak K s (or_close K fd (Listen fd (su_backlog sock)) (\<lambda>s. (fd, s)) t)"
    by (rule or_close_no_leak [OF t]) (use assms in \<open>auto simp: plain_request_def hands_out_def no_leak_def\<close>)
  with assms show ?thesis by (simp add: finish_listen_def no_leak_def)
qed

lemma failed_no_leak: "r < 0 \<Longrightarrow> fd_effect K s t os os \<Longrightarrow> no_leak K s (r, t)"
  by (auto simp: no_leak_def)

lemmas plain_calls = plain_request_def hands_out_def

lemma bind_unix_no_leak: "no_leak K s (bind_unix K sock le s)"
proof -
  let ?c = "Socket_create AF_UNIX (sock_type le) 0"
  let ?fd = "k_ret K (ticks s) ?c" and ?s1 = "snd (sys K ?c s)"
  have o: "hands_out ?c" by (simp add: hands_out_def)
  show ?thesis
  proof (cases "?fd < 0")
    case True
    have "fd_effect K s ?s1 [] []" by (rule fd_effect_open(1) [OF o fd_effect_refl True])
    with True show ?thesis by (simp add: bind_unix_def Let_def split_def failed_no_leak)
  next
    case False
    let ?s2 = "apply_opts K ?fd sock ?s1" and ?addr = "le_address le"
    have "fd_effect K s ?s1 ([] @ [?fd]) []" by (rule fd_effect_open(2) [OF o fd_effect_refl]) (use False in simp)
    then have 2: "fd_effect K s ?s2 [?fd] []" by (simp add: apply_opts_fds)
    have f: "no_leak K s (finish_listen K ?fd sock le u)" if "fd_effect K s u [?fd] []" for u :: "'a kst_scheme"
      by (rule finish_no_leak [OF _ that]) (use False in simp)
    have abst: "no_leak K s (or_close K ?fd (Bind_unix ?fd a b l) (finish_listen K ?fd sock le) ?s2)" for a b l
      by (rule or_close_no_leak [OF 2]) (simp_all add: plain_calls f)
    have path: "no_leak K s (or_close K ?fd (Bind_unix ?fd a b l)
        (\<lambda>s. finish_listen K ?fd sock le (sys_do K (Chmod p m) s)) u)" if "fd_effect K s u [?fd] []" for a b l p m u
      by (rule or_close_no_leak [OF that]) (simp_all add: plain_calls f fd_effect_plain)
    have 3: "fd_effect K s (sys_do K (Unlink p) ?s2) [?fd] []" "fd_effect K s (sys_do K (Mkdir d m) (sys_do K (Unlink p) ?s2)) [?fd] []" for p d m
      by (simp_all add: fd_effect_plain plain_calls 2)
    show ?thesis
      using False abst path [OF 3(1)] path [OF 3(2)]
      by (auto simp: bind_unix_def Let_def split_def split: option.split)
  qed
qed

lemma bind_inet_no_leak: "no_leak K s (bind_inet K sock le s)"
proof -
  obtain host port where hp: "parse_inet_addr (le_address le) = (host, port)" by (cases "parse_inet_addr (le_address le)")
  let ?c6 = "Socket_create AF_INET6 (sock_type le) 0" and ?c4 = "Socket_create AF_INET (sock_type le) 0"
  have o: "hands_out ?c6" "hands_out ?c4" by (simp_all add: hands_out_def)
  have fin: "no_leak K s (or_close K fd c (finish_listen K fd sock le) (apply_opts K fd sock u))"
    if "0 \<le> fd" "fd_effect K s u [fd] []" "plain_request c" for fd c and u :: "'a kst_scheme"
    by (rule or_close_no_leak [OF apply_opts_fds [OF that(2)] that(3)]) (rule finish_no_leak [OF that(1)])
  have v4: "k_ret K (ticks u) ?c4 < 0 \<Longrightarrow> no_leak K s (-1, snd (sys K ?c4 u))"
    "\<not> k_ret K (ticks u) ?c4 < 0 \<Longrightarrow> no_leak K s (or_close K (k_ret K (ticks u) ?c4) (Bind_inet4 (k_ret K (ticks u) ?c4) p h)
       (finish_listen K (k_ret K (ticks u) ?c4) sock le) (apply_opts K (k_ret K (ticks u) ?c4) sock (snd (sys K ?c4 u))))"
    if e: "fd_effect K s u [] []" for p h and u :: "'a kst_scheme"
    using fd_effect_open [OF o(2) e] by (simp_all add: failed_no_leak fin plain_calls)
  have v6: "no_leak K s (or_close K fd (Bind_inet6 fd p h) (finish_listen K fd sock le) (apply_opts K fd sock u))"
    "no_leak K s (or_close K fd (Bind_inet6 fd p h) (finish_listen K fd sock le) (apply_opts K fd sock (sys_do K (Setsockopt fd x v) u)))"
    if "0 \<le> fd" "fd_effect K s u [fd] []" for fd p h x v and u :: "'a kst_scheme"
    by (rule fin [OF that(1)]; simp add: plain_calls that fd_effect_plain)+
  show ?thesis
  proof (cases "port = 0")
    case True
    then show ?thesis by (simp add: bind_inet_def hp failed_no_leak [OF _ fd_effect_refl])
  next
    case p: False
    show ?thesis
    proof (cases "host = [] \<or> CHR '':'' \<in> set host")
      case False
      with p v4 [OF fd_effect_refl] show ?thesis by (auto simp: bind_inet_def hp Let_def split_def)
    next
      case 6: True
      show ?thesis
      proof (cases "k_ret K (ticks s) ?c6 < 0")
        case True
        with 6 p v4 [OF fd_effect_open(1) [OF o(1) fd_effect_refl True]] show ?thesis
          by (auto simp: bind_inet_def hp Let_def split_def)
      next
        case False
        then have "fd_effect K s (snd (sys K ?c6 s)) [k_ret K (ticks s) ?c6] []"
          using fd_effect_open(2) [OF o(1) fd_effect_refl, of K s] by simp
        with 6 p False v6 show ?thesis by (auto simp: bind_inet_def hp Let_def split_def)
      qed
    qed
  qed
qed

lemma bind_netlink_no_leak: "no_leak K s (bind_netlink K le s)"
proof -
  obtain fam grp where a: "netlink_addr (le_address le) = (fam, grp)" by (cases "netlink_addr (le_address le)")
  let ?c = "Socket_create AF_NETLINK SOCK_RAW fam"
  have o: "hands_out ?c" by (simp add: hands_out_def)
  show ?thesis
  proof (cases "k_ret K (ticks s) ?c < 0")
    case True
    with fd_effect_open(1) [OF o fd_effect_refl True] show ?thesis
      by (simp add: bind_netlink_def a Let_def split_def failed_no_leak)
  next
    case False
    then have e: "fd_effect K s (snd (sys K ?c s)) [k_ret K (ticks s) ?c] []"
      using fd_effect_open(2) [OF o fd_effect_refl, of K s] by simp
    have "no_leak K s (or_close K (k_ret K (ticks s) ?c) (Bind_netlink (k_ret K (ticks s) ?c) grp)
        (\<lambda>s. (k_ret K (ticks s0) ?c, s)) (snd (sys K ?c s)))" if "s0 = s" for s0
      by (rule or_close_no_leak [OF e]) (use that False in \<open>simp_all add: plain_calls no_leak_def\<close>)
    with False show ?thesis by (simp add: bind_netlink_def a Let_def split_def)
  qed
qed

lemma open_no_leak:
  assumes "hands_out c" "fd_effect K s t [] []"
  shows "no_leak K s (sys K c t)"
proof (cases "k_ret K (ticks t) c < 0")
  case True
  with fd_effect_open(1) [OF assms True] show ?thesis by (auto simp: no_leak_def)
next
  case False
  with fd_effect_open(2) [OF assms] show ?thesis by (simp add: no_leak_def)
qed

text \<open>C18: binding a listening socket leaks no descriptor, whichever kind it is and wherever it fails: if
  it succeeds, the descriptor it returns is the only one obtained from the kernel and it has
  not been closed; if it fails, every descriptor obtained on the way has been closed, once.\<close>

theorem create_and_bind_no_leak:
  "let r = create_and_bind K sock le s; cs = drop (length (trace s)) (trace (snd r))
   in trace (snd r) = trace s @ cs \<and>
      (if 0 \<le> fst r then opened K (ticks s) cs = [fst r] \<and> closed cs = []
       else opened K (ticks s) cs = closed cs)"
proof -
  have fifo: "no_leak K s (create_fifo K sock le s)"
  proof -
    let ?u = "sys_do K (Unlink (le_address le)) s" and ?m = "Mkfifo (le_address le) (mode_of (su_socket_mode sock))"
    have e: "fd_effect K s (snd (sys K ?m ?u)) [] []"
      by (intro fd_effect_plain fd_effect_refl) (simp_all add: plain_calls)
    then have "no_leak K s (-1, snd (sys K ?m ?u))" "no_leak K s (sys K (Open_rdwr (le_address le)) (snd (sys K ?m ?u)))"
      by (simp_all add: failed_no_leak open_no_leak hands_out_def)
    then show ?thesis by (simp add: create_fifo_def Let_def split_def)
  qed
  have "no_leak K s (create_and_bind K sock le s)"
    by (simp add: create_and_bind_def open_special_def open_mqueue_def hands_out_def fifo bind_unix_no_leak
         bind_inet_no_leak bind_netlink_no_leak open_no_leak [OF _ fd_effect_refl] split: listen_type.split)
  then show ?thesis
    by (auto simp: no_leak_def fd_effect_def Let_def split: if_splits)
qed

end
