(* ===== verification/Terminal.thy ===== *)
theory Terminal
  imports Contracts
begin

text \<open>
  The terminal is used by the rules of its library over a whole run: windows are created and
  deleted in pairs, nothing is drawn on a deleted window, and when the program returns the
  terminal is out of visual mode.
\<close>

section \<open>The windows of the interface\<close>

definition own_windows :: "'a tui_st_scheme \<Rightarrow> nat list" where
  "own_windows s = List.map_filter id [header_win s, main_win s, status_win s]"

lemma own_windows_set: "n \<in> set (own_windows s) \<longleftrightarrow> Some n \<in> {header_win s, main_win s, status_win s}"
  by (force simp: own_windows_def List.map_filter_def image_iff)

definition screen_of :: "'a tui_st_scheme \<Rightarrow> screen option" where
  "screen_of s = curses_run (tui_calls s) (Never_started, [])"

text \<open>
  While the interface is active the terminal is in visual mode and the windows that exist are
  its own, created by earlier requests; otherwise no window exists.
\<close>

definition tui_inv :: "'a tui_st_scheme \<Rightarrow> bool" where
  "tui_inv s \<longleftrightarrow>
     (if tui_active s
      then screen_of s = Some (Visual, rev (own_windows s)) \<and> distinct (own_windows s) \<and>
           (\<forall>n\<in>set (own_windows s). n < ticks s)
      else \<exists>m. screen_of s = Some (m, []) \<and> m \<noteq> Visual)"

text \<open>Everything below the interface leaves its members alone and time only passes.\<close>

definition tui_frame :: "'a tui_st_scheme \<Rightarrow> 'a tui_st_scheme \<Rightarrow> bool" where
  "tui_frame s t \<longleftrightarrow> ticks s \<le> ticks t \<and> unit_exec_st.more t = unit_exec_st.more s"

interpretation tui_frame: op_contract tui_frame
  by unfold_locales (auto simp: tui_frame_def)

interpretation tui_frame: base_contract tui_frame K for K
  by unfold_locales (simp_all add: tui_frame_def log_def)

interpretation tui_frame: table_contract tui_frame K for K
  by unfold_locales (simp add: tui_frame_def)

interpretation tui_frame: connection_contract tui_frame K for K
  by unfold_locales (simp_all add: tui_frame_def)

interpretation tui_frame: boot_contract tui_frame K for K
  by unfold_locales (simp_all add: tui_frame_def)

interpretation tui_frame: accept_contract tui_frame K for K
  by unfold_locales (simp add: tui_frame_def)

lemma tui_inv_frame: "tui_frame s t \<Longrightarrow> tui_inv s \<Longrightarrow> tui_inv t"
proof -
  assume f: "tui_frame s t" and s: "tui_inv s"
  note m = tui_fields_more [of t s] and k = f [unfolded tui_frame_def]
  have "own_windows t = own_windows s" "screen_of t = screen_of s" "tui_active t = tui_active s"
    using m k by (simp_all add: own_windows_def screen_of_def)
  moreover have "\<forall>n. n < ticks s \<longrightarrow> n < ticks t" using k by auto
  ultimately show ?thesis using s by (simp add: tui_inv_def)
qed

lemma tui_inv_updates [simp]:
  "tui_inv (s\<lparr>current_tab := x\<rparr>) = tui_inv s" "tui_inv (s\<lparr>scroll_offset := i\<rparr>) = tui_inv s"
  "tui_inv (s\<lparr>selected_row := i\<rparr>) = tui_inv s" "tui_inv (s\<lparr>svc_scroll := i\<rparr>) = tui_inv s"
  by (simp_all add: tui_inv_def own_windows_def screen_of_def)

section \<open>Calls\<close>

lemma screen_of_curses:
  "screen_of (curses cs s) = (case screen_of s of None \<Rightarrow> None | Some x \<Rightarrow> curses_run cs x)"
  by (simp add: screen_of_def curses_def curses_run_append)

lemma curses_frame [simp]:
  "ticks (curses cs s) = ticks s" "tui_active (curses cs s) = tui_active s" "own_windows (curses cs s) = own_windows s"
  "header_win (curses cs s) = header_win s" "main_win (curses cs s) = main_win s" "status_win (curses cs s) = status_win s"
  by (simp_all add: curses_def own_windows_def)

lemma screen_of_cong: "tui_calls t = tui_calls s \<Longrightarrow> screen_of t = screen_of s"
  by (simp add: screen_of_def)

lemma delete_windows_screen:
  assumes "screen_of s = Some (Visual, rev (own_windows s))" "distinct (own_windows s)"
  shows "screen_of (delete_windows s) = Some (Visual, [])"
  using assms unfolding delete_windows_def screen_of_curses own_windows_def
  by (cases "header_win s"; cases "main_win s"; cases "status_win s")
     (auto simp: List.map_filter_simps)

lemma create_windows_inv:
  assumes "screen_of s = Some (Visual, [])"
  shows "screen_of (create_windows K s) = Some (Visual, rev (own_windows (create_windows K s)))"
    "distinct (own_windows (create_windows K s))" "\<forall>n\<in>set (own_windows (create_windows K s)). n < ticks (create_windows K s)"
    "tui_active (create_windows K s) = tui_active s"
proof -
  let ?a = "if k_newwin K (Suc (ticks s)) then Some (Suc (ticks s)) else None"
  let ?b = "if k_newwin K (Suc (Suc (ticks s))) then Some (Suc (Suc (ticks s))) else None"
  let ?c = "if k_newwin K (Suc (Suc (Suc (ticks s)))) then Some (Suc (Suc (Suc (ticks s)))) else None"
  let ?h = "fst (k_winsize K (ticks s))" and ?w = "snd (k_winsize K (ticks s))"
  have calls: "tui_calls (create_windows K s) =
      tui_calls s @ [Newwin 3 ?w 0 0 ?a, Newwin (?h - 6) ?w 3 0 ?b, Newwin 3 ?w (?h - 3) 0 ?c]"
    and wins: "header_win (create_windows K s) = ?a" "main_win (create_windows K s) = ?b"
      "status_win (create_windows K s) = ?c"
    and t: "ticks (create_windows K s) = ticks s + 4" and act: "tui_active (create_windows K s) = tui_active s"
    by (simp_all add: window_defs)
  have own: "own_windows (create_windows K s) = List.map_filter id [?a, ?b, ?c]"
    by (simp add: own_windows_def wins)
  have "curses_run [Newwin 3 ?w 0 0 ?a, Newwin (?h - 6) ?w 3 0 ?b, Newwin 3 ?w (?h - 3) 0 ?c] (Visual, []) =
      Some (Visual, rev (List.map_filter id [?a, ?b, ?c]))"
    by (simp add: List.map_filter_simps)
  with assms show "screen_of (create_windows K s) = Some (Visual, rev (own_windows (create_windows K s)))"
    unfolding own by (simp add: screen_of_def calls curses_run_append)
  show "distinct (own_windows (create_windows K s))" "\<forall>n\<in>set (own_windows (create_windows K s)). n < ticks (create_windows K s)"
    "tui_active (create_windows K s) = tui_active s"
    unfolding own t by (simp_all add: List.map_filter_simps act)
qed

lemma start_inv:
  assumes "tui_calls s = []" "\<not> tui_active s"
  shows "tui_inv (snd (execute_TuiStart K s))" "tui_inv (snd (init_tui K s))" "tui_active (snd (init_tui K s))"
proof -
  have i: "tui_inv (snd (init_tui K t)) \<and> tui_active (snd (init_tui K t))" if "tui_calls t = []" for t :: "'a tui_st_scheme"
  proof -
    define u where "u = curses [Initscr, Cbreak, Noecho, Curs_set 0, Keypad True, Nodelay True,
                Start_color, Use_default_colors,
                Init_pair 1 COLOR_GREEN (-1), Init_pair 2 COLOR_RED (-1),
                Init_pair 3 COLOR_YELLOW (-1), Init_pair 4 COLOR_CYAN (-1),
                Init_pair 5 COLOR_WHITE (-1), Init_pair 6 COLOR_MAGENTA (-1),
                Init_pair 7 COLOR_BLACK COLOR_CYAN] t"
    have "screen_of u = Some (Visual, [])"
      using that unfolding u_def screen_of_curses by (simp add: screen_of_def)
    note C = create_windows_inv [OF this, of K]
    have e: "snd (init_tui K t) = (create_windows K u)\<lparr>tui_active := True\<rparr>"
      by (simp add: init_tui_def u_def Let_def)
    have "own_windows (x\<lparr>tui_active := True\<rparr>) = own_windows x" "screen_of (x\<lparr>tui_active := True\<rparr>) = screen_of x"
      for x :: "'a tui_st_scheme" by (simp_all add: own_windows_def screen_of_def)
    with C show ?thesis unfolding e by (simp add: tui_inv_def)
  qed
  show "tui_inv (snd (init_tui K s))" "tui_active (snd (init_tui K s))" using i [of s] assms by simp_all
  have "tui_inv (tick s)" using assms by (simp add: tui_inv_def screen_of_def)
  with i [of "log K Info ''tui'' ''Initializing TUI'' (tick s)"] assms(1)
  show "tui_inv (snd (execute_TuiStart K s))" by (auto simp: execute_TuiStart_def)
qed

section \<open>Drawing, keys and leaving\<close>

lemma draws_curses:
  assumes "tui_inv s" "tui_active s" "list_all (draws_on {header_win s, main_win s, status_win s}) cs"
  shows "tui_inv (curses cs s)"
proof -
  have "curses_run cs (Visual, rev (own_windows s)) = Some (Visual, rev (own_windows s))"
    by (rule draws_run [OF assms(3)]) (auto simp: own_windows_set)
  with assms(1,2) show ?thesis by (simp add: tui_inv_def screen_of_curses)
qed

lemma draw_lists:
  "list_all (draws_on W) (tab_bar w cur i x ts)" "list_all (draws_on W) (render_header w tab)"
  "list_all (draws_on W) (concat (map (draw_calls w) ds))" "list_all (draws_on W) (heading w y x' t)"
  "list_all (draws_on W) (finish_window w)" "list_all (draws_on W) (draw_calls w d)"
  "list_all (draws_on W) (render_status_bar w)" "list_all (draws_on W) (concat (map (draw_calls w \<circ> f) xs))"
  if "w \<in> W"
proof -
  show t: "list_all (draws_on W) (tab_bar w cur i x ts)" for cur i x ts
    using that by (induction ts arbitrary: i x) simp_all
  show d: "list_all (draws_on W) (draw_calls w d)" for d using that by (simp add: draw_calls_def)
  show h: "list_all (draws_on W) (heading w y x' t)" "list_all (draws_on W) (finish_window w)" for y x' t
    using that by (simp_all add: heading_def finish_window_def)
  show "list_all (draws_on W) (concat (map (draw_calls w) ds))" by (induction ds) (simp_all add: d)
  show "list_all (draws_on W) (concat (map (draw_calls w \<circ> f) xs))" by (induction xs) (simp_all add: d)
  show "list_all (draws_on W) (render_header w tab)" "list_all (draws_on W) (render_status_bar w)"
    using that t h d by (simp_all add: render_header_def render_status_bar_def)
qed

lemma render_inv:
  assumes "tui_inv s"
  shows "tui_inv (render K s)"
proof (cases "tui_active s")
  case True
  let ?W = "\<lambda>t :: 'a tui_st_scheme. {header_win t, main_win t, status_win t}"
  have d: "tui_inv (curses cs t) \<and> tui_active (curses cs t)"
    if "tui_inv t \<and> tui_active t" "list_all (draws_on (?W t)) cs" for cs and t :: "'a tui_st_scheme"
    using draws_curses [of t cs] that by simp
  define s1 where "s1 = curses (render_header (header_win s) (current_tab s)) (tick s)"
  have "tui_inv (tick s) \<and> tui_active (tick s)"
    using tui_inv_frame [OF tui_frame.keeps_tick] assms True by simp
  then have 1: "tui_inv s1 \<and> tui_active s1" unfolding s1_def by (rule d) (simp add: draw_lists)
  have sv: "tui_inv (render_services h w s1) \<and> tui_active (render_services h w s1)" for h w
  proof -
    have "tui_inv (scroll_services h s1) \<and> tui_active (scroll_services h s1)"
      using 1 by (simp add: scroll_services_def Let_def)
    moreover have "?W (scroll_services h s1) = ?W s1" by (simp add: scroll_services_def Let_def)
    ultimately show ?thesis
      unfolding render_services_def Let_def by (intro d) (simp_all add: draw_lists)
  qed
  have "tui_inv (case current_tab s1 of
           Tab_Overview \<Rightarrow> curses (render_overview pid h w s1) s1
         | Tab_Services \<Rightarrow> render_services h w s1
         | Tab_Journal \<Rightarrow> curses (render_journal h w s1) s1) \<and>
      tui_active (case current_tab s1 of
           Tab_Overview \<Rightarrow> curses (render_overview pid h w s1) s1
         | Tab_Services \<Rightarrow> render_services h w s1
         | Tab_Journal \<Rightarrow> curses (render_journal h w s1) s1)" for pid h w
    using 1 sv d [OF 1, of "render_overview pid h w s1"] d [OF 1, of "render_journal h w s1"]
    by (cases "current_tab s1") (simp_all add: render_overview_def render_journal_def Let_def draw_lists)
  from d [OF this] True show ?thesis
    unfolding render_def Let_def split_def s1_def by (simp add: draw_lists)
qed (use assms in \<open>simp add: render_def\<close>)

lemma leave_inv:
  assumes "tui_inv s"
  shows "tui_inv (shutdown_tui s)" "\<not> tui_active (shutdown_tui s)"
proof -
  have "screen_of (curses [Endwin] (delete_windows s)) = Some (Left, [])" if "tui_active s"
    using delete_windows_screen [of s] assms that by (simp add: tui_inv_def screen_of_curses)
  then show "tui_inv (shutdown_tui s)"
    using assms by (auto simp: shutdown_tui_def tui_inv_def screen_of_def)
  show "\<not> tui_active (shutdown_tui s)" by (simp add: shutdown_tui_def)
qed

lemma handle_input_inv:
  assumes "tui_inv s" "tui_active s"
  shows "tui_inv (snd (handle_input K s))" "tui_active (snd (handle_input K s))"
proof -
  have t: "tui_inv (tick s)" "tui_active (tick s)"
    using tui_inv_frame [OF tui_frame.keeps_tick] assms by simp_all
  define u where "u = curses [Endwin, Refresh] (tick s)"
  have u: "screen_of u = Some (Visual, rev (own_windows u))" "distinct (own_windows u)" "tui_active u"
    using t by (simp_all add: u_def tui_inv_def screen_of_curses)
  note C = create_windows_inv [OF delete_windows_screen [OF u(1,2)], of K]
  have a: "tui_active (delete_windows u)" using u(3) by (simp add: delete_windows_def)
  have r: "tui_inv (create_windows K (delete_windows u))" "tui_active (create_windows K (delete_windows u))"
    using C a by (simp_all add: tui_inv_def)
  show "tui_inv (snd (handle_input K s))"
    using t r by (simp add: handle_input_def handle_key_def Let_def u_def)
  show "tui_active (snd (handle_input K s))"
    using t r by (simp add: handle_input_def handle_key_def Let_def u_def)
qed

section \<open>The whole program\<close>

definition keeps_terminal :: "'a tui_st_scheme \<Rightarrow> 'a tui_st_scheme \<Rightarrow> bool" where
  "keeps_terminal s t \<longleftrightarrow> (tui_inv s \<longrightarrow> tui_inv t)"

lemma frame_terminal: "tui_frame s t \<Longrightarrow> keeps_terminal s t"
  by (auto simp: keeps_terminal_def intro: tui_inv_frame)

interpretation terminal: op_contract keeps_terminal
  by unfold_locales (auto simp: keeps_terminal_def)

interpretation terminal: table_contract keeps_terminal K for K
  by unfold_locales
     (blast intro: frame_terminal tui_frame.keeps_log tui_frame.keeps_sys tui_frame.keeps_tick tui_frame.keeps_table)+

interpretation terminal: plain_contract keeps_terminal K for K
proof
  show "keeps_terminal s (s\<lparr>exit_callbacks := cbs\<rparr>)" for cbs and s :: "'a tui_st_scheme"
    by (rule frame_terminal) (rule tui_frame.keeps_callbacks)
  show "keeps_terminal s (s\<lparr>socket_units := bump_conn n d (socket_units s)\<rparr>)" for n d and s :: "'a tui_st_scheme"
    by (rule frame_terminal) (rule tui_frame.keeps_counter)
  show "keeps_terminal s (close_all_sockets K s)" for K and s :: "'a tui_st_scheme"
    by (intro frame_terminal tui_frame.keeps_close_sockets) (simp add: tui_frame_def)
  show "keeps_terminal s (s\<lparr>shutdown_requested := True\<rparr>)" for s :: "'a tui_st_scheme"
    by (rule frame_terminal) (simp add: tui_frame_def)
  show "keeps_terminal s (s\<lparr>runtime_dirs_chowned := True\<rparr>)" for s :: "'a tui_st_scheme"
    by (rule frame_terminal) (simp add: tui_frame_def)
qed (simp_all add: keeps_terminal_def render_inv handle_input_inv leave_inv)

lemma enter_loop_inv:
  assumes "tui_calls s = []" "\<not> tui_active s"
  shows "tui_inv (enter_loop K s)"
proof -
  have m: "unit_exec_st.more (register_accept_sockets K (epoll_fd s) s) = unit_exec_st.more s"
    using tui_frame.keeps_register_accept [of s K] by (simp add: tui_frame_def)
  have "tui_inv (snd (execute_TuiStart K (register_accept_sockets K (epoll_fd s) s)))"
    by (rule start_inv) (simp_all add: tui_fields_more [OF m] assms)
  then show ?thesis
    unfolding enter_loop_def by (rule terminal.keeps_log [unfolded keeps_terminal_def, rule_format])
qed

lemma boot_terminal:
  assumes "boot K junk it (main_start K) = (x, s)"
  shows "tui_calls s = []" "\<not> tui_active s"
proof -
  have m: "unit_exec_st.more s = unit_exec_st.more (main_start K)"
    using tui_frame.keeps_boot [of "main_start K" K junk it] assms by (simp add: tui_frame_def)
  show "tui_calls s = []" "\<not> tui_active s"
    unfolding tui_fields_more [OF m] by (simp_all add: main_start_def init_system_new_def print_stderr_def Let_def)
qed

lemma monitor_inv:
  "monitor_loop n K s = Some t \<Longrightarrow> tui_inv s \<Longrightarrow> tui_active s \<Longrightarrow> tui_inv t \<and> tui_active t"
proof (induction n arbitrary: s)
  case (Suc n)
  have "tui_inv (snd (handle_input K (render K s)))" "tui_active (snd (handle_input K (render K s)))"
    using handle_input_inv [OF render_inv [OF Suc.prems(2)]] Suc.prems(3) by (simp_all add: render_active)
  with Suc.prems(1) Suc.IH show ?case by (auto simp: Let_def split_def split: if_splits)
qed simp

lemma program_terminal:
  assumes "main_init n K junk it = Some ((Returns, rc), t)"
  shows "tui_inv t \<and> \<not> tui_active t"
  using assms
proof (cases rule: main_init_cases)
  case (boot_ends u)
  note u = boot_terminal [OF boot_ends(1)]
  have "tui_inv u" using u by (simp add: tui_inv_def screen_of_def)
  moreover have "t = destroy_InitSystem K u" using boot_ends by simp
  ultimately show ?thesis
    using terminal.keeps_destroy [of u K] leave_inv(2) [of u] u by (simp add: keeps_terminal_def destroy_InitSystem_def Let_def shutdown_tui_def)
next
  case (shuts_down u v)
  have "tui_inv v"
    using enter_loop_inv [OF boot_terminal [OF shuts_down(1)], of K] terminal.keeps_main_loop [OF shuts_down(2)]
    by (simp add: keeps_terminal_def)
  then have "tui_inv t"
    unfolding shuts_down(5) using terminal.keeps_trans [OF terminal.keeps_shutdown terminal.keeps_destroy, of v K K]
    by (simp add: keeps_terminal_def)
  moreover have "\<not> tui_active t"
    unfolding shuts_down(5) by (simp add: destroy_InitSystem_def Let_def shutdown_tui_def)
  ultimately show ?thesis by simp
qed simp

lemma trivialctl_terminal:
  assumes "main_trivialctl n K junk it = Some (rc, t)"
  shows "tui_inv t \<and> \<not> tui_active t"
proof -
  let ?s = "log K Info ''monitor'' ''trivialInit monitor starting'' (print_stderr ''trivialctl: unit file monitor'' init_system_new)"
  let ?s1 = "snd (execute_UnitParse K junk (snd (execute_UnitDiscovery K ?s)))"
  let ?s2 = "snd (execute_DependencyResolve K (it (units ?s1)) ?s1)"
  obtain u where u: "monitor_loop n K (snd (init_tui K ?s2)) = Some u" and t: "t = destroy_InitSystem K (shutdown_tui u)"
    using assms by (auto simp: main_trivialctl_def run_monitor_def Let_def split: option.splits)
  have "tui_frame ?s ?s2"
    by (intro tui_frame.keeps_trans [OF _ tui_frame.keeps_execute_DependencyResolve]
          tui_frame.keeps_trans [OF _ tui_frame.keeps_execute_UnitParse] tui_frame.keeps_execute_UnitDiscovery)
  then have m: "unit_exec_st.more ?s2 = unit_exec_st.more ?s" by (simp add: tui_frame_def)
  have "tui_calls ?s2 = []" "\<not> tui_active ?s2"
    unfolding tui_fields_more [OF m] by (simp_all add: print_stderr_def init_system_new_def)
  from monitor_inv [OF u start_inv(2,3) [OF this]] have "tui_inv u" by simp
  from leave_inv [OF this] show ?thesis
    using terminal.keeps_destroy [of "shutdown_tui u" K]
    by (simp add: t keeps_terminal_def) (simp add: destroy_InitSystem_def Let_def shutdown_tui_def)
qed

text \<open>C15: the terminal is handed back as it was found. When \<open>main\<close> of the init program or of the monitor
  returns, the calls it made to the terminal library, from the first to the last, obey the
  library's rules (the screen is initialised once, nothing is drawn on or deleted twice after
  a window is deleted, visual mode is left as often as it is entered, resizing included), no
  window is left undeleted, and visual mode is off. This holds for every sequence of keys and
  resizes, and also when windows cannot be created.\<close>

theorem terminal_restored:
  assumes "main_init n K junk it = Some ((Returns, rc), t) \<or> main_trivialctl n K junk it = Some (rc, t)"
  shows "\<exists>m. curses_run (tui_calls t) (Never_started, []) = Some (m, []) \<and> m \<noteq> Visual"
proof -
  have "tui_inv t \<and> \<not> tui_active t" using assms program_terminal trivialctl_terminal by blast
  then show ?thesis by (auto simp: tui_inv_def screen_of_def)
qed

text \<open>A terminal on which \<open>q\<close> is pressed at once.\<close>

definition demo_terminal :: kernel where
  "demo_terminal = demo_kernel\<lparr>k_getch := \<lambda>_. 113\<rparr>"

theorem terminal_restored_witness:
  "\<exists>t m. main_trivialctl 1 demo_terminal (\<lambda>_ _. False) um_keys = Some (0, t) \<and>
     curses_run (tui_calls t) (Never_started, []) = Some (m, []) \<and> m \<noteq> Visual"
proof -
  have "\<exists>t. monitor_loop 1 demo_terminal s = Some t" for s :: init_system
    by (simp add: handle_input_def handle_key_def demo_terminal_def Let_def)
  then obtain t where "main_trivialctl 1 demo_terminal (\<lambda>_ _. False) um_keys = Some (0, t)"
    by (fastforce simp: main_trivialctl_def run_monitor_def Let_def split: option.split)
  with terminal_restored [of 1 demo_terminal "\<lambda>_ _. False" um_keys 0 t] show ?thesis by blast
qed

end
