(* ===== verification/Socket_Machine.thy ===== *)
theory Socket_Machine
  imports Whole_System
begin

text \<open>
  A concrete machine for the witnesses about sockets: it has one unit, \<open>a.socket\<close>, that accepts
  one connection at a time, and a signalfd that always holds a \<open>SIGTERM\<close>. Its boot is
  evaluated phase by phase, and its main loop ends in the first turn.
\<close>

section \<open>The machine\<close>

definition socket_machine_os :: osview where
  "socket_machine_os = no_os\<lparr>
     os_dir := (\<lambda>d. if d = ''/etc/systemd/system'' then Some [''a.socket''] else None),
     os_stat := (\<lambda>p. if p = ''/etc/systemd/system'' then Some \<lparr>st_dev = 0, st_kind = Directory, st_size = 1\<rparr>
        else if p = ''/etc/systemd/system/a.socket'' then Some \<lparr>st_dev = 0, st_kind = Regular, st_size = 1\<rparr> else None),
     os_file := (\<lambda>p. if p = ''/etc/systemd/system/a.socket''
        then Some (''[Socket]'' @ [CHR 0x0A] @ ''ListenStream=/run/a'' @ [CHR 0x0A] @ ''Accept=yes'' @ [CHR 0x0A] @
          ''MaxConnections=1'' @ [CHR 0x0A]) else None)\<rparr>"

definition socket_machine :: kernel where
  "socket_machine = demo_machine\<lparr>k_view := (\<lambda>_. socket_machine_os), k_signals := (\<lambda>_. [SIGTERM])\<rparr>"

lemma socket_machine_answers:
  "k_ret socket_machine n (Mount a b c d e) = 0" "k_ret socket_machine n Sigprocmask_block_all = 0"
  "k_ret socket_machine n (Signalfd ss) = 3" "k_ret socket_machine n Epoll_create = 4"
  "k_ret socket_machine n Fork = 100 + int n" "k_view socket_machine n = socket_machine_os"
  "k_ret socket_machine n (Socket_create d1 d2 d3) = 0" "k_ret socket_machine n (Bind_unix fd p ab len) = 0"
  "k_ret socket_machine n (Listen fd bl) = 0"
  by (simp_all add: socket_machine_def demo_machine_def)

lemma socket_machine_signal:
  "\<forall>n. k_ret socket_machine n (Signalfd [SIGCHLD, SIGTERM, SIGINT, SIGUSR1]) = 3"
  "signal_pending socket_machine 3 i" "k_signals socket_machine i = [SIGTERM]" "k_epoll socket_machine i = (1, [3])"
  by (simp_all add: socket_machine_def demo_machine_def signal_pending_def)

section \<open>Its unit\<close>

definition machine_unit :: unit_file where
  "machine_unit = parse_unit socket_machine_os (\<lambda>_. False) ''/etc/systemd/system/a.socket''"

definition machine_sock :: socket_unit where
  "machine_sock = expand_specifiers socket_machine_os (parse_socket_unit machine_unit)"

definition machine_entry :: listen_entry where
  "machine_entry = \<lparr>le_type = LT_Stream, le_address = ''/run/a'', le_fd = -1, le_name = []\<rparr>"

lemma machine_unit_facts:
  "uf_type machine_unit = UT_Socket" "uf_name machine_unit = ''a.socket''" "is_bare_template machine_unit = False"
  "eval_conditions socket_machine_os machine_unit = Inr 0"
  "dependency_order [''a.socket''] [(''a.socket'', machine_unit)] = [''a.socket'']"
  by code_simp+

lemma machine_sock_facts:
  "su_accept machine_sock = True" "su_listen machine_sock = [machine_entry]" "su_max_conn machine_sock = 1"
  by code_simp+

section \<open>Its boot\<close>

text \<open>The first two phases do not look for unit files or sockets.\<close>

definition before_scan :: "'a socket_st_scheme \<Rightarrow> 'a socket_st_scheme \<Rightarrow> bool" where
  "before_scan s t \<longleftrightarrow> discovered_names t = discovered_names s \<and> discovered_paths t = discovered_paths s \<and>
     units t = units s \<and> socket_units t = socket_units s \<and> fd_to_socket t = fd_to_socket s"

interpretation before_scan: op_contract before_scan
  by unfold_locales (auto simp: before_scan_def)

interpretation before_scan: mount_contract before_scan K for K
  by unfold_locales (simp_all add: before_scan_def)

lemma machine_mounts: "fst (execute_EarlyMount socket_machine s) = 0"
proof -
  have "fst (mount_early socket_machine mps t) = 0" for mps and t :: "'a filesystem_st_scheme"
    by (induction mps arbitrary: t) (simp_all add: Let_def split_def socket_machine_answers)
  then show ?thesis by (simp add: execute_EarlyMount_def Let_def split_def)
qed

lemma machine_signals:
  "fst (execute_SignalSetup socket_machine s) = 0" "before_scan s (snd (execute_SignalSetup socket_machine s))"
  by (simp_all add: execute_SignalSetup_def before_scan_def Let_def split_def socket_machine_answers)

lemma machine_discovery:
  assumes "discovered_paths s = []" "discovered_names s = {}" "units s = []" "socket_units s = []"
  shows "fst (execute_UnitDiscovery socket_machine s) = 0"
    "discovered_paths (snd (execute_UnitDiscovery socket_machine s)) = [''/etc/systemd/system/a.socket'']"
    "units (snd (execute_UnitDiscovery socket_machine s)) = []"
    "socket_units (snd (execute_UnitDiscovery socket_machine s)) = []"
  using assms
  by (simp_all add: execute_UnitDiscovery_def kUnitSearchPaths_def scan_dir_def scan_file_def scan_wants_dirs_def
      scan_wants_def view_def socket_machine_answers socket_machine_os_def fs_exists_def dir_entries_def
      is_regular_file_def is_symlink_def is_directory_def path_join_def is_supported_def kSupportedExtensions_def
      ends_with_def no_os_def Let_def)

lemma machine_parse:
  assumes "discovered_paths s = [''/etc/systemd/system/a.socket'']" "units s = []" "socket_units s = []"
  shows "fst (execute_UnitParse socket_machine (\<lambda>_ _. False) s) = 0"
    "units (snd (execute_UnitParse socket_machine (\<lambda>_ _. False) s)) = [(''a.socket'', machine_unit)]"
    "socket_units (snd (execute_UnitParse socket_machine (\<lambda>_ _. False) s)) = []"
  using assms
  by (simp_all add: execute_UnitParse_def parse_path_def view_def socket_machine_answers machine_unit_def [symmetric]
      machine_unit_facts um_put_def Let_def)

lemma machine_binds:
  assumes "units s = [(''a.socket'', machine_unit)]" "socket_units s = []"
  shows "fst (execute_SocketBind socket_machine s) = 0"
    "units (snd (execute_SocketBind socket_machine s)) = [(''a.socket'', machine_unit)]"
    "socket_units (snd (execute_SocketBind socket_machine s)) =
       [(''a.socket'', machine_sock\<lparr>su_listen := [machine_entry\<lparr>le_fd := 0\<rparr>]\<rparr>)]"
  using assms
  by (simp_all add: execute_SocketBind_def socket_bind_one_def machine_unit_facts view_def socket_machine_answers
      machine_sock_def [symmetric] machine_sock_facts machine_entry_def bind_socket_unit_def has_percent_def
      create_and_bind_def bind_unix_def or_close_def finish_listen_def apply_opts_def fold_keeps um_put_def Let_def split_def)

lemma machine_plan:
  assumes "units s = [(''a.socket'', machine_unit)]"
  shows "fst (execute_DependencyResolve socket_machine (um_keys (units s)) s) = 0"
    "exec_order (snd (execute_DependencyResolve socket_machine (um_keys (units s)) s)) = [''a.socket'']"
    "units (snd (execute_DependencyResolve socket_machine (um_keys (units s)) s)) = units s"
    "socket_units (snd (execute_DependencyResolve socket_machine (um_keys (units s)) s)) = socket_units s"
  using assms by (simp_all add: execute_DependencyResolve_def um_keys_def machine_unit_facts Let_def)

lemma machine_executes:
  assumes "units s = [(''a.socket'', machine_unit)]" "exec_order s = [''a.socket'']"
  shows "fst (execute_UnitExecute socket_machine s) = Returns"
    "socket_units (snd (execute_UnitExecute socket_machine s)) = socket_units s"
    "pending_restarts (snd (execute_UnitExecute socket_machine s)) = pending_restarts s"
  using assms
  by (simp_all add: execute_UnitExecute_def execute_unit_def find_unit_def um_get_def machine_unit_facts view_def
      socket_machine_answers Let_def)

lemma machine_pending_setup: "pending_restarts (snd (execute_SignalSetup socket_machine s)) = pending_restarts s"
  by (simp add: execute_SignalSetup_def Let_def split_def socket_machine_answers)

text \<open>Before units are started no restart can be pending.\<close>

definition same_pending :: "'a process_st_scheme \<Rightarrow> 'a process_st_scheme \<Rightarrow> bool" where
  "same_pending s t \<longleftrightarrow> pending_restarts t = pending_restarts s"

interpretation same_pending: op_contract same_pending
  by unfold_locales (auto simp: same_pending_def)

interpretation same_pending: setup_contract same_pending K for K
  by unfold_locales (simp_all add: same_pending_def)

interpretation same_pending: screen_contract same_pending K for K
  by unfold_locales (simp_all add: same_pending_def)

interpretation same_pending: entry_contract same_pending K for K
  by unfold_locales (rule same_pending.keeps_any_tui | simp add: same_pending_def)+

lemma socket_machine_boots:
  obtains s where "boot socket_machine (\<lambda>_ _. False) um_keys (main_start socket_machine) = ((Returns, 0), s)"
    "socket_units s = [(''a.socket'', machine_sock\<lparr>su_listen := [machine_entry\<lparr>le_fd := 0\<rparr>]\<rparr>)]"
    "pending_restarts s = []"
proof -
  let ?K = socket_machine
  let ?s0 = "log ?K Info ''init'' ''trivialInit starting'' (main_start ?K)"
  let ?s1 = "snd (execute_EarlyMount ?K ?s0)"
  let ?s2 = "snd (execute_SignalSetup ?K ?s1)"
  let ?s3 = "snd (execute_UnitDiscovery ?K ?s2)"
  let ?s4 = "snd (execute_UnitParse ?K (\<lambda>_ _. False) ?s3)"
  let ?s5 = "snd (execute_SocketBind ?K ?s4)"
  let ?s6 = "snd (execute_DependencyResolve ?K (um_keys (units ?s5)) ?s5)"
  let ?s7 = "snd (execute_UnitExecute ?K ?s6)"
  have "before_scan ?s0 ?s2"
    by (rule before_scan.keeps_trans [OF before_scan.keeps_execute_EarlyMount machine_signals(2)])
  then have 2: "discovered_paths ?s2 = []" "discovered_names ?s2 = {}" "units ?s2 = []" "socket_units ?s2 = []"
    by (simp_all add: before_scan_def main_start_def init_system_new_def print_stderr_def Let_def)
  note 3 = machine_discovery [OF 2]
  note 4 = machine_parse [OF 3(2,3,4)]
  note 5 = machine_binds [OF 4(2,3)]
  note 6 = machine_plan [OF 5(2)]
  have 7: "fst (execute_UnitExecute ?K ?s6) = Returns" "socket_units ?s7 = socket_units ?s6"
    using 6 5(2) by (simp_all add: machine_executes)
  have "boot ?K (\<lambda>_ _. False) um_keys (main_start ?K) = ((Returns, 0), ?s7)"
    using 3(1) 4(1) 5(1) 6(1) 7(1)
    by (simp add: boot_def or_return_def machine_mounts machine_signals(1) split_def Let_def)
  moreover have "same_pending ?s0 ?s1" "same_pending ?s1 ?s2" "same_pending ?s2 ?s3" "same_pending ?s3 ?s4"
      "same_pending ?s4 ?s5" "same_pending ?s5 ?s6"
    by (rule same_pending.keeps_execute_EarlyMount machine_pending_setup [folded same_pending_def] same_pending.keeps_execute_UnitDiscovery
        same_pending.keeps_execute_UnitParse same_pending.keeps_execute_SocketBind
        same_pending.keeps_execute_DependencyResolve)+
  moreover have "pending_restarts ?s0 = []" by (simp add: main_start_def init_system_new_def print_stderr_def Let_def)
  moreover have "pending_restarts ?s7 = pending_restarts ?s6" using 6 5(2) by (simp add: machine_executes)
  ultimately show thesis using that [of ?s7] by (simp add: same_pending_def 5(3) 6(4) 7(2))
qed

section \<open>Its main loop\<close>

lemma machine_turn:
  fixes s :: "'a tui_st_scheme"
  assumes "signal_fd s = 3" "pending_restarts s = []"
  shows "fst (loop_body socket_machine s) \<in> {Next, Break} \<and>
    (fst (loop_body socket_machine s) = Next \<longrightarrow> shutdown_requested (snd (loop_body socket_machine s)))"
proof -
  obtain s1 where p: "poll_once_with_sockets socket_machine s = (Returns, s1)" "pending_restarts s1 = []"
    using assms
    by (simp add: poll_once_with_sockets_def epoll_wait_def socket_event_def drain_signals_def handle_signal_def
        socket_machine_signal SIGCHLD_def SIGTERM_def Let_def split_def)
  then obtain s2 where "process_restarts socket_machine s1 = (Returns, s2)"
    by (simp add: process_restarts_def drain_pending_restarts_def Let_def)
  with p have "fst (loop_body socket_machine s) \<in> {Next, Break}"
    by (simp add: loop_body_def Let_def split_def)
  moreover have "shutdown_requested t" if "loop_body socket_machine s = (Next, t)" for t
    by (rule loop_body_shutdown [OF that]) (simp_all add: assms(1) socket_machine_signal)
  ultimately show ?thesis by (metis prod.collapse)
qed

lemma socket_machine_ends:
  "\<exists>t. main_init 1 socket_machine (\<lambda>_ _. False) um_keys = Some ((Returns, 0), t)"
proof -
  obtain s where s: "boot socket_machine (\<lambda>_ _. False) um_keys (main_start socket_machine) = ((Returns, 0), s)"
      "pending_restarts s = []"
    by (rule socket_machine_boots)
  let ?s = "enter_loop socket_machine s"
  have "signal_fd ?s = 3"
    using boot_signal_fd [OF socket_machine_signal(1) s(1)] supervisedD(3) [OF supervised.keeps_enter_loop [of socket_machine s]]
    by simp
  moreover have "pending_restarts ?s = []"
    using same_pending.keeps_enter_loop [of s socket_machine] s(2) by (simp add: same_pending_def)
  ultimately have b: "fst (loop_body socket_machine ?s) \<in> {Next, Break}"
      "fst (loop_body socket_machine ?s) = Next \<Longrightarrow> shutdown_requested (snd (loop_body socket_machine ?s))"
    using machine_turn [of ?s] by blast+
  have "\<exists>v. main_loop 1 socket_machine ?s = Some (Returns, v)"
    using b by (auto simp: main_loop.simps [of "Suc 0"] main_loop.simps [of 0] split_def split: loop_end.splits)
  with s(1) show ?thesis by (auto simp: main_init_run run_loop)
qed

end
