(* ===== verification/Connections.thy ===== *)
theory Connections
  imports Socket_Machine
begin

text \<open>
  The connection counters of \<open>Accept=yes\<close> socket units over a whole run of the program:
  services starting and failing, signals, restarts and the user interface in between do not
  disturb them.
\<close>

section \<open>The kernel's promise\<close>

text \<open>
  From now to request number \<open>N\<close> the run is that of the init process itself (\<open>fork\<close> does not
  return 0) and \<open>fork\<close> returns no pid that a callback waits for, and none twice.
\<close>

definition callbacks_fresh :: "kernel \<Rightarrow> nat \<Rightarrow> 'a process_st_scheme \<Rightarrow> bool" where
  "callbacks_fresh K N s \<longleftrightarrow>
     (\<forall>n. ticks s \<le> n \<and> n < N \<longrightarrow> k_ret K n Fork \<noteq> 0 \<and>
        (0 < k_ret K n Fork \<longrightarrow> um_get (exit_callbacks s) (k_ret K n Fork) = None \<and>
           (\<forall>m. n < m \<and> m < N \<longrightarrow> k_ret K m Fork \<noteq> k_ret K n Fork)))"

text \<open>The same for a whole run, from the first request on.\<close>

definition init_process :: "kernel \<Rightarrow> nat \<Rightarrow> bool" where
  "init_process K N \<longleftrightarrow>
     (\<forall>n<N. k_ret K n Fork \<noteq> 0 \<and> (0 < k_ret K n Fork \<longrightarrow> (\<forall>m. n < m \<and> m < N \<longrightarrow> k_ret K m Fork \<noteq> k_ret K n Fork)))"

lemma callbacks_fresh_mono:
  assumes "callbacks_fresh K N s" "ticks s \<le> ticks t"
    and "\<And>p. um_get (exit_callbacks t) p \<noteq> None \<Longrightarrow> um_get (exit_callbacks s) p \<noteq> None"
  shows "callbacks_fresh K N t"
  using assms unfolding callbacks_fresh_def by (meson le_trans)

section \<open>The contract\<close>

definition conn_inv :: "'a socket_st_scheme \<Rightarrow> bool" where
  "conn_inv s \<longleftrightarrow> conn_ok (socket_units s) (exit_callbacks s)"

definition counts :: "kernel \<Rightarrow> 'a socket_st_scheme \<Rightarrow> 'a socket_st_scheme \<Rightarrow> bool" where
  "counts K s t \<longleftrightarrow> ticks s \<le> ticks t \<and>
     (\<forall>N. ticks t \<le> N \<longrightarrow> callbacks_fresh K N s \<longrightarrow> conn_inv s \<longrightarrow> callbacks_fresh K N t \<and> conn_inv t)"

interpretation counts: op_contract "counts K" for K
proof
  show "counts K s s" for s :: "'a socket_st_scheme" by (simp add: counts_def)
  show "counts K s u" if "counts K s t" "counts K t u" for s t u :: "'a socket_st_scheme"
    using that unfolding counts_def by (meson le_trans)
qed

lemma counts_frame:
  assumes "ticks s \<le> ticks t" "exit_callbacks t = exit_callbacks s" "um_get (socket_units t) = um_get (socket_units s)"
  shows "counts K s t"
  using assms callbacks_fresh_mono [of K _ s t] conn_ok_cong [OF assms(3), of "exit_callbacks s"]
  by (auto simp: counts_def conn_inv_def)

interpretation counts: table_contract "counts K" K for K
  by unfold_locales (rule counts_frame, simp_all)+

interpretation counts: screen_contract "counts K" K for K
  by unfold_locales (rule counts_frame, simp_all)+

text \<open>Requests alone do not touch the two tables.\<close>

definition conn_frame :: "'a socket_st_scheme \<Rightarrow> 'a socket_st_scheme \<Rightarrow> bool" where
  "conn_frame s t \<longleftrightarrow> ticks s \<le> ticks t \<and> exit_callbacks t = exit_callbacks s \<and> socket_units t = socket_units s"

interpretation conn_frame: op_contract conn_frame
  by unfold_locales (auto simp: conn_frame_def)

interpretation conn_frame: table_contract conn_frame K for K
  by unfold_locales (simp_all add: conn_frame_def)

lemma close_all_get:
  "um_get (socket_units (close_all_sockets K s)) n =
     map_option (\<lambda>u. u\<lparr>su_listen := map (\<lambda>le. if le_fd le < 0 then le else le\<lparr>le_fd := -1\<rparr>) (su_listen u)\<rparr>)
       (um_get (socket_units s) n)" (is "_ = map_option ?f _")
proof -
  have "socket_units (close_all_sockets K s) = map (\<lambda>(n, u). (n, ?f u)) (socket_units s)"
    by (simp add: close_all_sockets_def split_def close_units_spec Let_def)
  then show ?thesis by (simp add: um_get_def map_of_map)
qed

lemma close_all_counts:
  fixes s :: "'a tui_st_scheme"
  shows "counts K s (close_all_sockets K s)"
proof -
  let ?t = "close_all_sockets K s"
  have "conn_frame s (snd (close_units K (socket_units s) s))" by (rule conn_frame.keeps_close_units)
  then have "ticks s \<le> ticks ?t" "exit_callbacks ?t = exit_callbacks s"
    by (simp_all add: close_all_sockets_def split_def Let_def conn_frame_def)
  moreover from this have "conn_inv s \<Longrightarrow> conn_inv ?t" by (auto simp: conn_inv_def conn_ok_def close_all_get)
  ultimately show ?thesis using callbacks_fresh_mono [of K _ s ?t] by (simp add: counts_def)
qed

section \<open>Reaping and accepting\<close>

lemma reap_one_counts: "counts K s (reap_one K ps s)"
proof (cases ps)
  case (Pair p st)
  have "um_get (exit_callbacks (reap_one K ps s)) q \<noteq> None \<Longrightarrow> um_get (exit_callbacks s) q \<noteq> None" for q
    unfolding Pair reap_one_sockets reap_callback_def
    by (auto simp: Let_def split: option.splits if_splits)
  then show ?thesis
    using callbacks_fresh_mono [of K _ s "reap_one K ps s"] reap_one_conn_ok [of s K ps] reap_one_ticks [of s K ps]
    by (simp add: counts_def conn_inv_def)
qed

lemma serve_connection_gone:
  assumes "serve_connection K n c s = (fl, t)" "fl \<noteq> Returns"
  shows "\<exists>i. ticks s \<le> i \<and> i < ticks t \<and> k_ret K i Fork = 0"
proof -
  have d: "serve_connection K n c s \<noteq> drop_connection K n c s" using assms by (auto simp: drop_connection_def)
  let ?u = "um_at socket_unit_init (socket_units s) n"
  let ?svc = "resolve_pair ?u s" and ?env = "\<lparr>env_fds = [c], env_names = [su_name ?u]\<rparr>"
  obtain unit path args where u: "find_unit ?svc s = Some unit" "uf_exec_start unit \<noteq> []"
      "split_exec (uf_exec_start unit) = path # args"
    using d by (cases rule: serve_connection_forms [of K n c s]) simp_all
  let ?sp = "spawn_with_socket_fds K ?svc path args ?env False (Some unit) s"
  have "fst ?sp = 0 \<and> t = snd ?sp"
    using assms u by (auto simp: serve_connection_def Let_def split_def split: if_splits)
  with spawn_socket_result(1) [of K ?svc path args ?env False "Some unit" s]
    spawn_socket_ticks [of K ?env s ?svc path args False "Some unit"] fork_time_after [of s K ?env]
  show ?thesis by (auto simp: max_def intro: exI [of _ "fork_time K ?env s"] split: if_splits)
qed

text \<open>How a call of \<open>accept_ready\<close> can go.\<close>

lemma accept_ready_cases:
  fixes s :: "'a socket_st_scheme"
  assumes "accept_ready K lfd s = (fl, t)"
  shows "(fl = Returns \<and> exit_callbacks t = exit_callbacks s) \<or>
    (\<exists>i. ticks s \<le> i \<and> i < ticks t \<and>
        (fl = Returns \<and> 0 < k_ret K i Fork \<and>
           (\<exists>n. exit_callbacks t = um_put (k_ret K i Fork) (Dec_connections n) (exit_callbacks s)) \<or>
         fl \<noteq> Returns \<and> k_ret K i Fork = 0))"
proof (cases "um_get (fd_to_socket s) lfd")
  case None
  with assms show ?thesis by (simp add: accept_ready_def)
next
  case (Some n)
  let ?u = "um_at socket_unit_init (bump_conn n 0 (socket_units s)) n"
  let ?s1 = "add_connections n 1 (snd (sys K (Accept4 lfd) (add_connections n 0 s)))"
  let ?c = "k_ret K (ticks s) (Accept4 lfd)"
  have s1: "exit_callbacks ?s1 = exit_callbacks s" "ticks ?s1 = Suc (ticks s)"
    by (simp_all add: add_connections_bump)
  show ?thesis
  proof (cases "(0 < su_max_conn ?u \<and> su_max_conn ?u \<le> su_active_connections ?u) \<or> ?c < 0")
    case True
    then have "fl = Returns \<and> exit_callbacks t = exit_callbacks s"
      using assms Some by (auto simp: accept_ready_def Let_def split_def add_connections_bump split: if_splits)
    then show ?thesis by simp
  next
    case False
    then have serve: "serve_connection K n ?c ?s1 = (fl, t)"
      using assms Some by (auto simp: accept_ready_def Let_def split_def add_connections_bump)
    show ?thesis
    proof (cases "fl = Returns")
      case True
      with serve_connection_cases [of K n ?c ?s1 t] serve s1 show ?thesis
        by (fastforce dest: Suc_leD)
    next
      case False
      with serve_connection_gone [OF serve] s1 show ?thesis by (fastforce dest: Suc_leD)
    qed
  qed
qed

lemma accept_ready_counts:
  fixes s :: "'a tui_st_scheme"
  shows "counts K s (snd (accept_ready K lfd s))"
proof -
  obtain fl t where a: "accept_ready K lfd s = (fl, t)" by (cases "accept_ready K lfd s")
  have m: "ticks s \<le> ticks t"
    using supervised.keeps_accept_ready [of K s lfd] a by (simp add: supervisedD(1))
  have "callbacks_fresh K N t \<and> conn_inv t" if N: "ticks t \<le> N" and f: "callbacks_fresh K N s" and c: "conn_inv s" for N
  proof -
    have new: "fork_fresh K (ticks s) (ticks t) (exit_callbacks s)"
      using f N by (auto simp: callbacks_fresh_def fork_fresh_def list_all_iff)
    consider "fl = Returns" "exit_callbacks t = exit_callbacks s"
      | j n where "fl = Returns" "0 < k_ret K j Fork" "ticks s \<le> j" "j < ticks t"
          "exit_callbacks t = um_put (k_ret K j Fork) (Dec_connections n) (exit_callbacks s)"
      | j where "k_ret K j Fork = 0" "ticks s \<le> j" "j < ticks t"
      using accept_ready_cases [OF a] by blast
    then show ?thesis
    proof cases
      case 1
      have "conn_inv t" using accept_ready_conn_ok [OF c [unfolded conn_inv_def], of K lfd t] a 1 new by (simp add: conn_inv_def)
      moreover have "callbacks_fresh K N t" using callbacks_fresh_mono [OF f m] 1 by simp
      ultimately show ?thesis by simp
    next
      case 2
      have "conn_inv t" using accept_ready_conn_ok [OF c [unfolded conn_inv_def], of K lfd t] a 2 new by (simp add: conn_inv_def)
      moreover have "callbacks_fresh K N t" unfolding callbacks_fresh_def
      proof (intro allI impI)
        fix i assume i: "ticks t \<le> i \<and> i < N"
        then have "ticks s \<le> i \<and> i < N" "ticks s \<le> j \<and> j < N" "j < i \<and> i < N"
          using m 2(3,4) by simp_all
        with f have "k_ret K i Fork \<noteq> k_ret K j Fork" and
          "k_ret K i Fork \<noteq> 0 \<and> (0 < k_ret K i Fork \<longrightarrow> um_get (exit_callbacks s) (k_ret K i Fork) = None \<and>
             (\<forall>m. i < m \<and> m < N \<longrightarrow> k_ret K m Fork \<noteq> k_ret K i Fork))"
          using 2(2) unfolding callbacks_fresh_def by blast+
        then show "k_ret K i Fork \<noteq> 0 \<and> (0 < k_ret K i Fork \<longrightarrow> um_get (exit_callbacks t) (k_ret K i Fork) = None \<and>
             (\<forall>m. i < m \<and> m < N \<longrightarrow> k_ret K m Fork \<noteq> k_ret K i Fork))"
          by (simp add: 2(5))
      qed
      ultimately show ?thesis by simp
    next
      case 3
      with f N show ?thesis by (meson callbacks_fresh_def order_less_le_trans)
    qed
  qed
  with m a show ?thesis by (simp add: counts_def)
qed

interpretation counts: loop_contract "counts K" K for K
  by unfold_locales
     (rule reap_one_counts counts.keeps_stop_unit accept_ready_counts close_all_counts counts.keeps_any_tui
      | rule counts_frame, simp_all)+

interpretation counts: entry_contract "counts K" K for K
  by unfold_locales (rule counts.keeps_any_tui | rule counts_frame, simp_all)+

interpretation counts: later_contract "counts K" K for K
  by unfold_locales

section \<open>Boot\<close>

text \<open>Before the main loop no connection is open.\<close>

definition no_connections :: "'a socket_st_scheme \<Rightarrow> bool" where
  "no_connections s \<longleftrightarrow> exit_callbacks s = [] \<and>
     (\<forall>n u. um_get (socket_units s) n = Some u \<longrightarrow> su_active_connections u = 0)"

definition stays_idle :: "'a socket_st_scheme \<Rightarrow> 'a socket_st_scheme \<Rightarrow> bool" where
  "stays_idle s t \<longleftrightarrow> (no_connections s \<longrightarrow> no_connections t)"

interpretation idle: op_contract stays_idle
  by unfold_locales (auto simp: stays_idle_def)

interpretation idle: table_contract stays_idle K for K
  by unfold_locales (simp_all add: stays_idle_def no_connections_def)

interpretation idle: boot_contract stays_idle K for K
  by unfold_locales (simp_all add: stays_idle_def no_connections_def)

lemma boot_idle:
  assumes "boot K junk it (main_start K) = (x, s)"
  shows "no_connections s"
proof -
  have "no_connections (main_start K)"
    by (simp add: no_connections_def main_start_def init_system_new_def print_stderr_def Let_def)
  with idle.keeps_boot [of "main_start K" K junk it] assms show ?thesis by (simp add: stays_idle_def)
qed

lemma idle_start:
  assumes "no_connections s" "init_process K N"
  shows "conn_inv s" "callbacks_fresh K N s"
  using assms by (auto simp: no_connections_def conn_inv_def conn_ok_def live_connections_def
      init_process_def callbacks_fresh_def)

section \<open>The limit holds throughout\<close>

lemma counts_keeps:
  "counts K s t \<Longrightarrow> ticks t \<le> N \<Longrightarrow> callbacks_fresh K N s \<Longrightarrow> conn_inv s \<Longrightarrow> conn_inv t"
  by (simp add: counts_def)

text \<open>C13: the connection limit holds in the whole program. At every turn of the main loop, and when the
  program ends, the counter of every socket unit is exactly the number of its connections
  whose service process has not been reaped yet, and it does not exceed \<open>MaxConnections=\<close> when
  that is set, whatever services, signals, restarts and keys come in between. (The run is that
  of the init process and not of a child it forked, and the kernel reuses no pid during it.)\<close>

theorem program_respects_max_connections:
  assumes "loop_head K junk it n t \<or> main_init n K junk it = Some ((fl, rc), t)"
    and "init_process K (ticks t)" and "um_get (socket_units t) name = Some u"
  shows "su_active_connections u = live_connections (exit_callbacks t) name \<and>
    (0 < su_max_conn u \<longrightarrow> su_active_connections u \<le> su_max_conn u)"
proof -
  obtain x s where s: "boot K junk it (main_start K) = (x, s)" "counts K s t"
    using assms(1) by (rule counts.keeps_after_boot)
  have "conn_inv t"
    by (rule counts_keeps [OF s(2) order_refl]) (rule idle_start [OF boot_idle [OF s(1)] assms(2)])+
  with assms(3) show ?thesis by (auto simp: conn_inv_def conn_ok_def)
qed

section \<open>No socket unit is lost\<close>

text \<open>The table of socket units only grows.\<close>

definition keeps_sockets :: "'a socket_st_scheme \<Rightarrow> 'a socket_st_scheme \<Rightarrow> bool" where
  "keeps_sockets s t \<longleftrightarrow> (\<forall>n. um_get (socket_units s) n \<noteq> None \<longrightarrow> um_get (socket_units t) n \<noteq> None)"

interpretation kept: op_contract keeps_sockets
  by unfold_locales (auto simp: keeps_sockets_def)

interpretation kept: table_contract keeps_sockets K for K
  by unfold_locales (simp_all add: keeps_sockets_def)

interpretation kept: screen_contract keeps_sockets K for K
  by unfold_locales (simp_all add: keeps_sockets_def)

lemma close_all_kept: "keeps_sockets s (close_all_sockets K s)"
  by (simp add: keeps_sockets_def close_all_get)

interpretation kept: plain_contract keeps_sockets K for K
  by unfold_locales (rule kept.keeps_any_tui close_all_kept | simp add: keeps_sockets_def um_get_bump)+

interpretation kept: program_contract keeps_sockets K for K
  by unfold_locales (rule kept.keeps_any_tui | simp add: keeps_sockets_def)+

lemma main_init_keeps_sockets:
  assumes "main_init n socket_machine (\<lambda>_ _. False) um_keys = Some ((fl, rc), t)"
  shows "\<exists>u. um_get (socket_units t) ''a.socket'' = Some u"
proof -
  obtain x u where "boot socket_machine (\<lambda>_ _. False) um_keys (main_start socket_machine) = (x, u)" "keeps_sockets u t"
    using disjI2 [OF assms] by (rule kept.keeps_after_boot)
  moreover obtain s where "boot socket_machine (\<lambda>_ _. False) um_keys (main_start socket_machine) = ((Returns, 0), s)"
      "socket_units s = [(''a.socket'', machine_sock\<lparr>su_listen := [machine_entry\<lparr>le_fd := 0\<rparr>]\<rparr>)]"
    by (rule socket_machine_boots)
  ultimately have "um_get (socket_units u) ''a.socket'' \<noteq> None" "keeps_sockets u t"
    by (simp_all add: um_get_def)
  then show ?thesis by (simp add: keeps_sockets_def)
qed

theorem program_respects_max_connections_witness:
  "\<exists>t u. main_init 1 socket_machine (\<lambda>_ _. False) um_keys = Some ((Returns, 0), t) \<and>
     um_get (socket_units t) ''a.socket'' = Some u \<and>
     su_active_connections u = live_connections (exit_callbacks t) ''a.socket'' \<and>
     (0 < su_max_conn u \<longrightarrow> su_active_connections u \<le> su_max_conn u)"
proof -
  obtain t where m: "main_init 1 socket_machine (\<lambda>_ _. False) um_keys = Some ((Returns, 0), t)"
    using socket_machine_ends by blast
  obtain u where u: "um_get (socket_units t) ''a.socket'' = Some u"
    using main_init_keeps_sockets [OF m] by blast
  have "init_process socket_machine (ticks t)" by (simp add: init_process_def socket_machine_answers)
  from program_respects_max_connections [OF disjI2 [OF m] this u] m u show ?thesis by blast
qed

end
