(* ===== verification/Routing.thy ===== *)
theory Routing
  imports Connections
begin

text \<open>
  Which socket unit a ready descriptor belongs to: the table \<open>fd_to_socket_\<close> that the main loop
  looks descriptors up in agrees with the socket units at every turn.
\<close>

section \<open>The descriptors a unit listens on\<close>

definition listening :: "(string, socket_unit) umap \<Rightarrow> string \<Rightarrow> fd list" where
  "listening m n =
     (case um_get m n of
        None \<Rightarrow> []
      | Some u \<Rightarrow> if su_accept u then filter (\<lambda>fd. 0 \<le> fd) (map le_fd (su_listen u)) else [])"

lemma listening_bump: "listening (bump_conn n d m) = listening m"
  by (auto simp: listening_def um_get_bump um_at_def socket_unit_init_def fun_eq_iff split: option.split)

section \<open>The contract of the main loop\<close>

definition same_wiring :: "'a socket_st_scheme \<Rightarrow> 'a socket_st_scheme \<Rightarrow> bool" where
  "same_wiring s t \<longleftrightarrow> fd_to_socket t = fd_to_socket s \<and> listening (socket_units t) = listening (socket_units s)"

interpretation same_wiring: op_contract same_wiring
  by unfold_locales (auto simp: same_wiring_def)

interpretation same_wiring: table_contract same_wiring K for K
  by unfold_locales (simp_all add: same_wiring_def)

interpretation same_wiring: screen_contract same_wiring K for K
  by unfold_locales (simp_all add: same_wiring_def)

interpretation same_wiring: plain_turn_contract same_wiring K for K
  by unfold_locales (rule same_wiring.keeps_any_tui | simp add: same_wiring_def listening_bump)+

section \<open>Registration\<close>

text \<open>Before the loop the table of descriptors is empty.\<close>

definition unrouted :: "'a socket_st_scheme \<Rightarrow> bool" where
  "unrouted s \<longleftrightarrow> fd_to_socket s = [] \<and> um_wf (socket_units s)"

definition stays_unrouted :: "'a socket_st_scheme \<Rightarrow> 'a socket_st_scheme \<Rightarrow> bool" where
  "stays_unrouted s t \<longleftrightarrow> (unrouted s \<longrightarrow> unrouted t)"

interpretation unrouted: op_contract stays_unrouted
  by unfold_locales (auto simp: stays_unrouted_def)

interpretation unrouted: table_contract stays_unrouted K for K
  by unfold_locales (simp_all add: stays_unrouted_def unrouted_def)

interpretation unrouted: boot_contract stays_unrouted K for K
  by unfold_locales (simp_all add: stays_unrouted_def unrouted_def um.wf_put)

lemma boot_unrouted:
  assumes "boot K junk it (main_start K) = (x, s)"
  shows "unrouted s"
proof -
  have "unrouted (main_start K)"
    by (simp add: unrouted_def main_start_def init_system_new_def print_stderr_def um_wf_def um_keys_def Let_def)
  with unrouted.keeps_boot [of "main_start K" K junk it] assms show ?thesis by (simp add: stays_unrouted_def)
qed

text \<open>The entries that \<open>register_accept_sockets\<close> makes, in order.\<close>

definition acceptors :: "(string \<times> socket_unit) list \<Rightarrow> (fd \<times> string) list" where
  "acceptors us =
     concat (map (\<lambda>(n, u). if su_accept u then map (\<lambda>fd. (fd, n)) (filter (\<lambda>fd. 0 \<le> fd) (map le_fd (su_listen u))) else []) us)"

definition put_all :: "(fd \<times> string) list \<Rightarrow> (fd, string) umap \<Rightarrow> (fd, string) umap" where
  "put_all ps m = fold (\<lambda>(fd, n). um_put fd n) ps m"

lemma put_all_simps [simp]:
  "put_all [] m = m" "put_all ((fd, n) # ps) m = put_all ps (um_put fd n m)" "put_all (ps @ qs) m = put_all qs (put_all ps m)"
  by (simp_all add: put_all_def)

lemma put_all_get:
  "um_get (put_all ps m) fd = Some n \<Longrightarrow> (fd, n) \<in> set ps \<or> um_get m fd = Some n"
  "fd \<in> fst ` set ps \<or> um_get m fd \<noteq> None \<Longrightarrow> um_get (put_all ps m) fd \<noteq> None"
proof (induction ps arbitrary: m)
  case (Cons p ps)
  obtain fd' n' where p: "p = (fd', n')" by (cases p)
  { case 1 then show ?case using Cons.IH(1) [of "um_put fd' n' m"] by (auto simp: p split: if_splits) }
  { case 2 then show ?case using Cons.IH(2) [of "um_put fd' n' m"] by (auto simp: p) }
qed simp_all

lemma register_fd_effect:
  "fd_to_socket (register_fd K e n fd s) = um_put fd n (fd_to_socket s)"
  "socket_units (register_fd K e n fd s) = socket_units s"
  by (simp_all add: register_fd_def set_nonblock_def Let_def split_def)

lemma register_entries:
  "fd_to_socket (fold (\<lambda>le s. if le_fd le < 0 then s else register_fd K e n (le_fd le) s) les s) =
     put_all (map (\<lambda>fd. (fd, n)) (filter (\<lambda>fd. 0 \<le> fd) (map le_fd les))) (fd_to_socket s)"
  "socket_units (fold (\<lambda>le s. if le_fd le < 0 then s else register_fd K e n (le_fd le) s) les s) = socket_units s"
  by (induction les arbitrary: s) (simp_all add: register_fd_effect)

lemma register_effect:
  "fd_to_socket (register_accept_sockets K e s) = put_all (acceptors (socket_units s)) (fd_to_socket s)"
  "socket_units (register_accept_sockets K e s) = socket_units s"
proof -
  let ?f = "\<lambda>(n, u) s. if \<not> su_accept u then s
     else fold (\<lambda>le s. if le_fd le < 0 then s else register_fd K e n (le_fd le) s) (su_listen u) s"
  have "fd_to_socket (fold ?f us t) = put_all (acceptors us) (fd_to_socket t) \<and> socket_units (fold ?f us t) = socket_units t"
    for us and t :: "'a socket_st_scheme"
    by (induction us arbitrary: t) (auto simp: acceptors_def register_entries)
  then show "fd_to_socket (register_accept_sockets K e s) = put_all (acceptors (socket_units s)) (fd_to_socket s)"
    "socket_units (register_accept_sockets K e s) = socket_units s"
    by (simp_all add: register_accept_sockets_def)
qed

lemma acceptors_listening: "um_wf m \<Longrightarrow> (fd, n) \<in> set (acceptors m) \<longleftrightarrow> fd \<in> set (listening m n)"
  by (fastforce simp: acceptors_def listening_def um_get_in split: option.splits if_splits dest: um_get_mem)

section \<open>Every turn\<close>

definition routing_ok :: "'a socket_st_scheme \<Rightarrow> bool" where
  "routing_ok s \<longleftrightarrow>
     (\<forall>fd n. um_get (fd_to_socket s) fd = Some n \<longrightarrow> fd \<in> set (listening (socket_units s) n)) \<and>
     (\<forall>fd n. fd \<in> set (listening (socket_units s) n) \<longrightarrow> um_get (fd_to_socket s) fd \<noteq> None)"

lemma routing_cong: "same_wiring s t \<Longrightarrow> routing_ok t = routing_ok s"
  by (simp add: same_wiring_def routing_ok_def)

lemma register_routing:
  assumes "unrouted s"
  shows "routing_ok (register_accept_sockets K e s)"
proof -
  have w: "um_wf (socket_units s)" and e: "fd_to_socket s = []" using assms by (simp_all add: unrouted_def)
  show ?thesis
    using put_all_get [where ps = "acceptors (socket_units s)" and m = "[]"] acceptors_listening [OF w]
    by (force simp: routing_ok_def register_effect e um_get_def)
qed

lemma enter_wiring: "same_wiring (register_accept_sockets K (epoll_fd s) s) (enter_loop K s)"
  unfolding enter_loop_def by (rule same_wiring.keeps_trans [OF same_wiring.keeps_any_tui(4) same_wiring.keeps_log])

lemma enter_routing: "unrouted s \<Longrightarrow> routing_ok (enter_loop K s)"
  using routing_cong [OF enter_wiring] register_routing by blast

text \<open>Accepting a connection touches no socket unit but the one the table names.\<close>

definition same_keys :: "'a socket_st_scheme \<Rightarrow> 'a socket_st_scheme \<Rightarrow> bool" where
  "same_keys s t \<longleftrightarrow> (\<forall>m. um_get (socket_units t) m = None \<longleftrightarrow> um_get (socket_units s) m = None)"

lemma same_keys_trans: "same_keys s t \<Longrightarrow> same_keys t u \<Longrightarrow> same_keys s u"
  by (simp add: same_keys_def)

lemma add_connections_keys: "um_get (socket_units s) n \<noteq> None \<Longrightarrow> same_keys s (add_connections n d s)"
  by (auto simp: same_keys_def add_connections_bump um_get_bump)

lemma same_units_keys: "socket_units t = socket_units s \<Longrightarrow> same_keys s t"
  by (simp add: same_keys_def)

lemma serve_connection_keys:
  assumes n: "um_get (socket_units s) n \<noteq> None"
  shows "same_keys s (snd (serve_connection K n c s))"
proof -
  have d: "same_keys s (snd (drop_connection K n c s))"
    using add_connections_keys [of "sys_do K (Close c) s" n "-1"] n by (simp add: drop_connection_def same_keys_def)
  show ?thesis
  proof (cases rule: serve_connection_forms [of K n c s])
    case (spawn unit path args)
    let ?u = "um_at socket_unit_init (socket_units s) n"
    let ?svc = "resolve_pair ?u s" and ?env = "\<lparr>env_fds = [c], env_names = [su_name ?u]\<rparr>"
    let ?sp = "spawn_with_socket_fds K ?svc path args ?env False (Some unit) s"
    let ?c = "sys_do K (Close c) (snd ?sp)"
    have un: "socket_units (snd ?sp) = socket_units s" by (rule spawn_socket_result(2))
    have "snd (serve_connection K n c s) \<in> {snd ?sp, on_child_exit (fst ?sp) (Dec_connections n) ?c, add_connections n (-1) ?c}"
      using spawn by (simp add: serve_connection_def Let_def split_def)
    moreover have "same_keys s (add_connections n (-1) ?c)"
      using add_connections_keys [of ?c n "-1"] n un by (simp add: same_keys_def)
    moreover have "same_keys s (snd ?sp)" "same_keys s (on_child_exit (fst ?sp) (Dec_connections n) ?c)"
      using un by (simp_all add: same_units_keys on_child_exit_def)
    ultimately show ?thesis by auto
  qed (simp add: d)
qed

lemma accept_ready_keys:
  assumes "\<And>n. um_get (fd_to_socket s) fd = Some n \<Longrightarrow> um_get (socket_units s) n \<noteq> None"
  shows "same_keys s (snd (accept_ready K fd s))"
proof (cases "um_get (fd_to_socket s) fd")
  case None
  then show ?thesis by (simp add: accept_ready_def same_units_keys)
next
  case (Some n)
  let ?s0 = "add_connections n 0 s"
  let ?s1 = "snd (sys K (Accept4 fd) ?s0)"
  let ?c = "k_ret K (ticks s) (Accept4 fd)"
  have n: "um_get (socket_units s) n \<noteq> None" using assms [OF Some] .
  have 0: "same_keys s ?s0" by (rule add_connections_keys [OF n])
  then have 1: "same_keys s ?s1" "um_get (socket_units ?s1) n \<noteq> None" using n by (simp_all add: same_keys_def)
  have 2: "same_keys s (add_connections n 1 ?s1)" by (rule same_keys_trans [OF 1(1) add_connections_keys [OF 1(2)]])
  then have "um_get (socket_units (add_connections n 1 ?s1)) n \<noteq> None" using n by (simp add: same_keys_def)
  from same_keys_trans [OF 2 serve_connection_keys [OF this]]
  have 3: "same_keys s (snd (serve_connection K n ?c (add_connections n 1 ?s1)))" .
  have 4: "same_keys s (sys_do K (Close ?c) ?s1)" using 1(1) by (simp add: same_keys_def)
  have t: "ticks ?s0 = ticks s" by (simp add: add_connections_bump)
  have "snd (accept_ready K fd s) \<in> {?s1, sys_do K (Close ?c) ?s1, snd (serve_connection K n ?c (add_connections n 1 ?s1))}"
    using Some t by (simp add: accept_ready_def Let_def split_def)
  with 1 3 4 show ?thesis by auto
qed

lemma loop_routing: "loop_head K junk it k t \<Longrightarrow> routing_ok t"
proof (induction rule: loop_head.induct)
  case (first_turn s)
  then show ?case using boot_unrouted enter_routing by blast
next
  case (next_turn k s t)
  then show ?case using routing_cong [OF same_wiring.keeps_loop_body [of s K]] by simp
qed

text \<open>C14: ready descriptors find their unit. At every turn of the main loop, whatever happened before,
  the unit that the table of descriptors names is an \<open>Accept=yes\<close> unit that listens on that
  descriptor, and every descriptor such a unit listens on is in the table. So accepting never
  creates a socket unit out of nothing.\<close>

theorem routing_correct:
  assumes "loop_head K junk it k t"
  shows "(um_get (fd_to_socket t) fd = Some n \<longrightarrow> fd \<in> set (listening (socket_units t) n)) \<and>
    (fd \<in> set (listening (socket_units t) m) \<longrightarrow> um_get (fd_to_socket t) fd \<noteq> None) \<and>
    (um_get (socket_units (snd (accept_ready K fd t))) m = None \<longleftrightarrow> um_get (socket_units t) m = None)"
proof -
  have r: "routing_ok t" by (rule loop_routing [OF assms])
  have "um_get (socket_units t) n \<noteq> None" if "um_get (fd_to_socket t) fd = Some n" for n
  proof -
    have "fd \<in> set (listening (socket_units t) n)" using r that by (simp add: routing_ok_def)
    then show ?thesis by (cases "um_get (socket_units t) n") (simp_all add: listening_def)
  qed
  then have "same_keys t (snd (accept_ready K fd t))" by (rule accept_ready_keys)
  with r show ?thesis unfolding routing_ok_def same_keys_def by blast
qed

theorem routing_correct_witness:
  "\<exists>t. loop_head socket_machine (\<lambda>_ _. False) um_keys 0 t \<and> um_get (fd_to_socket t) 0 = Some ''a.socket'' \<and>
     0 \<in> set (listening (socket_units t) ''a.socket'')"
proof -
  obtain s where s: "boot socket_machine (\<lambda>_ _. False) um_keys (main_start socket_machine) = ((Returns, 0), s)"
      "socket_units s = [(''a.socket'', machine_sock\<lparr>su_listen := [machine_entry\<lparr>le_fd := 0\<rparr>]\<rparr>)]"
    by (rule socket_machine_boots)
  let ?t = "enter_loop socket_machine s"
  have l: "loop_head socket_machine (\<lambda>_ _. False) um_keys 0 ?t" by (rule first_turn [OF s(1)])
  have "fd_to_socket ?t = [(0, ''a.socket'')]"
    using boot_unrouted [OF s(1)] enter_wiring [of socket_machine s] s(2)
    by (simp add: same_wiring_def unrouted_def register_effect acceptors_def machine_sock_facts um_put_def)
  then have "um_get (fd_to_socket ?t) 0 = Some ''a.socket''" by (simp add: um_get_def)
  with l routing_correct [OF l, of 0 "''a.socket''"] show ?thesis by blast
qed

end
