(* ===== verification/Cleanup.thy ===== *)
theory Cleanup
  imports Socket_Machine
begin

text \<open>
  How a run of the program ends: from the state in which the main loop stops to the return of
  \<open>main\<close>, every request, and what is left.
\<close>

section \<open>After the loop\<close>

text \<open>\<open>v\<close> is the state in which the main loop of a run stopped.\<close>

definition loop_stops_at :: "kernel \<Rightarrow> (string \<Rightarrow> nat \<Rightarrow> bool) \<Rightarrow> ((string, unit_file) umap \<Rightarrow> string list) \<Rightarrow>
    nat \<Rightarrow> init_system \<Rightarrow> bool" where
  "loop_stops_at K junk it n v \<longleftrightarrow>
     (case boot K junk it (main_start K) of
        (r, u) \<Rightarrow> r = (Returns, 0) \<and> main_loop n K (enter_loop K u) = Some (Returns, v))"

lemma loop_stops_fds:
  assumes "loop_stops_at K junk it n v"
  shows "0 \<le> signal_fd v" "0 \<le> epoll_fd v"
proof -
  obtain u where u: "boot K junk it (main_start K) = ((Returns, 0), u)" "main_loop n K (enter_loop K u) = Some (Returns, v)"
    using assms by (auto simp: loop_stops_at_def split: prod.splits)
  have "supervised K u v" by (rule supervised.keeps_trans [OF supervised.keeps_enter_loop supervised.keeps_main_loop [OF u(2)]])
  with boot_fds [OF u(1)] supervisedD(3,4) show "0 \<le> signal_fd v" "0 \<le> epoll_fd v" by metis+
qed

lemma shutdown_fds: "signal_fd (shutdown K v) = signal_fd v" "epoll_fd (shutdown K v) = epoll_fd v"
  using supervisedD(3,4) [OF supervised.keeps_shutdown [of K v]] by simp_all

lemma destroy_trace:
  "trace (destroy_InitSystem K s) =
     trace s @ map Close (filter (\<lambda>fd. 0 \<le> fd) [signal_fd s, epoll_fd s])"
  by (simp add: destroy_InitSystem_def shutdown_tui_def window_defs)

lemma destroy_rest:
  "processes (destroy_InitSystem K s) = processes s" "listeners (destroy_InitSystem K s) = listeners s"
  by (simp_all add: destroy_InitSystem_def shutdown_tui_def window_defs listeners_def)

lemma close_all_listeners: "list_all (\<lambda>le. le_fd le < 0) (listeners (close_all_sockets K s))"
  by (auto simp: listeners_def close_all_sockets_def split_def close_units_spec Let_def list_all_iff)

lemma shutdown_listeners: "list_all (\<lambda>le. le_fd le < 0) (listeners (shutdown K s))"
proof -
  have u: "listeners (unmount_one K m t) = listeners t" for m and t :: "'a tui_st_scheme"
    by (simp add: unmount_one_def listeners_def Let_def split_def)
  have l: "listeners (log K l src m t) = listeners t" for l src m and t :: "'a tui_st_scheme"
    by (simp add: listeners_def)
  have "listeners (snd (execute_Shutdown K t)) = listeners t" for t :: "'a tui_st_scheme"
    by (simp add: execute_Shutdown_def Let_def fold_keeps [where g = listeners, OF u] l)
  then show ?thesis unfolding shutdown_def Let_def l by (simp add: close_all_listeners)
qed

text \<open>C8: the program cleans up. When \<open>main\<close> returns 0, the requests after its main loop were, in this
  order and nothing else: \<open>SIGTERM\<close> to the process of every unit in reverse start order,
  \<open>SIGKILL\<close> to every process still tracked after the grace period, the closing of every
  listening socket and the removal of its path, the unmounting in reverse mount order, and the
  closing of the signalfd and of the epoll descriptor. Whatever process is still tracked has been
  sent \<open>SIGKILL\<close>, and no unit holds a descriptor any more.\<close>

theorem program_cleans_up:
  assumes "main_init n K junk it = Some ((Returns, 0), t)"
  shows "\<exists>v killed. loop_stops_at K junk it n v \<and>
    trace t = trace v @ map (\<lambda>p. Kill p SIGTERM) (unit_pids v (rev (exec_order v))) @
      map (\<lambda>p. Kill p SIGKILL) killed @ concat (map close_requests (listeners v)) @
      map Umount2_detach (rev (mounted v)) @ [Close (signal_fd v), Close (epoll_fd v)] \<and>
    set (um_keys (processes t)) \<subseteq> set killed \<and> set killed \<subseteq> set (um_keys (processes v)) \<and>
    list_all (\<lambda>le. le_fd le < 0) (listeners t)"
  using assms
proof (cases rule: main_init_cases)
  case (shuts_down u v)
  then have v: "loop_stops_at K junk it n v" by (simp add: loop_stops_at_def)
  obtain killed where k: "trace (shutdown K v) = trace v @ map (\<lambda>p. Kill p SIGTERM) (unit_pids v (rev (exec_order v))) @
      map (\<lambda>p. Kill p SIGKILL) killed @ concat (map close_requests (listeners v)) @ map Umount2_detach (rev (mounted v))"
      "set killed \<subseteq> set (um_keys (processes v))" "set (um_keys (processes (shutdown K v))) \<subseteq> set killed"
    using shutdown_sequence [of K v] by blast
  have "trace t = trace (shutdown K v) @ [Close (signal_fd v), Close (epoll_fd v)]"
    using loop_stops_fds [OF v] by (simp add: shuts_down(5) destroy_trace shutdown_fds)
  with k v show ?thesis by (intro exI [of _ v] exI [of _ killed]) (simp add: shuts_down(5) destroy_rest shutdown_listeners)
qed simp_all

theorem program_cleans_up_witness:
  "\<exists>t v killed. main_init 1 socket_machine (\<lambda>_ _. False) um_keys = Some ((Returns, 0), t) \<and>
     loop_stops_at socket_machine (\<lambda>_ _. False) um_keys 1 v \<and>
     trace t = trace v @ map (\<lambda>p. Kill p SIGTERM) (unit_pids v (rev (exec_order v))) @
       map (\<lambda>p. Kill p SIGKILL) killed @ concat (map close_requests (listeners v)) @
       map Umount2_detach (rev (mounted v)) @ [Close (signal_fd v), Close (epoll_fd v)] \<and>
     list_all (\<lambda>le. le_fd le < 0) (listeners t)"
proof -
  obtain t where m: "main_init 1 socket_machine (\<lambda>_ _. False) um_keys = Some ((Returns, 0), t)"
    using socket_machine_ends by blast
  from program_cleans_up [OF this] m show ?thesis by blast
qed

end
