(* ===== verification/Chronicle.thy ===== *)
theory Chronicle
  imports Whole_System
begin

text \<open>
  The journal over a whole run of the program: entries are appended in the order of the clock
  readings, every entry is printed once, and nothing below the threshold is recorded.
\<close>

section \<open>The contract\<close>

text \<open>The line that \<open>log\<close> prints for an entry.\<close>

definition console_line :: "journal_entry \<Rightarrow> string" where
  "console_line e = ''['' @ lvl_str (je_level e) @ ''] '' @ c_str (je_source e) @ '': '' @ c_str (je_message e) @ [CHR 0x0A]"

text \<open>From \<open>s\<close> to \<open>t\<close> the journal grew by \<open>es\<close>, read off the clock at the requests \<open>ns\<close>.\<close>

definition grew :: "kernel \<Rightarrow> journal_entry list \<Rightarrow> nat list \<Rightarrow> 'a journal_st_scheme \<Rightarrow> 'a journal_st_scheme \<Rightarrow> bool" where
  "grew K es ns s t \<longleftrightarrow>
     journal_entries t = journal_entries s @ es \<and> console t = console s @ map console_line es \<and>
     map je_timestamp es = map (k_wall K) ns \<and> sorted_wrt (<) ns \<and> set ns \<subseteq> {ticks s..<ticks t} \<and>
     (\<forall>e\<in>set es. min_level s \<le> je_level e)"

definition recorded :: "kernel \<Rightarrow> 'a journal_st_scheme \<Rightarrow> 'a journal_st_scheme \<Rightarrow> bool" where
  "recorded K s t \<longleftrightarrow> ticks s \<le> ticks t \<and> min_level t = min_level s \<and> (\<exists>es ns. grew K es ns s t)"

lemma grew_append:
  assumes "grew K es ns s t" "grew K es' ns' t u" "ticks s \<le> ticks t" "ticks t \<le> ticks u" "min_level t = min_level s"
  shows "grew K (es @ es') (ns @ ns') s u"
proof -
  have 1: "journal_entries t = journal_entries s @ es" "console t = console s @ map console_line es"
      "map je_timestamp es = map (k_wall K) ns" "sorted_wrt (<) ns" "set ns \<subseteq> {ticks s..<ticks t}"
      "\<forall>e\<in>set es. min_level s \<le> je_level e"
    and 2: "journal_entries u = journal_entries t @ es'" "console u = console t @ map console_line es'"
      "map je_timestamp es' = map (k_wall K) ns'" "sorted_wrt (<) ns'" "set ns' \<subseteq> {ticks t..<ticks u}"
      "\<forall>e\<in>set es'. min_level t \<le> je_level e"
    using assms(1,2) by (simp_all add: grew_def)
  have "a < b" if "a \<in> set ns" "b \<in> set ns'" for a b
  proof -
    have "a < ticks t" "ticks t \<le> b" using 1(5) 2(5) that by auto
    then show ?thesis by simp
  qed
  with 1(4) 2(4) have "sorted_wrt (<) (ns @ ns')" by (simp add: sorted_wrt_append)
  moreover have "set (ns @ ns') \<subseteq> {ticks s..<ticks u}"
    using subset_trans [OF 1(5), of "{ticks s..<ticks u}"] subset_trans [OF 2(5), of "{ticks s..<ticks u}"] assms(3,4)
    by simp
  moreover have "\<forall>e\<in>set (es @ es'). min_level s \<le> je_level e" using 1(6) 2(6) assms(5) by auto
  ultimately show ?thesis using 1(1-3) 2(1-3) by (simp add: grew_def)
qed

lemma recorded_trans: "recorded K s t \<Longrightarrow> recorded K t u \<Longrightarrow> recorded K s u"
proof -
  assume a: "recorded K s t" "recorded K t u"
  obtain es ns es' ns' where "grew K es ns s t" "grew K es' ns' t u" using a by (auto simp: recorded_def)
  then have "grew K (es @ es') (ns @ ns') s u"
    using a by (auto simp: recorded_def intro: grew_append)
  with a show ?thesis by (auto simp: recorded_def)
qed

lemma grew_none: "journal_entries t = journal_entries s \<Longrightarrow> console t = console s \<Longrightarrow> grew K [] [] s t"
  by (simp add: grew_def)

lemma recorded_frame:
  "\<lbrakk>ticks s \<le> ticks t; min_level t = min_level s; journal_entries t = journal_entries s; console t = console s\<rbrakk> \<Longrightarrow>
   recorded K s t"
  unfolding recorded_def using grew_none by blast

lemma log_recorded: "recorded K s (log K l src m s)"
proof (cases "l < min_level s")
  case True
  then show ?thesis by (simp add: log_def recorded_frame)
next
  case False
  let ?e = "\<lparr>je_timestamp = k_wall K (ticks s), je_level = l, je_source = src, je_message = m\<rparr>"
  have "grew K [?e] [ticks s] s (log K l src m s)"
    using False by (simp add: grew_def log_def console_line_def)
  with False show ?thesis unfolding recorded_def by (auto simp: log_def)
qed

lemma console_frame [simp]:
  "console (snd (sys K c s)) = console s" "console (tick s) = console s"
  by (simp_all add: sys_def tick_def)

interpretation recorded: op_contract "recorded K" for K
  by unfold_locales (rule recorded_frame, simp_all, rule recorded_trans)

interpretation recorded: table_contract "recorded K" K for K
  by unfold_locales (rule log_recorded | rule recorded_frame, simp_all)+

interpretation recorded: screen_contract "recorded K" K for K
  by unfold_locales (rule recorded_frame, simp_all)+

interpretation recorded: plain_contract "recorded K" K for K
  by unfold_locales (rule recorded.keeps_any_tui | (rule recorded.keeps_close_sockets)?, rule recorded_frame, simp_all)+

interpretation recorded: program_contract "recorded K" K for K
  by unfold_locales (rule recorded.keeps_any_tui | rule recorded_frame, simp_all)+

section \<open>The journal of a run\<close>

definition first_entry :: "kernel \<Rightarrow> journal_entry" where
  "first_entry K = \<lparr>je_timestamp = k_wall K (ticks (main_start K)), je_level = Info, je_source = ''init'',
     je_message = ''trivialInit starting''\<rparr>"

lemma main_start_journal:
  "journal_entries (main_start K) = []" "min_level (main_start K) = Info"
  by (simp_all add: main_start_def init_system_new_def print_stderr_def tick_def Let_def)

lemma first_logged:
  "grew K [first_entry K] [ticks (main_start K)] (main_start K) (log K Info ''init'' ''trivialInit starting'' (main_start K))"
  by (simp add: grew_def log_def main_start_journal console_line_def first_entry_def)

lemma run_journal:
  assumes "loop_head K junk it n t \<or> main_init n K junk it = Some ((fl, rc), t)"
  shows "\<exists>es ns. grew K (first_entry K # es) ns (main_start K) t"
proof -
  let ?s = "log K Info ''init'' ''trivialInit starting'' (main_start K)"
  obtain x u where u: "boot K junk it (main_start K) = (x, u)" "recorded K u t"
    using assms by (rule recorded.keeps_after_boot)
  have "recorded K ?s u" using recorded.keeps_phases [of K "main_start K" junk it] u(1) by simp
  then have r: "recorded K ?s t" using u(2) by (rule recorded.keeps_trans)
  then obtain es ns where "grew K es ns ?s t" by (auto simp: recorded_def)
  from grew_append [OF first_logged this] r log_recorded [of K "main_start K" Info "''init''" "''trivialInit starting''"]
  show ?thesis by (auto simp: recorded_def)
qed

lemma sorted_clock: "mono f \<Longrightarrow> sorted_wrt (<) ns \<Longrightarrow> sorted (map f ns)" for ns :: "nat list"
  by (simp add: sorted_wrt_map sorted_wrt_mono_rel [of ns "(<)"] monoD)

lemma goodbye_logged:
  assumes "main_init n K junk it = Some ((Returns, 0), t)"
  shows "je_message (last (entries t)) = ''Goodbye.''"
  using assms
proof (cases rule: main_init_cases)
  case (shuts_down u v)
  have j: "journal_entries (destroy_InitSystem K s) = journal_entries s" for s :: init_system
    by (simp add: destroy_InitSystem_def shutdown_tui_def window_defs)
  obtain w where w: "shutdown K v = log K Info ''init'' ''Goodbye.'' w" by (simp add: shutdown_def Let_def)
  have "recorded K (main_start K) (shutdown K v)"
  proof -
    have "recorded K (main_start K) u" using recorded.keeps_boot [of K "main_start K" junk it] shuts_down(1) by simp
    from recorded.keeps_trans [OF recorded.keeps_trans [OF this recorded.keeps_enter_loop]
        recorded.keeps_trans [OF recorded.keeps_main_loop [OF shuts_down(2)] recorded.keeps_shutdown]]
    show ?thesis .
  qed
  then have "min_level w = Info" using w by (simp add: recorded_def main_start_journal)
  then show ?thesis by (simp add: shuts_down(5) entries_def j w log_entries)
qed simp_all

text \<open>C16: the journal of the whole program. At every turn of the main loop, and when the program
  ends, the console shows the line that names the process id and then exactly the journal, one
  line per entry in the same order; the first entry is the start message, no entry is below the
  level \<open>Info\<close>, the time stamps never go back if the clock does not, and a program that returns
  0 has said goodbye last.\<close>

theorem program_journal:
  assumes "loop_head K junk it n t \<or> main_init n K junk it = Some ((fl, rc), t)"
  shows "console t = console (main_start K) @ map console_line (entries t) \<and>
    entries t \<noteq> [] \<and> hd (entries t) = first_entry K \<and> list_all (\<lambda>e. Info \<le> je_level e) (entries t) \<and>
    (mono (k_wall K) \<longrightarrow> sorted (map je_timestamp (entries t))) \<and>
    (main_init n K junk it = Some ((Returns, 0), t) \<longrightarrow> je_message (last (entries t)) = ''Goodbye.'')"
proof -
  obtain es ns where g: "grew K (first_entry K # es) ns (main_start K) t" using run_journal [OF assms] by blast
  then have "entries t = first_entry K # es" by (simp add: grew_def entries_def main_start_journal)
  moreover have "mono (k_wall K) \<longrightarrow> sorted (map (k_wall K) ns)" using g sorted_clock unfolding grew_def by blast
  ultimately show ?thesis
    using g goodbye_logged [of n K junk it t] by (auto simp: grew_def main_start_journal list_all_iff simp del: map_map)
qed

theorem program_journal_witness:
  "\<exists>n fl rc t. main_init n demo_machine (\<lambda>_ _. False) um_keys = Some ((fl, rc), t) \<and>
     console t = console (main_start demo_machine) @ map console_line (entries t) \<and>
     hd (entries t) = first_entry demo_machine \<and> list_all (\<lambda>e. Info \<le> je_level e) (entries t) \<and>
     sorted (map je_timestamp (entries t))"
proof -
  obtain n fl rc t where m: "main_init n demo_machine (\<lambda>_ _. False) um_keys = Some ((fl, rc), t)"
    using main_init_ends [OF demo_machine_signal] by blast
  have "mono (k_wall demo_machine)" by (simp add: mono_def demo_machine_def demo_kernel_def)
  with program_journal [OF disjI2 [OF m]] m show ?thesis by blast
qed

end
