(* ===== verification/Phases.thy ===== *)
theory Phases
  imports Whole_System
begin

text \<open>
  The phase tags of \<open>src/include/trivialInit/mixins/mixin_base.hpp\<close>: the boot is a list of
  phases run until the first one that fails, and what the exit code of the program says.
\<close>

section \<open>Dispatch\<close>

text \<open>
  \<open>execute(phase::X{})\<close>: the tag selects the overload of a mixin. No mixin has one for \<open>Reap\<close>,
  so calling it does not compile.
\<close>

definition returning :: "int \<times> 's \<Rightarrow> (flow \<times> int) \<times> 's" where
  "returning rs = (let (rc, s) = rs in ((Returns, rc), s))"

primrec execute_phase :: "kernel \<Rightarrow> (string \<Rightarrow> nat \<Rightarrow> bool) \<Rightarrow> ((string, unit_file) umap \<Rightarrow> string list) \<Rightarrow>
    phase \<Rightarrow> 'a tui_st_scheme \<Rightarrow> ((flow \<times> int) \<times> 'a tui_st_scheme) option" where
  "execute_phase K junk it EarlyMount s = Some (returning (execute_EarlyMount K s))"
| "execute_phase K junk it SignalSetup s = Some (returning (execute_SignalSetup K s))"
| "execute_phase K junk it UnitDiscovery s = Some (returning (execute_UnitDiscovery K s))"
| "execute_phase K junk it UnitParse s = Some (returning (execute_UnitParse K junk s))"
| "execute_phase K junk it SocketBind s = Some (returning (execute_SocketBind K s))"
| "execute_phase K junk it DependencyResolve s = Some (returning (execute_DependencyResolve K (it (units s)) s))"
| "execute_phase K junk it UnitExecute s = Some (let (fl, s) = execute_UnitExecute K s in ((fl, 0), s))"
| "execute_phase K junk it TuiStart s = Some (returning (execute_TuiStart K s))"
| "execute_phase K junk it Reap s = None"
| "execute_phase K junk it Shutdown s = Some (returning (execute_Shutdown K s))"

definition boot_phases :: "phase list" where
  "boot_phases = [EarlyMount, SignalSetup, UnitDiscovery, UnitParse, SocketBind, DependencyResolve, UnitExecute]"

text \<open>Phases in order, until one fails or leaves by a fork or an exception.\<close>

fun run_phases :: "kernel \<Rightarrow> (string \<Rightarrow> nat \<Rightarrow> bool) \<Rightarrow> ((string, unit_file) umap \<Rightarrow> string list) \<Rightarrow>
    phase list \<Rightarrow> 'a tui_st_scheme \<Rightarrow> ((flow \<times> int) \<times> 'a tui_st_scheme) option" where
  "run_phases K junk it [] s = Some ((Returns, 0), s)"
| "run_phases K junk it (p # ps) s =
     (case execute_phase K junk it p s of
        None \<Rightarrow> None
      | Some (r, t) \<Rightarrow> if r = (Returns, 0) then run_phases K junk it ps t else Some (r, t))"

lemma run_phases_append:
  "run_phases K junk it (ps @ qs) s =
     (case run_phases K junk it ps s of
        None \<Rightarrow> None
      | Some (r, t) \<Rightarrow> if r = (Returns, 0) then run_phases K junk it qs t else Some (r, t))"
  by (induction ps arbitrary: s) (auto split: option.split)

lemma run_phases_or_return:
  assumes "execute_phase K junk it p s = Some (returning rs)" "\<And>t. run_phases K junk it ps t = Some (k t)"
  shows "run_phases K junk it (p # ps) s = Some (or_return rs k)"
  using assms by (cases rs) (simp add: or_return_def returning_def)

lemma boot_runs_phases:
  "run_phases K junk it boot_phases (log K Info ''init'' ''trivialInit starting'' s) = Some (boot K junk it s)"
  unfolding boot_phases_def boot_def Let_def
  by (intro run_phases_or_return execute_phase.simps) (auto split: prod.splits)

section \<open>Exit codes\<close>

text \<open>The first two phases leave everything about units alone.\<close>

definition nothing_started :: "'a unit_exec_st_scheme \<Rightarrow> 'a unit_exec_st_scheme \<Rightarrow> bool" where
  "nothing_started s t \<longleftrightarrow> units t = units s \<and> socket_units t = socket_units s \<and> processes t = processes s \<and>
     exec_order t = exec_order s"

interpretation started: op_contract nothing_started
  by unfold_locales (auto simp: nothing_started_def)

interpretation started: mount_contract nothing_started K for K
  by unfold_locales (simp_all add: nothing_started_def)

lemma signal_setup_started:
  "nothing_started s (snd (execute_SignalSetup K s))" "fst (execute_SignalSetup K s) \<in> {0, 1}"
  by (simp_all add: execute_SignalSetup_def nothing_started_def Let_def split_def)

lemma mount_phase_rc: "fst (execute_EarlyMount K s) \<in> {0, 1}"
  using mount_early_rc [of K kEarlyMounts "log K Info ''fs'' ''Mounting early virtual filesystems'' s"]
  by (auto simp: execute_EarlyMount_def Let_def split_def)

lemma setup_phases:
  assumes "run_phases K junk it [EarlyMount, SignalSetup] s = Some ((fl, rc), t)"
  shows "fl = Returns \<and> rc \<in> {0, 1} \<and> nothing_started s t"
proof -
  let ?s1 = "snd (execute_EarlyMount K s)"
  have "nothing_started s ?s1" by (rule started.keeps_execute_EarlyMount)
  then show ?thesis
    using assms mount_phase_rc [of K s] signal_setup_started [where s = ?s1 and K = K]
      started.keeps_trans [of s ?s1 "snd (execute_SignalSetup K ?s1)"]
    by (auto simp: returning_def split_def split: if_splits)
qed

lemma run_phases_rc:
  fixes s t :: "'a tui_st_scheme"
  assumes "\<And>p (s :: 'a tui_st_scheme) fl rc t. p \<in> set ps \<Longrightarrow> execute_phase K junk it p s = Some ((fl, rc), t) \<Longrightarrow> rc = 0"
    and "run_phases K junk it ps s = Some ((fl, rc), t)"
  shows "rc = 0"
  using assms
proof (induction ps arbitrary: s)
  case (Cons p ps)
  obtain fl' rc' u where p: "execute_phase K junk it p s = Some ((fl', rc'), u)"
    using Cons.prems(2) by (auto split: option.splits)
  show ?case
  proof (cases "(fl', rc') = (Returns, 0)")
    case True
    then have "run_phases K junk it ps u = Some ((fl, rc), t)" using Cons.prems(2) p by simp
    then show ?thesis using Cons.IH Cons.prems(1) by (meson list.set_intros(2))
  next
    case False
    then have "rc' = rc" using Cons.prems(2) p by (simp split: if_splits)
    then show ?thesis using Cons.prems(1) [of p s fl' rc' u] p by simp
  qed
qed simp

lemma unit_phase_rc:
  assumes "p \<in> {UnitDiscovery, UnitParse, SocketBind, DependencyResolve, UnitExecute}"
    and "execute_phase K junk it p s = Some ((fl, rc), t)"
  shows "rc = 0"
  using assms
  by (auto simp: returning_def split_def execute_UnitDiscovery_def execute_UnitParse_def execute_SocketBind_def
      execute_DependencyResolve_def Let_def)

lemma unit_phases_rc:
  assumes "run_phases K junk it [UnitDiscovery, UnitParse, SocketBind, DependencyResolve, UnitExecute] s = Some ((fl, rc), t)"
  shows "rc = 0"
  by (rule run_phases_rc [OF unit_phase_rc assms]) simp_all

lemma boot_failure:
  assumes "boot K junk it s = ((fl, rc), t)" "rc \<noteq> 0"
  shows "fl = Returns \<and> rc = 1 \<and> nothing_started s t"
proof -
  let ?s = "log K Info ''init'' ''trivialInit starting'' s"
  let ?units = "[UnitDiscovery, UnitParse, SocketBind, DependencyResolve, UnitExecute]"
  have "run_phases K junk it ([EarlyMount, SignalSetup] @ ?units) ?s = Some ((fl, rc), t)"
    using boot_runs_phases [of K junk it s] assms(1) by (simp add: boot_phases_def del: run_phases.simps)
  then have "run_phases K junk it [EarlyMount, SignalSetup] ?s = Some ((fl, rc), t)"
    using assms(2) unit_phases_rc [of K junk it] unfolding run_phases_append
    by (auto split: option.splits prod.splits if_splits simp del: run_phases.simps)
  from setup_phases [OF this] assms(2) show ?thesis by (simp add: nothing_started_def)
qed



end
