(* ===== verification/Spec2Isabelle.thy ===== *)
theory Spec2Isabelle
  imports Plan Descriptors Terminal Routing Cleanup Chronicle Phases
begin

text \<open>
  \<^bold>\<open>trivialInit, verified in Isabelle/HOL.\<close>

  trivialInit is an init system in C++: it runs as process 1, mounts the virtual file systems,
  finds and parses systemd unit files, binds listening sockets, starts services in dependency
  order, restarts them when they fail, and shuts everything down on a signal. The class
  \<open>InitSystem\<close> (\<open>src/include/trivialInit/init_system.hpp\<close>) composes nine mixins, each with
  its own members and operations; an operation reaches the other mixins through \<open>self()\<close>.

  \<^bold>\<open>How the model corresponds to the code.\<close> The members of the mixins form one record
  (\<^typ>\<open>tui_st\<close>, theory State), extended mixin by mixin in the order of the composition. A method
  is a function on that record; it is polymorphic in the fields of the mixins above it. A
  phase \<open>execute(phase::X)\<close> is \<open>execute_X\<close>. Hash tables are association lists without
  duplicate keys (\<open>um_get\<close>, \<open>um_put\<close>, \<open>um_erase\<close> of the Prelude, behind the locale
  \<open>hash_table\<close>); where the source walks a table, the model walks the list, and the one walk
  whose order decides an outcome (the in-degree table of \<open>DependencyResolve\<close>) is a
  parameter. Exceptions are values (\<^typ>\<open>cxx_exception\<close>), a method that may throw or whose
  caller may be a forked child returns a \<^typ>\<open>flow\<close>.

  The operating system is a parameter \<open>K\<close> of type \<^typ>\<open>kernel\<close>: it answers every request as
  a function of how many requests came before (\<open>ticks\<close>), so every behaviour of a kernel along
  one run is an instance. Requests that change the world are recorded in \<open>trace\<close>. What a
  theorem needs of the kernel is an explicit hypothesis.

  \<^bold>\<open>The theories.\<close>

  \<^item> Prelude: the string operations of the standard library (\<open>find\<close>, \<open>substr\<close>, \<open>getline\<close>,
    \<open>from_chars\<close>, \<open>stoul\<close>, \<open>format\<close>), hash tables, and the locales \<open>tokeniser\<close> and
    \<open>hash_table\<close> with their interpretations.
  \<^item> Kernel: requests, answers and the macros of \<open>sys/wait.h\<close>.
  \<^item> Journal: \<open>mixins/journal.hpp\<close>. The locale \<open>journalled\<close> says that an operation only
    appends to the journal and keeps its threshold.
  \<^item> Unit_File, Socket_Unit: the data of \<open>systemd/unit_file.hpp\<close> and \<open>systemd/socket_unit.hpp\<close>.
  \<^item> State: the members of all mixins and the frame equations of logging and kernel requests.
  \<^item> Specifiers: \<open>systemd/specifiers.cpp\<close>. Unescaping inverts escaping; expansion is
    replacement of tokens one by one, the caches of the context notwithstanding.
  \<^item> Unit_Parse: \<open>mixins/unit_parse.hpp\<close>. The INI reader is compared with a declarative
    reading of the file (logical lines, sections, assignments), and printing and reading are
    inverse; the same for \<open>Environment=\<close>.
  \<^item> Process: \<open>mixins/process.hpp\<close>, with the invariant of the process table
    (\<open>process_inv\<close>) and the locale \<open>process_table\<close> of the operations that add a process.
  \<^item> Restart: the step relation \<open>proc_step\<close> over these operations, the effect of reaping and
    draining, back-off, start limit, the restart cycle, and credentials of the child.
  \<^item> Sockets: \<open>mixins/socket.hpp\<close>. Parsing and binding, the descriptor shuffle of the child,
    the connection counter as an invariant of the step relation \<open>conn_step\<close>.
  \<^item> Dep_Resolve: the phase \<open>DependencyResolve\<close> of \<open>mixins/unit_exec.hpp\<close>: Kahn's algorithm
    with its loop invariant \<open>kahn_inv\<close>, soundness and completeness of the order.
  \<^item> Unit_Exec: the rest of \<open>mixins/unit_exec.hpp\<close>: mount options, conditions, starting
    services and mounts, restarts.
  \<^item> Filesystem, Unit_Scan, Signals: \<open>mixins/filesystem.hpp\<close>, \<open>unit_scan.hpp\<close> and
    \<open>signal_handler.hpp\<close>.
  \<^item> Curses, Tui: the calls of the terminal library with a checker of its rules, and
    \<open>mixins/tui.hpp\<close>: windows, keys, resizing, what every tab draws (position, colour and
    text, in the order of the calls), and the no-ops of the build without ncurses.
  \<^item> Init_System: \<open>init_system.hpp\<close>, \<open>main.cpp\<close> and \<open>trivialctl.cpp\<close>: boot, main loop,
    shutdown, the monitor of both builds, the order of the shutdown's requests, and the failure
    to mount \<open>/proc\<close>.
  \<^item> Descriptors: binding a socket of any kind leaks no descriptor, on any failure path.
  \<^item> Contracts: a contract is a relation between the states before and after an operation. The
    locales \<open>base_contract\<close>, \<open>table_contract\<close>, \<open>connection_contract\<close>, \<open>loop_contract\<close>,
    \<open>boot_contract\<close>, \<open>later_contract\<close>, \<open>program_contract\<close> and the smaller ones they extend say
    for which elementary operations a relation has to hold, and derive it for the phases, one turn of
    the main loop, the loop, the shutdown and a whole run. \<open>loop_head\<close> is the set of states in
    which the main loop can begin a turn. The theories below are interpretations of these locales.
  \<^item> Supervisor: an abstract supervisor (running processes, units waiting for a restart) as a
    step relation \<open>sup_step\<close>, the contract \<open>refines\<close> towards it, and that every operation on the
    process table keeps it.
  \<^item> Whole_System: a run of \<open>main\<close> refines the abstract supervisor; and a pending \<open>SIGTERM\<close> or
    \<open>SIGINT\<close> ends the program.
  \<^item> Plan: from the parse phase to the end of the program the execution order stays a
    dependency order of the parsed units.
  \<^item> Terminal: over a whole run the terminal is used by the rules of its library and left in
    the mode it was found in.
  \<^item> Connections: over a whole run the connection counters are exact and \<open>MaxConnections=\<close> is
    respected; no socket unit is lost.
  \<^item> Routing: at every turn the table from ready descriptors to socket units is exactly what the
    \<open>Accept=yes\<close> units listen on.
  \<^item> Socket_Machine: a concrete machine with one socket unit, its boot evaluated phase by phase,
    for the witnesses of the two theories above and the next.
  \<^item> Cleanup: every request from the end of the main loop to the return of \<open>main\<close>, and what is left.
  \<^item> Chronicle: over a whole run the journal is append-only, in the order of the clock, mirrored
    on the console, and never below its threshold.
  \<^item> Phases: the tags of \<open>mixins/mixin_base.hpp\<close>, the boot as a list of phases, and what the exit
    code says.

  \<^bold>\<open>Fuel and termination.\<close> All parsing loops and Kahn's algorithm are total functions with
  termination proofs. Only the two loops that run until the user or a signal ends them take
  fuel: \<open>main_loop\<close> and \<open>monitor_loop\<close>; \<^term>\<open>None\<close> says that the loop still runs after
  that many iterations, and the theory Whole_System shows that enough fuel exists once a
  shutdown signal is pending. The grace period of the shutdown is the constant 50 of the source.

  \<^bold>\<open>Not modelled.\<close> The journal's mutex (the program has one thread); the empty translation
  units under \<open>src/src\<close>; of \<open>mixins/mixin_base.hpp\<close> the compile-time machinery around the phase
  tags (\<open>self()\<close> and the inheritance), whose result is the record of the theory State; the time the
  monitor sleeps between two turns. Undefined
  behaviour on overflow of the \<open>int\<close> counters is out of scope: counters are unbounded
  integers, where the source converts to a narrower type (user ids, ports, netlink groups,
  mount flags) the model uses words.
\<close>

end
